(* ===== verification/OBI_Prelude.thy ===== *)
theory OBI_Prelude
  imports Main "HOL-Library.Word" "HOL-Library.Monad_Syntax"
begin

unbundle bit_operations_syntax

section \<open>Machine integers, byte buffers and BPF helpers\<close>

text \<open>
  The vocabulary every component shares: the C integer types as words, byte buffers with reads
  that fault out of range, kernel and user memory as a partial map from addresses to bytes,
  big-endian decoding, and the bounded loop helper \<open>bpf_loop\<close>. A direct array access of the C
  code is \<open>rd\<close> or \<open>rdn\<close>: the value \<open>None\<close> is an access outside the object, so "the function
  never returns \<open>None\<close>" is its memory safety. A guarded access through \<open>bpf_probe_read\<close> is
  \<open>probe_read\<close> on a memory that is an argument of the definitions that use it.
\<close>

type_synonym u8 = "8 word"
type_synonym u16 = "16 word"
type_synonym u32 = "32 word"
type_synonym u64 = "64 word"
type_synonym bytes = "u8 list"

named_theorems in_bounds \<open>reads that stay inside their object\<close>
named_theorems keeps_inv \<open>operations that keep a component's invariant\<close>

subsection \<open>Byte buffers\<close>

definition ascii :: "string \<Rightarrow> bytes" where
  "ascii s = map of_char s"

definition rd :: "bytes \<Rightarrow> nat \<Rightarrow> u8 option" where
  "rd b i = (if i < length b then Some (b ! i) else None)"

definition rdn :: "bytes \<Rightarrow> nat \<Rightarrow> nat \<Rightarrow> bytes option" where
  "rdn b i n = (if i + n \<le> length b then Some (take n (drop i b)) else None)"

text \<open>Storing a run of bytes at an offset of an object, which keeps the object's size.\<close>

definition put_bytes :: "bytes \<Rightarrow> nat \<Rightarrow> bytes \<Rightarrow> bytes option" where
  "put_bytes b i src =
     (if i + length src \<le> length b
      then Some (take i b @ src @ drop (i + length src) b) else None)"

lemma rd_in [simp, in_bounds]: "i < length b \<Longrightarrow> rd b i = Some (b ! i)"
  by (simp add: rd_def)

lemma rd_Some: "rd b i = Some v \<longleftrightarrow> i < length b \<and> v = b ! i"
  by (auto simp: rd_def)

lemma rdn_in [simp, in_bounds]: "i + n \<le> length b \<Longrightarrow> rdn b i n = Some (take n (drop i b))"
  by (simp add: rdn_def)

lemma rdn_Some:
  "rdn b i n = Some bs \<longleftrightarrow> i + n \<le> length b \<and> bs = take n (drop i b)"
  by (auto simp: rdn_def)

lemma rdn_length: "rdn b i n = Some bs \<Longrightarrow> length bs = n"
  by (auto simp: rdn_Some)

lemma put_bytes_length: "put_bytes b i src = Some b' \<Longrightarrow> length b' = length b"
  by (auto simp: put_bytes_def split: if_splits)

lemma take_drop_map_nth:
  "i + n \<le> length b \<Longrightarrow> take n (drop i b) = map (\<lambda>k. b ! (i + k)) [0..<n]"
  by (simp add: list_eq_iff_nth_eq)

text \<open>
  A chain \<open>t0(p[i]) && t1(p[i+1]) && ..\<close>: each byte is read only when the tests before it held.
\<close>

primrec match_seq :: "(u8 \<Rightarrow> bool) list \<Rightarrow> bytes \<Rightarrow> nat \<Rightarrow> bool option" where
  "match_seq [] b i = Some True"
| "match_seq (t # ts) b i =
     (case rd b i of None \<Rightarrow> None
      | Some v \<Rightarrow> if t v then match_seq ts b (Suc i) else Some False)"

text \<open>The same test as a property of the bytes: they are there and each passes.\<close>

definition seq_at :: "(u8 \<Rightarrow> bool) list \<Rightarrow> bytes \<Rightarrow> nat \<Rightarrow> bool" where
  "seq_at ts b i = list_all2 (\<lambda>t v. t v) ts (take (length ts) (drop i b))"

lemma match_seq_in [simp, in_bounds]:
  "i + length ts \<le> length b \<Longrightarrow> match_seq ts b i = Some (seq_at ts b i)"
  by (induction ts arbitrary: i)
     (auto simp: seq_at_def Cons_nth_drop_Suc[symmetric])

lemma match_seq_iff: "match_seq ts b i = Some True \<longleftrightarrow> seq_at ts b i"
proof (induction ts arbitrary: i)
  case Nil
  then show ?case by (simp add: seq_at_def)
next
  case (Cons t ts)
  show ?case
  proof (cases "i < length b")
    case True
    then show ?thesis using Cons
      by (auto simp: seq_at_def Cons_nth_drop_Suc[symmetric])
  next
    case False
    then show ?thesis by (simp add: rd_def seq_at_def)
  qed
qed

lemma seq_at_eqs: "seq_at (map (\<lambda>c v. v = c) cs) b i \<longleftrightarrow> take (length cs) (drop i b) = cs"
  unfolding seq_at_def list_all2_map1 length_map
  by (auto simp: list_eq_iff_nth_eq list_all2_conv_all_nth)

lemma drop_ConsD:
  assumes "drop i w = x # r"
  shows "i < length w" and "w ! i = x" and "drop (Suc i) w = r"
proof -
  show i: "i < length w" using assms by (metis drop_all list.distinct(1) linorder_not_le)
  then show "w ! i = x" and "drop (Suc i) w = r"
    using assms by (simp_all add: Cons_nth_drop_Suc[symmetric])
qed

subsection \<open>Memory behind a pointer\<close>

text \<open>
  \<open>bpf_probe_read\<close> and its user and kernel variants copy a run of bytes from an address the
  program does not own; they fail (and the destination is zeroed) when some byte of the run
  cannot be read. A memory says which addresses are readable and what they hold.
\<close>

type_synonym mem = "nat \<Rightarrow> u8 option"

primrec probe_read :: "mem \<Rightarrow> nat \<Rightarrow> nat \<Rightarrow> bytes option" where
  "probe_read m a 0 = Some []"
| "probe_read m a (Suc n) =
     (case m a of None \<Rightarrow> None
      | Some b \<Rightarrow> (case probe_read m (Suc a) n of None \<Rightarrow> None | Some bs \<Rightarrow> Some (b # bs)))"

text \<open>The destination buffer after the call, whatever the return code: zeroes on failure.\<close>

definition probe_read_z :: "mem \<Rightarrow> nat \<Rightarrow> nat \<Rightarrow> bytes" where
  "probe_read_z m a n = (case probe_read m a n of None \<Rightarrow> replicate n 0 | Some bs \<Rightarrow> bs)"

text \<open>A memory that holds exactly one buffer, at a base address.\<close>

definition mem_of :: "nat \<Rightarrow> bytes \<Rightarrow> mem" where
  "mem_of base b = (\<lambda>a. if base \<le> a \<and> a < base + length b then Some (b ! (a - base)) else None)"

lemma probe_read_length: "probe_read m a n = Some bs \<Longrightarrow> length bs = n"
  by (induction n arbitrary: a bs) (auto split: option.splits)

lemma probe_read_z_length [simp]: "length (probe_read_z m a n) = n"
  by (auto simp: probe_read_z_def probe_read_length split: option.splits)

lemma probe_read_cong:
  "(\<And>x. a \<le> x \<Longrightarrow> x < a + n \<Longrightarrow> m x = m' x) \<Longrightarrow> probe_read m a n = probe_read m' a n"
proof (induction n arbitrary: a)
  case 0
  then show ?case by simp
next
  case (Suc n)
  have "m a = m' a" using Suc.prems[of a] by simp
  moreover have "probe_read m (Suc a) n = probe_read m' (Suc a) n"
    using Suc.prems by (intro Suc.IH) auto
  ultimately show ?case by (simp split: option.split)
qed

text \<open>Two memories agree on a transfer of \<open>n\<close> bytes at \<open>a\<close>.\<close>

definition same_mem :: "mem \<Rightarrow> mem \<Rightarrow> nat \<Rightarrow> nat \<Rightarrow> bool" where
  "same_mem m m' a n \<longleftrightarrow> (\<forall>x. a \<le> x \<and> x < a + n \<longrightarrow> m x = m' x)"

lemma probe_read_same_mem:
  "same_mem m m' a n \<Longrightarrow> a \<le> p \<Longrightarrow> p + k \<le> a + n \<Longrightarrow> probe_read m p k = probe_read m' p k"
  by (rule probe_read_cong) (auto simp: same_mem_def)

lemma probe_read_z_same_mem:
  "same_mem m m' a n \<Longrightarrow> a \<le> p \<Longrightarrow> p + k \<le> a + n \<Longrightarrow> probe_read_z m p k = probe_read_z m' p k"
  by (simp add: probe_read_z_def probe_read_same_mem[of m m' a n])

lemma probe_read_mem_of:
  "i + n \<le> length b \<Longrightarrow> probe_read (mem_of base b) (base + i) n = Some (take n (drop i b))"
proof (induction n arbitrary: i)
  case 0
  then show ?case by simp
next
  case (Suc n)
  then have "probe_read (mem_of base b) (base + Suc i) n = Some (take n (drop (Suc i) b))"
    by (intro Suc.IH) simp
  with Suc.prems show ?case
    by (simp add: mem_of_def Cons_nth_drop_Suc[symmetric])
qed

lemma probe_read_append:
  "probe_read m a (i + j) = (case probe_read m a i of None \<Rightarrow> None
     | Some x \<Rightarrow> (case probe_read m (a + i) j of None \<Rightarrow> None | Some y \<Rightarrow> Some (x @ y)))"
  by (induction i arbitrary: a) (auto split: option.splits)

lemma probe_read_sub:
  assumes "probe_read m a n = Some bs" and "i + k \<le> n"
  shows "probe_read m (a + i) k = Some (take k (drop i bs))"
proof -
  have "n = i + (k + (n - i - k))" using assms(2) by simp
  then have "probe_read m a (i + (k + (n - i - k))) = Some bs" using assms(1) by simp
  then obtain x y z where x: "probe_read m a i = Some x" "probe_read m (a + i) k = Some y" "bs = x @ y @ z"
    by (auto simp: probe_read_append split: option.splits)
  then show ?thesis using probe_read_length[OF x(1)] probe_read_length[OF x(2)] by simp
qed

lemma probe_read_nth: "probe_read m a n = Some bs \<Longrightarrow> i < n \<Longrightarrow> m (a + i) = Some (bs ! i)"
proof (induction n arbitrary: a i bs)
  case (Suc n)
  then show ?case using Suc.IH[of "Suc a"] by (cases i) (auto split: option.splits)
qed simp

lemma probe_read_shift: "(\<And>x. x < n \<Longrightarrow> m (a + x) = m' (a' + x)) \<Longrightarrow> probe_read m a n = probe_read m' a' n"
proof (induction n arbitrary: a a')
  case (Suc n)
  have "m a = m' a'" using Suc.prems[of 0] by simp
  moreover have "probe_read m (Suc a) n = probe_read m' (Suc a') n"
    using Suc.prems[of "Suc _"] by (intro Suc.IH) simp
  ultimately show ?case by (simp split: option.split)
qed simp

lemma unat_bound: "unat (w :: 'a::len word) < 2 ^ LENGTH('a)"
  by (rule unsigned_less)

lemma of_nat_inject_word:
  "a < 2 ^ LENGTH('a) \<Longrightarrow> b < 2 ^ LENGTH('a) \<Longrightarrow> (of_nat a :: 'a::len word) = of_nat b \<longleftrightarrow> a = b"
  by (simp add: word_unat_eq_iff unat_of_nat)

subsection \<open>Byte order\<close>

definition be_word :: "bytes \<Rightarrow> 'a::len word" where
  "be_word bs = foldl (\<lambda>acc b. push_bit 8 acc OR ucast b) 0 bs"

abbreviation be16 :: "bytes \<Rightarrow> u16" where "be16 \<equiv> be_word"
abbreviation be32 :: "bytes \<Rightarrow> u32" where "be32 \<equiv> be_word"
abbreviation be64 :: "bytes \<Rightarrow> u64" where "be64 \<equiv> be_word"

text \<open>The value a little-endian load of the same bytes yields.\<close>

definition le_word :: "bytes \<Rightarrow> 'a::len word" where
  "le_word bs = be_word (rev bs)"

text \<open>The bytes a little-endian store of a 32-bit value writes.\<close>

definition le_bytes32 :: "u32 \<Rightarrow> bytes" where
  "le_bytes32 w = map (\<lambda>k. ucast (drop_bit (8 * k) w)) [0..<4]"

lemma le_bytes32_length [simp]: "length (le_bytes32 w) = 4"
  by (simp add: le_bytes32_def)

subsection \<open>The bounded loop helper\<close>

text \<open>
  \<open>bpf_loop(nr, cb, ctx, 0)\<close> calls \<open>cb(i, ctx)\<close> for \<open>i = 0, 1, ..\<close> at most \<open>nr\<close> times and stops
  after a call that returns 1. The callback's state is threaded; \<open>None\<close> is a faulting callback.
\<close>

fun bpf_loop_from :: "nat \<Rightarrow> nat \<Rightarrow> (nat \<Rightarrow> 's \<Rightarrow> ('s \<times> bool) option) \<Rightarrow> 's \<Rightarrow> 's option" where
  "bpf_loop_from 0 i cb s = Some s"
| "bpf_loop_from (Suc n) i cb s =
     (case cb i s of
        None \<Rightarrow> None
      | Some (s', stop) \<Rightarrow> if stop then Some s' else bpf_loop_from n (Suc i) cb s')"

definition bpf_loop :: "nat \<Rightarrow> (nat \<Rightarrow> 's \<Rightarrow> ('s \<times> bool) option) \<Rightarrow> 's \<Rightarrow> 's option" where
  "bpf_loop nr cb s = bpf_loop_from nr 0 cb s"

text \<open>Total correctness of a bounded loop by an invariant over the index and the state.\<close>

lemma bpf_loop_from_inv:
  assumes "P i s"
    and step: "\<And>k t. i \<le> k \<Longrightarrow> k < i + n \<Longrightarrow> P k t \<Longrightarrow>
      \<exists>t' stop. cb k t = Some (t', stop) \<and> (if stop then Q t' else P (Suc k) t')"
    and exit: "\<And>t. P (i + n) t \<Longrightarrow> Q t"
  shows "\<exists>t. bpf_loop_from n i cb s = Some t \<and> Q t"
  using assms
proof (induction n arbitrary: i s)
  case 0
  then show ?case by simp
next
  case (Suc n)
  from Suc.prems(2)[of i s] Suc.prems(1)
  obtain t' stop where cb: "cb i s = Some (t', stop)"
    and nxt: "if stop then Q t' else P (Suc i) t'" by auto
  show ?case
  proof (cases stop)
    case True
    with cb nxt show ?thesis by simp
  next
    case False
    with nxt have "P (Suc i) t'" by simp
    then have "\<exists>t. bpf_loop_from n (Suc i) cb t' = Some t \<and> Q t"
      using Suc.prems(2,3) by (intro Suc.IH) auto
    with cb False show ?thesis by simp
  qed
qed

lemma bpf_loop_inv:
  assumes "P 0 s"
    and "\<And>k t. k < n \<Longrightarrow> P k t \<Longrightarrow>
      \<exists>t' stop. cb k t = Some (t', stop) \<and> (if stop then Q t' else P (Suc k) t')"
    and "\<And>t. P n t \<Longrightarrow> Q t"
  shows "\<exists>t. bpf_loop n cb s = Some t \<and> Q t"
  unfolding bpf_loop_def using assms by (intro bpf_loop_from_inv[where P = P]) auto

subsection \<open>Words\<close>

lemma unat_ucast_up_8 [simp]: "unat (ucast (b :: u8) :: u32) = unat b"
proof -
  have "unat b < 2 ^ 32"
    using unsigned_less[of b] by (rule less_trans) simp
  then show ?thesis
    by (simp add: unsigned_ucast_eq take_bit_nat_eq_self)
qed

lemma unat_ucast_16_32 [simp]: "unat (ucast (w :: u16) :: u32) = unat w"
  and unat_ucast_16_64 [simp]: "unat (ucast (w :: u16) :: u64) = unat w"
  and unat_ucast_32_64 [simp]: "unat (ucast (v :: u32) :: u64) = unat v"
proof -
  have w: "unat w < 2 ^ 32" "unat w < 2 ^ 64"
    using unsigned_less[of w] by (rule less_trans, simp)+
  have v: "unat v < 2 ^ 64"
    using unsigned_less[of v] by (rule less_trans) simp
  from w v show "unat (ucast w :: u32) = unat w" "unat (ucast w :: u64) = unat w" "unat (ucast v :: u64) = unat v"
    by (simp_all add: unsigned_ucast_eq take_bit_nat_eq_self)
qed

lemma unat_u8_less [simp]: "unat (b :: u8) < 256"
  using unsigned_less[of b, where 'a = nat] by simp

lemma unat_u16_less [simp]: "unat (b :: u16) < 65536"
  using unsigned_less[of b, where 'a = nat] by simp

lemma unat_u32_less [simp]: "unat (b :: u32) < 4294967296"
  using unsigned_less[of b, where 'a = nat] by simp

lemma u8_all: "(\<forall>n < 256. P (word_of_nat n :: u8)) \<Longrightarrow> P b"
  by (metis unat_u8_less of_nat_unat ucast_id)

lemma and_0x80_iff: "(x :: u8) AND 0x80 \<noteq> 0 \<longleftrightarrow> 128 \<le> unat x"
proof -
  have "x AND 0x80 \<noteq> 0 \<longleftrightarrow> bit x 7"
    using bit_iff_and_push_bit_not_eq_0[of x 7] by simp
  also have "\<dots> \<longleftrightarrow> bit (unat x) 7" by (simp add: bit_unsigned_iff)
  also have "\<dots> \<longleftrightarrow> odd (unat x div 128)"
    by (simp only: bit_iff_odd) simp
  also have "\<dots> \<longleftrightarrow> 128 \<le> unat x"
  proof (cases "unat x < 128")
    case False
    then have "unat x div 128 = 1" using unat_u8_less[of x] by (intro div_nat_eqI) simp_all
    with False show ?thesis by simp
  qed simp
  finally show ?thesis .
qed

lemma le_bytes32_pack:
  "le_bytes32 (ucast (a::u8) OR push_bit 8 (ucast (b::u8)) OR push_bit 16 (ucast (c::u8)) OR push_bit 24 (ucast (d::u8))) = [a, b, c, d]"
proof -
  define w :: u32 where
    "w = (ucast a OR push_bit 8 (ucast b) OR push_bit 16 (ucast c) OR push_bit 24 (ucast d))"
  have "ucast w = a" "ucast (drop_bit 8 w) = b" "ucast (drop_bit 16 w) = c" "ucast (drop_bit 24 w) = d"
    unfolding w_def
    by (rule bit_word_eqI; auto simp: bit_simps dest: bit_imp_le_length)+
  moreover have "[0..<4] = [0, 1, 2, 3 :: nat]" by (simp add: upt_rec)
  ultimately have "le_bytes32 w = [a, b, c, d]" by (simp add: le_bytes32_def)
  then show ?thesis by (simp only: w_def)
qed

text \<open>The value of a big-endian byte string.\<close>

definition be_nat :: "bytes \<Rightarrow> nat" where
  "be_nat bs = foldl (\<lambda>acc b. acc * 256 + unat b) 0 bs"

lemma be_nat_simps [simp]: "be_nat [] = 0" "be_nat (bs @ [b]) = be_nat bs * 256 + unat b"
  by (simp_all add: be_nat_def)

lemma be_nat_less: "be_nat bs < 256 ^ length bs"
proof (induction bs rule: rev_induct)
  case (snoc b bs)
  then have "be_nat bs * 256 + 255 < 256 ^ length bs * 256" by simp
  then show ?case using unat_u8_less[of b] by (simp del: unat_u8_less)
qed simp

lemma push8_or_add: "push_bit 8 (x :: 'a::len word) OR ucast (b :: u8) = push_bit 8 x + ucast b"
  by (rule disjunctive_add[symmetric]) (auto simp: bit_simps dest: bit_imp_le_length)

lemma unat_push8_or:
  assumes "unat x * 256 + 256 \<le> 2 ^ LENGTH('a)"
  shows "unat (push_bit 8 (x :: 'a::len word) OR ucast (b :: u8)) = unat x * 256 + unat b"
proof -
  have "push_bit 8 x OR ucast b = (word_of_nat (unat x * 256 + unat b) :: 'a word)"
    unfolding push8_or_add by (simp add: push_bit_eq_mult)
  moreover have "unat x * 256 + unat b < 2 ^ LENGTH('a)"
    using assms unat_u8_less[of b] by linarith
  ultimately show ?thesis
    by (simp only: unat_of_nat mod_less)
qed

lemma unat_be_word:
  assumes "8 * length bs \<le> LENGTH('a)"
  shows "unat (be_word bs :: 'a::len word) = be_nat bs"
  using assms
proof (induction bs rule: rev_induct)
  case (snoc b bs)
  have e: "(be_word (bs @ [b]) :: 'a word) = push_bit 8 (be_word bs) OR ucast b"
    by (simp add: be_word_def)
  have "be_nat bs + 1 \<le> 256 ^ length bs" using be_nat_less[of bs] by simp
  then have "be_nat bs * 256 + 256 \<le> 256 ^ Suc (length bs)" by simp
  also have "\<dots> = 2 ^ (8 * Suc (length bs))" by (simp only: power_mult) simp
  also have "\<dots> \<le> 2 ^ LENGTH('a)" using snoc.prems by (intro power_increasing) simp_all
  finally show ?case
    using snoc by (simp add: e unat_push8_or)
qed (simp add: be_word_def)

subsection \<open>BPF hash maps\<close>

text \<open>
  An LRU hash map is a partial map. Besides the program's own updates and deletions the kernel
  may evict any entry at any time: \<open>evicts m m'\<close> says that \<open>m'\<close> is \<open>m\<close> with some entries gone.
\<close>

definition evicts :: "('k \<rightharpoonup> 'v) \<Rightarrow> ('k \<rightharpoonup> 'v) \<Rightarrow> bool" where
  "evicts m m' \<longleftrightarrow> m' \<subseteq>\<^sub>m m"

lemma evicts_lookup: "evicts m m' \<Longrightarrow> m' k = None \<or> m' k = m k"
  unfolding evicts_def map_le_def by (metis domIff)

text \<open>\<open>bpf_map_delete_elem\<close>.\<close>

definition map_del :: "'k \<Rightarrow> ('k \<rightharpoonup> 'v) \<Rightarrow> ('k \<rightharpoonup> 'v)" where
  "map_del k m = m(k := None)"

lemma map_del_apply [simp]: "map_del k m k' = (if k' = k then None else m k')"
  by (simp add: map_del_def)

subsection \<open>Reports and records\<close>

text \<open>
  An account is what was reported so far and which records are still open. From one account to a later
  one, \<open>k\<close> records were opened, every report closed an open record, and only reports \<open>worth\<close> making
  were made.
\<close>

definition accounts :: "('r \<Rightarrow> bool) \<Rightarrow> nat \<Rightarrow> 'r list \<times> 'k set \<Rightarrow> 'r list \<times> 'k set \<Rightarrow> bool" where
  "accounts worth k a b \<longleftrightarrow>
     (finite (snd a) \<longrightarrow> finite (snd b) \<and> length (fst b) + card (snd b) \<le> length (fst a) + card (snd a) + k) \<and>
     set (fst b) \<subseteq> set (fst a) \<union> Collect worth"

lemma accounts_refl [simp]: "accounts worth k a a"
  by (simp add: accounts_def)

lemma accounts_trans: "accounts worth j a b \<Longrightarrow> accounts worth k b c \<Longrightarrow> accounts worth (j + k) a c"
  by (fastforce simp: accounts_def)

lemma accounts_mono: "accounts worth j a b \<Longrightarrow> j \<le> k \<Longrightarrow> accounts worth k a b"
  by (auto simp: accounts_def)

lemma accounts_close: "x \<in> S \<Longrightarrow> (\<forall>r \<in> set rs. worth r) \<Longrightarrow> length rs \<le> 1 \<Longrightarrow> accounts worth 0 (R, S) (R @ rs, S - {x})"
proof -
  assume a: "x \<in> S" "\<forall>r \<in> set rs. worth r" "length rs \<le> 1"
  have "card S = Suc (card (S - {x}))" if "finite S" using card_Suc_Diff1[OF that a(1)] by simp
  then show ?thesis using a(2,3) by (auto simp: accounts_def)
qed

lemma accounts_drop: "accounts worth k (R, S) (R, S - {x})"
  by (auto simp: accounts_def intro: trans_le_add1 card_Diff1_le)

lemma accounts_open: "S' \<subseteq> insert x S \<Longrightarrow> accounts worth (Suc 0) (R, S) (R, S')"
proof -
  assume s: "S' \<subseteq> insert x S"
  have "card S' \<le> Suc (card S)" if "finite S"
  proof -
    have "card S' \<le> card (insert x S)" using s that by (simp add: card_mono)
    also have "\<dots> \<le> Suc (card S)" using that by (simp add: card_insert_if)
    finally show ?thesis .
  qed
  then show ?thesis using finite_subset[OF s] by (auto simp: accounts_def)
qed

text \<open>Records opened over a run of operations.\<close>

fun opened :: "('i \<Rightarrow> 'w \<Rightarrow> nat) \<Rightarrow> ('i \<Rightarrow> 'w \<Rightarrow> 'w) \<Rightarrow> 'i list \<Rightarrow> 'w \<Rightarrow> nat" where
  "opened opens step [] w = 0"
| "opened opens step (i # is) w = opens i w + opened opens step is (step i w)"

locale reporting =
  fixes step :: "'i \<Rightarrow> 'w \<Rightarrow> 'w"
    and account :: "'w \<Rightarrow> 'r list \<times> 'k set"
    and opens :: "'i \<Rightarrow> 'w \<Rightarrow> nat"
    and worth :: "'r \<Rightarrow> bool"
    and valid :: "'i \<Rightarrow> bool"
  assumes step_accounts: "valid i \<Longrightarrow> accounts worth (opens i w) (account w) (account (step i w))"
begin

lemma run_accounts:
  "list_all valid is \<Longrightarrow> accounts worth (opened opens step is w) (account w) (account (fold step is w))"
proof (induction "is" arbitrary: w)
  case (Cons i "is")
  then show ?case using accounts_trans[OF step_accounts[of i w]] by simp
qed simp

text \<open>Starting with nothing reported and nothing open, there are never more reports than records opened.\<close>

lemma reported_once:
  assumes "list_all valid is" and "account w = ([], {})"
  shows "length (fst (account (fold step is w))) \<le> opened opens step is w \<and>
    (\<forall>r \<in> set (fst (account (fold step is w))). worth r)"
  using run_accounts[OF assms(1), of w] assms(2) by (auto simp: accounts_def)

end

lemma opened_sum: "opened (\<lambda>i w. k i) step is w = sum_list (map k is)"
  by (induction "is" arbitrary: w) simp_all

lemma sum_list_count_if: "sum_list (map (\<lambda>i. if p i then 1 else 0) is) = length (filter p is)"
  by (induction "is") simp_all

end
