(* ===== verification/Pid_Filter.thy ===== *)
theory Pid_Filter
  imports OBI_Prelude
begin

section \<open>Process identity and the pid filter\<close>

text \<open>
  Models \<open>bpf/pid/pid_helpers.h\<close> and \<open>bpf/pid/pid.h\<close>: reading the ids of the current task in its
  own pid namespace, packing \<open>pid_tgid\<close> values, and the filter every probe consults first. The
  kernel's task structures are data of the model: \<open>numbers\<close> of a \<open>struct pid\<close> is what a read at
  that index yields. The only state is the cached level of the namespace of OBI's own
  \<open>/proc\<close>; the lemmas show that caching it is sound.
\<close>

subsection \<open>Kernel data\<close>

record upid =
  up_nr :: u32
  up_inum :: u32

record kpid =
  kp_level :: u32
  kp_numbers :: "nat \<Rightarrow> upid"

text \<open>
  A task: its thread's \<open>struct pid\<close>, that of its group leader, and the level and inode of
  \<open>nsproxy->pid_ns_for_children\<close>.
\<close>

record task_struct =
  tk_tgid :: u32
  tk_thread_pid :: kpid
  tk_leader_pid :: kpid
  tk_child_level :: u32
  tk_child_inum :: u32

record pid_key =
  pk_tid :: u32
  pk_pid :: u32
  pk_ns :: u32

record pid_info =
  pi_host_pid :: u32
  pi_user_pid :: u32
  pi_ns :: u32

datatype pid_namespace_mode = k_pid_ns_mode_init | k_pid_ns_mode_pod

text \<open>The constants user space writes before loading, and the two tasks a probe looks at.\<close>

record pid_cfg =
  filter_pids :: "32 word"
  pid_ns_mode :: pid_namespace_mode
  obi_pid_ns_ino :: u64

record pid_env =
  cur_task :: task_struct
  cur_parent :: task_struct

definition k_max_pid_ns_level :: nat where
  "k_max_pid_ns_level = 32"

definition k_valid_pids_words :: nat where
  "k_valid_pids_words = 2 ^ 22 div 64"

subsection \<open>Ids of the current task\<close>

definition ns_pid_ppid :: "task_struct \<Rightarrow> task_struct \<Rightarrow> u32 \<times> u32 \<times> u32" where
  "ns_pid_ppid task real_parent =
     (up_nr (kp_numbers (tk_leader_pid task) (unat (tk_child_level task))),
      up_nr (kp_numbers (tk_leader_pid real_parent) (unat (tk_child_level real_parent))),
      tk_child_inum task)"

definition task_pid_of :: "task_struct \<Rightarrow> pid_info" where
  "task_pid_of task =
     \<lparr>pi_host_pid = tk_tgid task,
      pi_user_pid = up_nr (kp_numbers (tk_leader_pid task) (unat (tk_child_level task))),
      pi_ns = tk_child_inum task\<rparr>"

definition task_pid :: "pid_env \<Rightarrow> pid_info" where
  "task_pid env = task_pid_of (cur_task env)"

definition get_task_tid :: "pid_env \<Rightarrow> u32" where
  "get_task_tid env =
     (let task = cur_task env
      in up_nr (kp_numbers (tk_thread_pid task) (unat (tk_child_level task))))"

definition task_tid :: "pid_env \<Rightarrow> pid_key" where
  "task_tid env =
     (let task = cur_task env; level = unat (tk_child_level task)
      in \<lparr>pk_tid = up_nr (kp_numbers (tk_thread_pid task) level),
          pk_pid = up_nr (kp_numbers (tk_leader_pid task) level),
          pk_ns = tk_child_inum task\<rparr>)"

definition pid_from_pid_tgid :: "u64 \<Rightarrow> u32" where
  "pid_from_pid_tgid pid_tgid = ucast (drop_bit 32 pid_tgid)"

definition tid_from_pid_tgid :: "u64 \<Rightarrow> u32" where
  "tid_from_pid_tgid pid_tgid = ucast (pid_tgid AND 0x0ffffffff)"

definition to_pid_tgid :: "u32 \<Rightarrow> u32 \<Rightarrow> u64" where
  "to_pid_tgid pid tid = push_bit 32 (ucast pid) OR ucast tid"

subsection \<open>The filter\<close>

definition pid_nr_at :: "pid_cfg \<Rightarrow> kpid \<Rightarrow> nat \<Rightarrow> nat \<Rightarrow> u32" where
  "pid_nr_at cfg pid level i =
     (if i > level then 0
      else let upid = kp_numbers pid i
           in if ucast (up_inum upid) \<noteq> obi_pid_ns_ino cfg then 0 else up_nr upid)"

text \<open>The loop \<open>for (i = 1; i <= k_max_pid_ns_level; i++)\<close>, from index \<open>i\<close> on.\<close>

function find_level_loop :: "pid_cfg \<Rightarrow> kpid \<Rightarrow> nat \<Rightarrow> nat \<Rightarrow> nat" where
  "find_level_loop cfg pid level i =
     (if i \<le> k_max_pid_ns_level
      then if i > level then 0
           else if pid_nr_at cfg pid level i \<noteq> 0 then i
           else find_level_loop cfg pid level (Suc i)
      else 0)"
  by pat_completeness auto
termination
  by (relation "measure (\<lambda>(_, _, _, i). Suc k_max_pid_ns_level - i)") auto

declare find_level_loop.simps [simp del]

definition find_obi_pid_ns_level :: "pid_cfg \<Rightarrow> kpid \<Rightarrow> nat \<Rightarrow> nat" where
  "find_obi_pid_ns_level cfg pid level = find_level_loop cfg pid level 1"

text \<open>Returns the pid and the cached level afterwards.\<close>

definition pid_in_obi_pid_ns :: "pid_cfg \<Rightarrow> task_struct \<Rightarrow> nat \<Rightarrow> u32 \<times> nat" where
  "pid_in_obi_pid_ns cfg task obi_level =
     (let pid = tk_leader_pid task; level = unat (kp_level pid)
      in if obi_level = 0
         then let found = find_obi_pid_ns_level cfg pid level
              in if found = 0 then (0, obi_level)
                 else (pid_nr_at cfg pid level found, found)
         else (pid_nr_at cfg pid level obi_level, obi_level))"

definition obi_pid :: "pid_cfg \<Rightarrow> pid_env \<Rightarrow> u64 \<Rightarrow> nat \<Rightarrow> u32 \<times> nat" where
  "obi_pid cfg env pid_tgid obi_level =
     (if pid_ns_mode cfg = k_pid_ns_mode_init then (ucast (drop_bit 32 pid_tgid), obi_level)
      else pid_in_obi_pid_ns cfg (cur_task env) obi_level)"

definition obi_parent_pid :: "pid_cfg \<Rightarrow> pid_env \<Rightarrow> nat \<Rightarrow> u32" where
  "obi_parent_pid cfg env obi_level =
     (if pid_ns_mode cfg = k_pid_ns_mode_init then tk_tgid (cur_parent env)
      else let pid = tk_leader_pid (cur_parent env)
           in pid_nr_at cfg pid (unat (kp_level pid)) obi_level)"

text \<open>The bitmap is an array map: a lookup past its last word finds nothing.\<close>

definition pid_selected :: "u64 list \<Rightarrow> u32 \<Rightarrow> bool" where
  "pid_selected bitmap pid =
     (let word = unat (pid div 64)
      in if word < length bitmap
         then (drop_bit (unat (pid AND 63)) (bitmap ! word)) AND 1 \<noteq> 0
         else False)"

definition pid_in_filter :: "pid_cfg \<Rightarrow> pid_env \<Rightarrow> u64 list \<Rightarrow> u64 \<Rightarrow> nat \<Rightarrow> u32 \<times> nat" where
  "pid_in_filter cfg env bitmap pid_tgid obi_level =
     (if filter_pids cfg = 0 then (ucast (drop_bit 32 pid_tgid), obi_level)
      else let (pid, obi_level) = obi_pid cfg env pid_tgid obi_level
           in if pid = 0 then (0, obi_level)
              else if pid_selected bitmap pid
                      \<or> pid_selected bitmap (obi_parent_pid cfg env obi_level)
              then (pid, obi_level) else (0, obi_level))"

definition valid_pid :: "pid_cfg \<Rightarrow> pid_env \<Rightarrow> u64 list \<Rightarrow> u64 \<Rightarrow> nat \<Rightarrow> u32 \<times> nat" where
  "valid_pid cfg env valid_pids pid_tgid obi_level = pid_in_filter cfg env valid_pids pid_tgid obi_level"

subsection \<open>What the kernel guarantees about pids\<close>

text \<open>
  OBI's namespace sits at one level \<open>L\<close> of the namespace tree. A task is in it or below it
  exactly when entry \<open>L\<close> of its pid names its inode, and then no other entry does; the pid
  there is not 0.
\<close>

definition pid_wf :: "pid_cfg \<Rightarrow> nat \<Rightarrow> kpid \<Rightarrow> bool" where
  "pid_wf cfg L pid \<longleftrightarrow>
     (\<forall>i \<le> unat (kp_level pid). ucast (up_inum (kp_numbers pid i)) = obi_pid_ns_ino cfg \<longrightarrow>
        i = L \<and> up_nr (kp_numbers pid i) \<noteq> 0)"

text \<open>The pid OBI's \<open>/proc\<close> shows for a task: the kernel's \<open>pid_nr_ns\<close>.\<close>

definition pid_nr_ns :: "pid_cfg \<Rightarrow> nat \<Rightarrow> kpid \<Rightarrow> u32" where
  "pid_nr_ns cfg L pid =
     (if L \<le> unat (kp_level pid) \<and> ucast (up_inum (kp_numbers pid L)) = obi_pid_ns_ino cfg
      then up_nr (kp_numbers pid L) else 0)"

lemma pid_nr_at_L: "pid_nr_at cfg pid (unat (kp_level pid)) L = pid_nr_ns cfg L pid"
  by (auto simp: pid_nr_at_def pid_nr_ns_def Let_def)

lemma pid_nr_at_other:
  "pid_wf cfg L pid \<Longrightarrow> i \<noteq> L \<Longrightarrow> pid_nr_at cfg pid (unat (kp_level pid)) i = 0"
  unfolding pid_nr_at_def pid_wf_def Let_def by (meson not_le)

lemma find_level_loop_spec:
  assumes "pid_wf cfg L pid" and "1 \<le> i" and "i \<le> L" and "L \<le> k_max_pid_ns_level"
  shows "find_level_loop cfg pid (unat (kp_level pid)) i = (if pid_nr_ns cfg L pid = 0 then 0 else L)"
  using assms(2,3)
proof (induction "L - i" arbitrary: i)
  case 0
  then have "i = L" by simp
  have stop: "find_level_loop cfg pid (unat (kp_level pid)) (Suc L) = 0"
  proof -
    have step: "find_level_loop cfg pid (unat (kp_level pid)) j = 0" if "L < j" for j
      using that
    proof (induction "Suc k_max_pid_ns_level - j" arbitrary: j)
      case 0
      then show ?case by (subst find_level_loop.simps) auto
    next
      case (Suc n)
      then have "find_level_loop cfg pid (unat (kp_level pid)) (Suc j) = 0"
        by (intro Suc.hyps(1)) auto
      with Suc.prems assms(1) show ?case
        by (subst find_level_loop.simps) (auto simp: pid_nr_at_other)
    qed
    show ?thesis by (rule step) simp
  qed
  from \<open>i = L\<close> stop assms(4) show ?case
    by (subst find_level_loop.simps) (auto simp: pid_nr_at_L pid_nr_ns_def)
next
  case (Suc n)
  then have "find_level_loop cfg pid (unat (kp_level pid)) (Suc i) =
      (if pid_nr_ns cfg L pid = 0 then 0 else L)"
    by (intro Suc.hyps(1)) auto
  with Suc.hyps(2) assms(1,4) show ?case
    by (subst find_level_loop.simps) (auto simp: pid_nr_at_other pid_nr_ns_def)
qed

lemma pid_in_obi_pid_ns_spec:
  assumes "pid_wf cfg L (tk_leader_pid task)" and "1 \<le> L" and "L \<le> k_max_pid_ns_level"
    and "obi_level \<in> {0, L}"
  shows "fst (pid_in_obi_pid_ns cfg task obi_level) = pid_nr_ns cfg L (tk_leader_pid task)"
    and "snd (pid_in_obi_pid_ns cfg task obi_level) \<in> {0, L}"
    and "snd (pid_in_obi_pid_ns cfg task obi_level) =
           (if pid_nr_ns cfg L (tk_leader_pid task) \<noteq> 0 then L else obi_level)"
  using assms find_level_loop_spec[OF assms(1), of 1]
  by (auto simp: pid_in_obi_pid_ns_def find_obi_pid_ns_level_def Let_def pid_nr_at_L)

lemma pid_selected_bit:
  "pid_selected bitmap pid \<longleftrightarrow>
     unat pid div 64 < length bitmap \<and> bit (bitmap ! (unat pid div 64)) (unat pid mod 64)"
proof -
  have d: "unat (pid div 64) = unat pid div 64"
    by (simp add: unat_div_distrib)
  have m: "unat (pid AND 63) = unat pid mod 64"
  proof -
    have "pid AND 63 = take_bit 6 pid"
      by (simp add: take_bit_eq_mask mask_numeral)
    then show ?thesis
      by (simp only: unsigned_take_bit_eq) (simp add: take_bit_eq_mod)
  qed
  have b: "(drop_bit n w AND 1 \<noteq> 0) = bit w n" for w :: u64 and n
    by (simp add: and_one_eq mod2_eq_if bit_iff_odd_drop_bit)
  show ?thesis
    unfolding pid_selected_def Let_def d m b by auto
qed

subsection \<open>Properties\<close>

text \<open>
  C32: with the filter on and OBI in a nested pid namespace at level \<open>L\<close>, the filter returns a
  non-zero pid exactly for the tasks of that namespace whose own bit or whose parent's bit is
  set, the pid is the one OBI's \<open>/proc\<close> reports, and the cached level is either not yet known or
  \<open>L\<close> again afterwards: learning it on one task never changes the verdict on another.
\<close>

theorem valid_pid_pod:
  assumes "filter_pids cfg \<noteq> 0" and "pid_ns_mode cfg = k_pid_ns_mode_pod"
    and "pid_wf cfg L (tk_leader_pid (cur_task env))"
    and "1 \<le> L" and "L \<le> k_max_pid_ns_level" and "obi_level \<in> {0, L}"
  shows "valid_pid cfg env bitmap pid_tgid obi_level =
     (let pid = pid_nr_ns cfg L (tk_leader_pid (cur_task env));
          parent = pid_nr_ns cfg L (tk_leader_pid (cur_parent env))
      in (if pid_selected bitmap pid \<or> pid_selected bitmap parent then pid else 0,
          if pid \<noteq> 0 then L else obi_level))"
proof -
  note spec = pid_in_obi_pid_ns_spec[OF assms(3-6)]
  show ?thesis
    using assms(1,2) spec(1,3)
    by (cases "pid_in_obi_pid_ns cfg (cur_task env) obi_level")
       (auto simp: valid_pid_def pid_in_filter_def obi_pid_def obi_parent_pid_def Let_def pid_nr_at_L)
qed

theorem valid_pid_pod_witness:
  "let up = (\<lambda>i. if i = 1 then \<lparr>up_nr = 70, up_inum = 9\<rparr> else \<lparr>up_nr = 4000, up_inum = 3\<rparr>);
       kp = \<lparr>kp_level = 1, kp_numbers = up\<rparr>;
       t = \<lparr>tk_tgid = 4000, tk_thread_pid = kp, tk_leader_pid = kp, tk_child_level = 1, tk_child_inum = 9\<rparr>;
       cfg = \<lparr>filter_pids = 1, pid_ns_mode = k_pid_ns_mode_pod, obi_pid_ns_ino = 9\<rparr>
   in valid_pid cfg \<lparr>cur_task = t, cur_parent = t\<rparr> [0, 64] 0 0 = (70, 1)"
proof -
  define up where "up = (\<lambda>i::nat. if i = 1 then \<lparr>up_nr = 70, up_inum = 9\<rparr>
    else \<lparr>up_nr = 4000, up_inum = 3\<rparr>)"
  define kp where "kp = \<lparr>kp_level = 1, kp_numbers = up\<rparr>"
  define t where "t = \<lparr>tk_tgid = 4000, tk_thread_pid = kp, tk_leader_pid = kp,
    tk_child_level = 1, tk_child_inum = 9\<rparr>"
  define cfg where "cfg = \<lparr>filter_pids = 1, pid_ns_mode = k_pid_ns_mode_pod, obi_pid_ns_ino = 9\<rparr>"
  have "pid_wf cfg 1 (tk_leader_pid t)"
    by (simp add: pid_wf_def t_def kp_def up_def cfg_def)
  moreover have "filter_pids cfg \<noteq> 0" and "pid_ns_mode cfg = k_pid_ns_mode_pod"
    by (simp_all add: cfg_def)
  ultimately have "valid_pid cfg \<lparr>cur_task = t, cur_parent = t\<rparr> [0, 64] 0 0 = (70, 1)"
    using valid_pid_pod[of cfg 1 "\<lparr>cur_task = t, cur_parent = t\<rparr>" 0 "[0, 64]" 0]
    by (simp add: pid_nr_ns_def pid_selected_bit t_def kp_def up_def cfg_def k_max_pid_ns_level_def
      bit_numeral_rec)
  then show ?thesis
    by (simp only: Let_def t_def kp_def up_def cfg_def)
qed

lemma to_pid_tgid_roundtrip:
  "pid_from_pid_tgid (to_pid_tgid pid tid) = pid" "tid_from_pid_tgid (to_pid_tgid pid tid) = tid"
proof -
  show "pid_from_pid_tgid (to_pid_tgid pid tid) = pid"
    by (rule bit_word_eqI)
       (auto simp: pid_from_pid_tgid_def to_pid_tgid_def bit_simps dest: bit_imp_le_length)
  have "x AND 0xffffffff = take_bit 32 x" for x :: u64
    by (simp add: take_bit_eq_mask mask_numeral)
  then show "tid_from_pid_tgid (to_pid_tgid pid tid) = tid"
    unfolding tid_from_pid_tgid_def to_pid_tgid_def
    by (intro bit_word_eqI) (simp, auto simp: bit_simps dest: bit_imp_le_length)
qed

end
