(* ===== verification/Conn_Info.thy ===== *)
theory Conn_Info
  imports Pid_Filter
begin

section \<open>Connection tuples and their keys\<close>

text \<open>
  Models \<open>bpf/common/connection_info.h\<close>, \<open>bpf/common/egress_key.h\<close>, \<open>bpf/common/fd_info.h\<close> and
  \<open>bpf/maps/fd_map.h\<close>: the address tuples that key almost every map, the sort that makes both
  directions of a connection use one key, its undoing for the event sent to user space, and the
  file descriptor map filled at connect and accept. The interface \<open>direction_key\<close> states what a
  client of a sorted key relies on; it is interpreted for both sorts.
\<close>

subsection \<open>Data\<close>

datatype protocol_type =
  k_protocol_type_unknown | k_protocol_type_mysql | k_protocol_type_postgres
  | k_protocol_type_http | k_protocol_type_kafka | k_protocol_type_mqtt
  | k_protocol_type_mssql | k_protocol_type_sunrpc | k_protocol_type_nats
  | k_protocol_type_amqp | k_protocol_type_aerospike

record connection_info =
  s_addr :: bytes
  d_addr :: bytes
  s_port :: u16
  d_port :: u16

record pid_connection_info =
  pc_conn :: connection_info
  pc_pid :: u32

record ssl_pid_connection_info =
  sp_conn :: pid_connection_info
  sp_orig_dport :: u16

datatype fd_type = FD_CLIENT | FD_SERVER

record connection_info_part =
  cp_addr :: bytes
  cp_pid :: u32
  cp_port :: u16
  cp_type :: fd_type

record egress_key =
  ek_s_port :: u16
  ek_d_port :: u16
  ek_stream_id :: u32

record fd_info =
  fi_pid :: pid_key
  fi_fd :: "32 word"
  fi_type :: fd_type

subsection \<open>Sorting and unsorting\<close>

definition EPHEMERAL_PORT_MIN :: u16 where
  "EPHEMERAL_PORT_MIN = 32768"

definition likely_ephemeral_port :: "u16 \<Rightarrow> bool" where
  "likely_ephemeral_port port = (EPHEMERAL_PORT_MIN \<le> port)"

definition swap_connection_info_order :: "connection_info \<Rightarrow> connection_info" where
  "swap_connection_info_order info =
     info\<lparr>s_port := d_port info, d_port := s_port info,
          s_addr := d_addr info, d_addr := s_addr info\<rparr>"

definition sort_connection_info :: "connection_info \<Rightarrow> connection_info" where
  "sort_connection_info info =
     (if likely_ephemeral_port (s_port info) \<and> \<not> likely_ephemeral_port (d_port info) then info
      else if likely_ephemeral_port (d_port info) \<and> \<not> likely_ephemeral_port (s_port info)
              \<or> d_port info > s_port info
      then swap_connection_info_order info
      else info)"

definition swap_egress_ports :: "egress_key \<Rightarrow> egress_key" where
  "swap_egress_ports info =
     info\<lparr>ek_s_port := ek_d_port info, ek_d_port := ek_s_port info\<rparr>"

definition sort_egress_key :: "egress_key \<Rightarrow> egress_key" where
  "sort_egress_key info =
     (if likely_ephemeral_port (ek_s_port info) \<and> \<not> likely_ephemeral_port (ek_d_port info) then info
      else if likely_ephemeral_port (ek_d_port info) \<and> \<not> likely_ephemeral_port (ek_s_port info)
              \<or> ek_d_port info > ek_s_port info
      then swap_egress_ports info
      else info)"

definition client_call :: "connection_info \<Rightarrow> bool" where
  "client_call info =
     (likely_ephemeral_port (s_port info) \<and> \<not> likely_ephemeral_port (d_port info))"

definition fixup_connection_info :: "connection_info \<Rightarrow> u8 \<Rightarrow> u16 \<Rightarrow> connection_info" where
  "fixup_connection_info conn_info client orig_dport =
     (if orig_dport = 0 then conn_info
      else if client \<noteq> 0 \<and> d_port conn_info \<noteq> orig_dport
              \<or> client = 0 \<and> d_port conn_info = orig_dport
      then swap_connection_info_order conn_info
      else conn_info)"

definition populate_partial_info ::
  "connection_info_part \<Rightarrow> bytes \<Rightarrow> u16 \<Rightarrow> connection_info_part" where
  "populate_partial_info part addr port = part\<lparr>cp_addr := addr, cp_port := port\<rparr>"

definition populate_ephemeral_info ::
  "connection_info_part \<Rightarrow> connection_info \<Rightarrow> u16 \<Rightarrow> u32 \<Rightarrow> fd_type \<Rightarrow> connection_info_part" where
  "populate_ephemeral_info part sorted_conn orig_dport pid type =
     (let part = (if type = FD_CLIENT \<and> d_port sorted_conn \<noteq> orig_dport
                     \<or> type = FD_SERVER \<and> d_port sorted_conn = orig_dport
                  then populate_partial_info part (d_addr sorted_conn) (d_port sorted_conn)
                  else populate_partial_info part (s_addr sorted_conn) (s_port sorted_conn))
      in part\<lparr>cp_type := type, cp_pid := pid\<rparr>)"

definition is_empty_connection_info :: "connection_info \<Rightarrow> bool" where
  "is_empty_connection_info conn = (s_port conn = 0 \<and> d_port conn = 0)"

definition make_egress_key :: "connection_info \<Rightarrow> egress_key" where
  "make_egress_key conn =
     sort_egress_key \<lparr>ek_s_port = s_port conn, ek_d_port = d_port conn, ek_stream_id = 0\<rparr>"

subsection \<open>The file descriptor map\<close>

type_synonym fd_map = "connection_info_part \<rightharpoonup> fd_info"

text \<open>\<open>= {}\<close>: a zeroed key.\<close>

definition empty_part :: connection_info_part where
  "empty_part = \<lparr>cp_addr = replicate 16 0, cp_pid = 0, cp_port = 0, cp_type = FD_CLIENT\<rparr>"

text \<open>The helper \<open>fd_info\<close>; the thread is read from the current kernel task.\<close>

definition mk_fd_info :: "pid_env \<Rightarrow> 32 word \<Rightarrow> fd_type \<Rightarrow> fd_info" where
  "mk_fd_info env fd type = \<lparr>fi_pid = task_tid env, fi_fd = fd, fi_type = type\<rparr>"

definition get_ephemeral_info ::
  "connection_info_part \<Rightarrow> connection_info \<Rightarrow> connection_info_part" where
  "get_ephemeral_info part conn = part\<lparr>cp_addr := s_addr conn, cp_port := s_port conn\<rparr>"

definition get_ephemeral_accept_info ::
  "connection_info_part \<Rightarrow> connection_info \<Rightarrow> connection_info_part" where
  "get_ephemeral_accept_info part conn = part\<lparr>cp_addr := d_addr conn, cp_port := d_port conn\<rparr>"

definition store_connect_fd_info ::
  "pid_env \<Rightarrow> u32 \<Rightarrow> 32 word \<Rightarrow> connection_info \<Rightarrow> fd_map \<Rightarrow> fd_map" where
  "store_connect_fd_info env pid fd conn m =
     (let part = (get_ephemeral_info empty_part conn)\<lparr>cp_type := FD_CLIENT, cp_pid := pid\<rparr>
      in m(part \<mapsto> mk_fd_info env fd FD_CLIENT))"

definition store_accept_fd_info ::
  "pid_env \<Rightarrow> u32 \<Rightarrow> 32 word \<Rightarrow> connection_info \<Rightarrow> fd_map \<Rightarrow> fd_map" where
  "store_accept_fd_info env pid fd conn m =
     (let part = (get_ephemeral_accept_info empty_part conn)\<lparr>cp_type := FD_SERVER, cp_pid := pid\<rparr>
      in m(part \<mapsto> mk_fd_info env fd FD_SERVER))"

definition fd_info_for_conn :: "fd_map \<Rightarrow> connection_info_part \<Rightarrow> fd_info option" where
  "fd_info_for_conn m part = m part"

subsection \<open>The interface of a direction-independent key\<close>

text \<open>
  What the maps keyed by a sorted tuple rely on: sorting picks the tuple or its mirror image,
  and it picks the same one from either side, for tuples whose two ends can be told apart.
\<close>

locale direction_key =
  fixes flip :: "'c \<Rightarrow> 'c"
    and canon :: "'c \<Rightarrow> 'c"
    and distinct_ends :: "'c \<Rightarrow> bool"
  assumes flip_flip: "flip (flip c) = c"
    and distinct_flip: "distinct_ends (flip c) = distinct_ends c"
    and canon_flip: "distinct_ends c \<Longrightarrow> canon (flip c) = canon c"
    and canon_cases: "canon c = c \<or> canon c = flip c"
begin

lemma canon_idem: "distinct_ends c \<Longrightarrow> canon (canon c) = canon c"
  using canon_cases[of c] canon_flip[of c] by auto

lemma canon_distinct: "distinct_ends c \<Longrightarrow> distinct_ends (canon c)"
  using canon_cases[of c] distinct_flip[of c] by auto

lemma canon_eq_iff:
  assumes "distinct_ends c" and "distinct_ends d"
  shows "canon c = canon d \<longleftrightarrow> d = c \<or> d = flip c"
  by (metis assms canon_cases canon_flip flip_flip)

lemma shared_entry: "distinct_ends c \<Longrightarrow> (m(canon c \<mapsto> v)) (canon (flip c)) = Some v"
  by (simp add: canon_flip)

lemma other_entry:
  "distinct_ends c \<Longrightarrow> distinct_ends d \<Longrightarrow> d \<noteq> c \<Longrightarrow> d \<noteq> flip c \<Longrightarrow>
     (m(canon c \<mapsto> v)) (canon d) = m (canon d)"
  using canon_eq_iff[of c d] by auto

end

lemmas conn_defs = sort_connection_info_def swap_connection_info_order_def
  likely_ephemeral_port_def sort_egress_key_def swap_egress_ports_def

interpretation conn: direction_key swap_connection_info_order sort_connection_info
  "\<lambda>c. s_port c \<noteq> d_port c"
  by unfold_locales (auto simp: conn_defs)

interpretation egress: direction_key swap_egress_ports sort_egress_key
  "\<lambda>c. ek_s_port c \<noteq> ek_d_port c"
  by unfold_locales (auto simp: conn_defs)

subsection \<open>Properties\<close>

lemma swap_ports [simp]:
  "s_port (swap_connection_info_order c) = d_port c"
  "d_port (swap_connection_info_order c) = s_port c"
  "s_addr (swap_connection_info_order c) = d_addr c"
  "d_addr (swap_connection_info_order c) = s_addr c"
  by (simp_all add: swap_connection_info_order_def)

lemma sort_cases: "sort_connection_info c = c \<or> sort_connection_info c = swap_connection_info_order c"
  by (rule conn.canon_cases)

lemma swap_swap [simp]: "swap_connection_info_order (swap_connection_info_order c) = c"
  by (rule conn.flip_flip)

lemma sort_puts_ephemeral_first:
  "likely_ephemeral_port (s_port c) \<noteq> likely_ephemeral_port (d_port c) \<Longrightarrow>
     client_call (sort_connection_info c)"
  by (auto simp: client_call_def sort_connection_info_def)

text \<open>
  C35: two connection tuples with different end ports sort to the same map key exactly when they
  are the same tuple or each other's mirror image, so the two directions of one connection share
  an entry and two connections never do.
\<close>

theorem sort_connection_info_key:
  assumes "s_port c \<noteq> d_port c" and "s_port d \<noteq> d_port d"
  shows "sort_connection_info c = sort_connection_info d \<longleftrightarrow>
           d = c \<or> d = swap_connection_info_order c"
  using assms by (rule conn.canon_eq_iff)

definition sample_conn :: connection_info where
  "sample_conn = \<lparr>s_addr = replicate 16 1, d_addr = replicate 16 2, s_port = 80, d_port = 40000\<rparr>"

theorem sort_connection_info_key_witness:
  "sort_connection_info sample_conn = sort_connection_info (swap_connection_info_order sample_conn)"
  using sort_connection_info_key[of sample_conn "swap_connection_info_order sample_conn"]
  by (simp add: sample_conn_def)

text \<open>
  C36: undoing the sort. From the sorted tuple and the destination port seen at the socket,
  \<open>fixup_connection_info\<close> restores the original tuple for a client and its mirror image for a
  server, whatever the sort did.
\<close>

theorem fixup_undoes_sort:
  assumes "s_port c \<noteq> d_port c" and "d_port c \<noteq> 0"
  shows "fixup_connection_info (sort_connection_info c) client (d_port c) =
           (if client \<noteq> 0 then c else swap_connection_info_order c)"
  using assms sort_cases[of c] by (auto simp: fixup_connection_info_def)

theorem fixup_undoes_sort_witness:
  "fixup_connection_info (sort_connection_info sample_conn) 1 40000 = sample_conn"
  using fixup_undoes_sort[of sample_conn 1] by (simp add: sample_conn_def)

lemma ephemeral_key:
  assumes "s_port c \<noteq> d_port c"
  shows "populate_ephemeral_info empty_part (sort_connection_info c) (d_port c) pid FD_CLIENT =
           (get_ephemeral_info empty_part c)\<lparr>cp_type := FD_CLIENT, cp_pid := pid\<rparr>"
    and "populate_ephemeral_info empty_part (sort_connection_info c) (d_port c) pid FD_SERVER =
           (get_ephemeral_accept_info empty_part c)\<lparr>cp_type := FD_SERVER, cp_pid := pid\<rparr>"
  using assms sort_cases[of c]
  by (auto simp: get_ephemeral_info_def get_ephemeral_accept_info_def populate_ephemeral_info_def
      populate_partial_info_def Let_def)

text \<open>
  The descriptor stored at connect (accept) time for an unsorted tuple is the one a later
  lookup finds from the sorted tuple and the original destination port, and storing it leaves
  the descriptors of every other key alone.
\<close>

lemma fd_map_roundtrip:
  assumes "s_port c \<noteq> d_port c"
  shows "fd_info_for_conn (store_connect_fd_info env pid fd c m) k =
           (if k = populate_ephemeral_info empty_part (sort_connection_info c) (d_port c) pid FD_CLIENT
            then Some (mk_fd_info env fd FD_CLIENT) else fd_info_for_conn m k) \<and>
         fd_info_for_conn (store_accept_fd_info env pid fd c m) k =
           (if k = populate_ephemeral_info empty_part (sort_connection_info c) (d_port c) pid FD_SERVER
            then Some (mk_fd_info env fd FD_SERVER) else fd_info_for_conn m k)"
  by (simp add: fd_info_for_conn_def store_connect_fd_info_def store_accept_fd_info_def
      ephemeral_key[OF assms] Let_def)

lemma fd_map_roundtrip_example:
  "\<forall>env. fd_info_for_conn (store_connect_fd_info env 7 5 sample_conn Map.empty)
     (populate_ephemeral_info empty_part (sort_connection_info sample_conn) 40000 7 FD_CLIENT) =
   Some (mk_fd_info env 5 FD_CLIENT)"
  using fd_map_roundtrip[of sample_conn] by (simp add: sample_conn_def)

text \<open>
  The ports-only egress key agrees with the full sort: it carries the ports of the sorted
  tuple, and is the same for both directions of a connection.
\<close>

lemma make_egress_key_sorted:
  "make_egress_key c = \<lparr>ek_s_port = s_port (sort_connection_info c),
      ek_d_port = d_port (sort_connection_info c), ek_stream_id = 0\<rparr> \<and>
   make_egress_key (swap_connection_info_order c) = make_egress_key c"
  by (auto simp: make_egress_key_def conn_defs)

end
