(* ===== verification/Sock_Addr.thy ===== *)
theory Sock_Addr
  imports Conn_Info
begin

section \<open>Connection tuples of kernel sockets and user addresses\<close>

text \<open>
  Models \<open>bpf/common/sockaddr.h\<close>. A kernel socket is the record of the fields the code reads;
  ports in network order and IPv4 addresses keep the value or the bytes they have in memory on a
  little-endian host. A null or unreadable socket is \<open>None\<close> and every read of it gives zeros, as
  the probe-read helpers do. A user \<open>sockaddr\<close> is a piece of memory read at the offsets of its C
  layout. The main result is that the two ends of one connection, read from their own sockets,
  sort to one key.
\<close>

subsection \<open>Byte order\<close>

unbundle bit_operations_syntax

definition bpf_ntohs :: "u16 \<Rightarrow> u16" where
  "bpf_ntohs w = (push_bit 8 w) OR (drop_bit 8 w)"

lemma bit_ntohs: "n < 16 \<Longrightarrow> bit (bpf_ntohs w) n = bit w (if n < 8 then n + 8 else n - 8)"
  unfolding bpf_ntohs_def
  by (auto simp: bit_or_iff bit_push_bit_iff bit_drop_bit_eq add.commute dest: bit_imp_le_length)

lemma ntohs_ntohs [simp]: "bpf_ntohs (bpf_ntohs w) = w"
  by (rule bit_word_eqI) (auto simp: bit_ntohs)

subsection \<open>Sockets\<close>

definition AF_INET :: u16 where "AF_INET = 2"
definition AF_INET6 :: u16 where "AF_INET6 = 10"
definition IP_V6_ADDR_LEN :: nat where "IP_V6_ADDR_LEN = 16"
definition TCP_SEND :: u8 where "TCP_SEND = 1"
definition TCP_RECV :: u8 where "TCP_RECV = 0"
definition TCP_SYN_SENT :: u8 where "TCP_SYN_SENT = 2"
definition TCP_SYN_RECV :: u8 where "TCP_SYN_RECV = 3"
definition TCP_CLOSE :: u8 where "TCP_CLOSE = 7"

definition ip4ip6_prefix :: bytes where
  "ip4ip6_prefix = [0, 0, 0, 0, 0, 0, 0, 0, 0, 0, 0xff, 0xff]"

record sock =
  skc_family :: u16
  skc_num :: u16
  skc_dport :: u16
  skc_rcv_saddr :: bytes
  skc_daddr :: bytes
  skc_v6_rcv_saddr :: bytes
  skc_v6_daddr :: bytes
  skc_state :: u8
  inet_sport :: u16
  bytes_acked :: u64

text \<open>What the reads of an unreadable socket give.\<close>

definition zero_sock :: sock where
  "zero_sock = \<lparr>skc_family = 0, skc_num = 0, skc_dport = 0, skc_rcv_saddr = replicate 4 0,
     skc_daddr = replicate 4 0, skc_v6_rcv_saddr = replicate 16 0, skc_v6_daddr = replicate 16 0,
     skc_state = 0, inet_sport = 0, bytes_acked = 0\<rparr>"

definition core_read :: "sock option \<Rightarrow> (sock \<Rightarrow> 'a) \<Rightarrow> 'a" where
  "core_read s f = f (case s of None \<Rightarrow> zero_sock | Some s' \<Rightarrow> s')"

record sock_args =
  sa_addr :: u64
  sa_ts :: u64
  sa_fd :: "32 word"
  sa_failed :: u8

text \<open>The boolean result comes with the tuple as it stands at the return.\<close>

definition parse_sock_info :: "sock option \<Rightarrow> connection_info \<Rightarrow> bool \<times> connection_info" where
  "parse_sock_info s info =
     (if core_read s skc_family = AF_INET then
        (True, info\<lparr>s_port := core_read s skc_num,
          d_port := bpf_ntohs (core_read s skc_dport),
          s_addr := ip4ip6_prefix @ core_read s skc_rcv_saddr,
          d_addr := ip4ip6_prefix @ core_read s skc_daddr\<rparr>)
      else if core_read s skc_family = AF_INET6 then
        (True, info\<lparr>s_port := core_read s skc_num,
          s_addr := core_read s skc_v6_rcv_saddr,
          d_port := bpf_ntohs (core_read s skc_dport),
          d_addr := core_read s skc_v6_daddr\<rparr>)
      else (False, info))"

definition resolve_local_port :: "u16 \<Rightarrow> u16 \<Rightarrow> u16" where
  "resolve_local_port num sport = (if num \<noteq> 0 then num else bpf_ntohs sport)"

definition parse_full_sock_info :: "sock option \<Rightarrow> connection_info \<Rightarrow> bool \<times> connection_info" where
  "parse_full_sock_info s info = (case parse_sock_info s info of
     (False, info') \<Rightarrow> (False, info')
   | (True, info') \<Rightarrow>
       (True, info'\<lparr>s_port := resolve_local_port (s_port info') (core_read s inet_sport)\<rparr>))"

text \<open>
  The kernel memory as these two entry points see it: what socket an address is, and what socket
  the \<open>sk\<close> field of a \<open>struct socket\<close> points to.
\<close>

record sock_heap =
  sock_at :: "u64 \<Rightarrow> sock option"
  sk_of_socket :: "u64 \<Rightarrow> u64"

definition parse_accept_socket_info ::
  "sock_heap \<Rightarrow> sock_args \<Rightarrow> connection_info \<Rightarrow> bool \<times> connection_info" where
  "parse_accept_socket_info h args info = parse_sock_info (sock_at h (sk_of_socket h (sa_addr args))) info"

definition parse_connect_sock_info ::
  "sock_heap \<Rightarrow> sock_args \<Rightarrow> connection_info \<Rightarrow> bool \<times> connection_info" where
  "parse_connect_sock_info h args info = parse_sock_info (sock_at h (sa_addr args)) info"

definition tcp_never_connected :: "u8 \<Rightarrow> u64 \<Rightarrow> bool" where
  "tcp_never_connected st acked =
     (if st = TCP_SYN_SENT \<or> st = TCP_SYN_RECV then True
      else if st \<noteq> TCP_CLOSE then False
      else acked = 0)"

definition is_tcp_socket_never_connected :: "sock option \<Rightarrow> bool" where
  "is_tcp_socket_never_connected sk =
     (sk = None \<or> tcp_never_connected (core_read sk skc_state) (core_read sk bytes_acked))"

subsection \<open>User addresses\<close>

text \<open>
  \<open>sa_family\<close> is the first two bytes, both port fields the next two; \<open>sin_addr\<close> starts at 4 and
  \<open>sin6_addr\<close>, after the flow label, at 8.
\<close>

definition probe_u16 :: "mem \<Rightarrow> nat \<Rightarrow> u16" where
  "probe_u16 m a = le_word (probe_read_z m a 2)"

text \<open>The same body serves \<open>get_sockaddr_port\<close> (kernel memory) and its user-memory sibling.\<close>

definition get_sockaddr_port :: "mem \<Rightarrow> nat \<Rightarrow> u16" where
  "get_sockaddr_port m a =
     (let fam = probe_u16 m a
      in if fam = AF_INET then bpf_ntohs (probe_u16 m (a + 2))
         else if fam = AF_INET6 then bpf_ntohs (probe_u16 m (a + 2))
         else 0)"

definition get_sockaddr_port_user :: "mem \<Rightarrow> nat \<Rightarrow> u16" where
  "get_sockaddr_port_user m a =
     (let fam = probe_u16 m a;
          bport = (if fam = AF_INET then probe_u16 m (a + 2)
                   else if fam = AF_INET6 then probe_u16 m (a + 2) else 0)
      in bpf_ntohs bport)"

definition parse_sockaddr_info ::
  "u32 \<Rightarrow> mem \<Rightarrow> nat \<Rightarrow> connection_info_part \<Rightarrow> bool \<times> connection_info_part" where
  "parse_sockaddr_info pid m a info =
     (let fam = probe_u16 m a;
          info' = (if fam = AF_INET then
                     info\<lparr>cp_port := probe_u16 m (a + 2),
                          cp_addr := ip4ip6_prefix @ probe_read_z m (a + 4) 4\<rparr>
                   else if fam = AF_INET6 then
                     info\<lparr>cp_port := probe_u16 m (a + 2), cp_addr := probe_read_z m (a + 8) 16\<rparr>
                   else info)
      in (False, info'\<lparr>cp_port := bpf_ntohs (cp_port info'), cp_pid := pid\<rparr>))"

subsection \<open>Results\<close>

lemma get_sockaddr_port_user_eq: "get_sockaddr_port_user m a = get_sockaddr_port m a"
  by (auto simp: get_sockaddr_port_user_def get_sockaddr_port_def Let_def bpf_ntohs_def)

text \<open>The sockets of the two ends of one connection.\<close>

definition sock_peers :: "sock \<Rightarrow> sock \<Rightarrow> bool" where
  "sock_peers s t \<longleftrightarrow> skc_family t = skc_family s \<and>
     skc_dport t = bpf_ntohs (skc_num s) \<and> skc_dport s = bpf_ntohs (skc_num t) \<and>
     skc_rcv_saddr t = skc_daddr s \<and> skc_daddr t = skc_rcv_saddr s \<and>
     skc_v6_rcv_saddr t = skc_v6_daddr s \<and> skc_v6_daddr t = skc_v6_rcv_saddr s"

lemma parse_peers:
  assumes "sock_peers s t" "parse_sock_info (Some s) i = (True, c)"
  shows "parse_sock_info (Some t) i = (True, swap_connection_info_order c)"
  using assms
  by (auto simp: parse_sock_info_def core_read_def sock_peers_def swap_connection_info_order_def
      split: if_splits)

lemma parse_sock_family:
  "fst (parse_sock_info (Some s) i) \<longleftrightarrow> skc_family s = AF_INET \<or> skc_family s = AF_INET6"
  by (simp add: parse_sock_info_def core_read_def)

text \<open>
  C37: The two ends of one connection agree on its key. When two sockets are each other's peer (the
  port one is bound to is the remote port of the other, and so for both address families' fields)
  and the two ports differ, parsing either socket succeeds for exactly the IPv4 and IPv6 families,
  and sorting the two tuples gives one and the same key.
\<close>

theorem parse_sock_same_key:
  assumes "sock_peers s t" "skc_num s \<noteq> skc_num t"
  shows "(fst (parse_sock_info (Some s) i) \<longleftrightarrow> skc_family s \<in> {AF_INET, AF_INET6}) \<and>
    (fst (parse_sock_info (Some t) i) \<longleftrightarrow> fst (parse_sock_info (Some s) i)) \<and>
    (fst (parse_sock_info (Some s) i) \<longrightarrow>
      sort_connection_info (snd (parse_sock_info (Some t) i)) =
      sort_connection_info (snd (parse_sock_info (Some s) i)))"
proof (intro conjI impI)
  show "fst (parse_sock_info (Some s) i) \<longleftrightarrow> skc_family s \<in> {AF_INET, AF_INET6}"
    by (simp add: parse_sock_family)
  show "fst (parse_sock_info (Some t) i) \<longleftrightarrow> fst (parse_sock_info (Some s) i)"
    using assms(1) by (simp add: parse_sock_family sock_peers_def)
  assume "fst (parse_sock_info (Some s) i)"
  then obtain c where c: "parse_sock_info (Some s) i = (True, c)"
    by (cases "parse_sock_info (Some s) i") simp
  have "s_port c = skc_num s" "d_port c = skc_num t"
    using c assms(1) by (auto simp: parse_sock_info_def core_read_def sock_peers_def split: if_splits)
  then have ports: "s_port c \<noteq> d_port c"
    using assms(2) by simp
  show "sort_connection_info (snd (parse_sock_info (Some t) i)) =
      sort_connection_info (snd (parse_sock_info (Some s) i))"
    using c conn.canon_flip[OF ports] parse_peers[OF assms(1) c] by simp
qed

definition sample_sock :: sock where
  "sample_sock = zero_sock\<lparr>skc_family := AF_INET, skc_num := 40000, skc_dport := bpf_ntohs 443,
     skc_rcv_saddr := [10, 0, 0, 1], skc_daddr := [10, 0, 0, 2]\<rparr>"

definition sample_peer :: sock where
  "sample_peer = zero_sock\<lparr>skc_family := AF_INET, skc_num := 443, skc_dport := bpf_ntohs 40000,
     skc_rcv_saddr := [10, 0, 0, 2], skc_daddr := [10, 0, 0, 1]\<rparr>"

theorem parse_sock_same_key_witness:
  "sort_connection_info (snd (parse_sock_info (Some sample_peer) sample_conn)) =
   sort_connection_info (snd (parse_sock_info (Some sample_sock) sample_conn))"
proof -
  have p: "sock_peers sample_sock sample_peer" "skc_num sample_sock \<noteq> skc_num sample_peer"
    by (simp_all add: sock_peers_def sample_sock_def sample_peer_def zero_sock_def)
  have "fst (parse_sock_info (Some sample_sock) sample_conn)"
    by (simp add: parse_sock_family sample_sock_def)
  then show ?thesis
    using parse_sock_same_key[OF p, of sample_conn] by simp
qed

end
