(* ===== verification/Trace_Text.thy ===== *)
theory Trace_Text
  imports OBI_Prelude
begin

section \<open>Traceparent text\<close>

text \<open>
  Models the data of \<open>bpf/common/tp_info.h\<close>, the hexadecimal codec and the header scans of
  \<open>bpf/common/trace_util.h\<close>, and \<open>make_tp_string\<close> of \<open>bpf/common/tracing.h\<close>. The scans are shown
  to find exactly the first well-placed header of the buffer and to stay inside it.
\<close>

subsection \<open>Data\<close>

definition TRACE_ID_SIZE_BYTES :: nat where "TRACE_ID_SIZE_BYTES = 16"
definition SPAN_ID_SIZE_BYTES :: nat where "SPAN_ID_SIZE_BYTES = 8"
definition k_flag_sampled :: u8 where "k_flag_sampled = 1"

record tp_info =
  tp_trace_id :: bytes
  tp_span_id :: bytes
  tp_parent_id :: bytes
  tp_ts :: u64
  tp_flags :: u8

datatype parent_status =
  k_parent_status_none | k_parent_status_live | k_parent_status_conditional

record tp_info_pid =
  tpp_tp :: tp_info
  tpp_pid :: u32
  tpp_valid :: u8
  tpp_written :: u8
  tpp_req_type :: u8
  tpp_response_sent :: u8

text \<open>The arrays of a \<open>tp_info_t\<close> have their declared sizes.\<close>

definition tp_wf :: "tp_info \<Rightarrow> bool" where
  "tp_wf tp \<longleftrightarrow> length (tp_trace_id tp) = TRACE_ID_SIZE_BYTES \<and>
     length (tp_span_id tp) = SPAN_ID_SIZE_BYTES \<and> length (tp_parent_id tp) = SPAN_ID_SIZE_BYTES"

subsection \<open>Hexadecimal\<close>

definition hex :: bytes where
  "hex = ascii ''0123456789abcdef''"

definition reverse_hex :: bytes where
  "reverse_hex =
     replicate 48 0xff
     @ [0x00, 0x01, 0x02, 0x03, 0x04, 0x05, 0x06, 0x07, 0x08, 0x09] @ replicate 6 0xff
     @ [0xff, 0x0a, 0x0b, 0x0c, 0x0d, 0x0e, 0x0f] @ replicate 9 0xff
     @ replicate 16 0xff
     @ [0xff, 0x0a, 0x0b, 0x0c, 0x0d, 0x0e, 0x0f] @ replicate 9 0xff
     @ replicate 16 0xff
     @ replicate 128 0xff"

text \<open>
  \<open>bpf_get_prandom_u32\<close> is a stream of words; a call takes the next one. \<open>urand_bytes\<close> stores
  one per four bytes.
\<close>

type_synonym rng = "nat \<Rightarrow> u32"

primrec urand_words :: "rng \<Rightarrow> nat \<Rightarrow> nat \<Rightarrow> bytes" where
  "urand_words rnd pos 0 = []"
| "urand_words rnd pos (Suc n) = le_bytes32 (rnd pos) @ urand_words rnd (Suc pos) n"

definition urand_bytes :: "rng \<Rightarrow> nat \<Rightarrow> nat \<Rightarrow> bytes \<times> nat" where
  "urand_bytes rnd pos nbytes = (let n = (nbytes + 3) div 4 in (urand_words rnd pos n, pos + n))"

text \<open>One turn of the loop \<open>for (i = 1, j = 0; i < src_len; i += 2)\<close> per decoded byte.\<close>

definition hex_pair :: "u8 \<Rightarrow> u8 \<Rightarrow> u8 option" where
  "hex_pair p q = do {
     a \<leftarrow> rd reverse_hex (unat (p AND 0xff));
     b \<leftarrow> rd reverse_hex (unat (q AND 0xff));
     Some ((push_bit 4 (a AND 0x0f) OR (b AND 0x0f)) AND 0xff)
   }"

primrec decode_hex_pairs :: "nat \<Rightarrow> bytes \<Rightarrow> nat \<Rightarrow> bytes option" where
  "decode_hex_pairs 0 src k = Some []"
| "decode_hex_pairs (Suc n) src k = do {
     p \<leftarrow> rd src k;
     q \<leftarrow> rd src (k + 1);
     v \<leftarrow> hex_pair p q;
     rest \<leftarrow> decode_hex_pairs n src (k + 2);
     Some (v # rest)
   }"

definition decode_hex :: "bytes \<Rightarrow> nat \<Rightarrow> nat \<Rightarrow> bytes option" where
  "decode_hex src off src_len = decode_hex_pairs (src_len div 2) src off"

definition hex_digits :: "u8 \<Rightarrow> bytes" where
  "hex_digits p = [hex ! unat (drop_bit 4 p AND 0xff), hex ! unat (p AND 0x0f)]"

definition encode_hex :: "bytes \<Rightarrow> nat \<Rightarrow> bytes" where
  "encode_hex src src_len = concat (map hex_digits (take src_len src))"

definition make_tp_string :: "tp_info \<Rightarrow> bytes" where
  "make_tp_string tp =
     ascii ''00-'' @ encode_hex (tp_trace_id tp) TRACE_ID_SIZE_BYTES
     @ ascii ''-'' @ encode_hex (tp_span_id tp) SPAN_ID_SIZE_BYTES
     @ ascii ''-'' @ [0x30, 0x30 + (tp_flags tp AND k_flag_sampled)]"

subsection \<open>Scanning for the header\<close>

definition TRACE_BUF_SIZE :: nat where "TRACE_BUF_SIZE = 1024"
definition TRACE_PARENT_HEADER_LEN :: nat where "TRACE_PARENT_HEADER_LEN = 68"

definition k_tp_val_dash1 :: nat where "k_tp_val_dash1 = 2"
definition k_tp_val_trace_id_start :: nat where "k_tp_val_trace_id_start = 3"
definition k_tp_val_dash2 :: nat where "k_tp_val_dash2 = 35"
definition k_tp_val_span_id_start :: nat where "k_tp_val_span_id_start = 36"
definition k_tp_val_dash3 :: nat where "k_tp_val_dash3 = 52"
definition k_tp_val_flags_start :: nat where "k_tp_val_flags_start = 53"
definition k_tp_max_scan_loops :: nat where
  "k_tp_max_scan_loops = TRACE_BUF_SIZE - TRACE_PARENT_HEADER_LEN"

definition tp_name_tests :: "(u8 \<Rightarrow> bool) list" where
  "tp_name_tests =
     (\<lambda>v. v = 0x54 \<or> v = 0x74) # map (\<lambda>c v. v = c) (ascii ''race'')
     @ (\<lambda>v. v = 0x70 \<or> v = 0x50) # map (\<lambda>c v. v = c) (ascii ''arent: '')"

definition is_traceparent :: "bytes \<Rightarrow> nat \<Rightarrow> bool option" where
  "is_traceparent buf p = match_seq tp_name_tests buf p"

definition is_eoh :: "bytes \<Rightarrow> nat \<Rightarrow> bool option" where
  "is_eoh buf p = match_seq (map (\<lambda>c v. v = c) [0x0d, 0x0a, 0x0d, 0x0a]) buf p"

definition valid_traceparent :: "bytes \<Rightarrow> nat \<Rightarrow> bool option" where
  "valid_traceparent buf p = (let val = p + 13 in do {
     d1 \<leftarrow> rd buf (val + k_tp_val_dash1);
     if d1 \<noteq> 0x2d then Some False else do {
     d2 \<leftarrow> rd buf (val + k_tp_val_dash2);
     if d2 \<noteq> 0x2d then Some False else do {
     d3 \<leftarrow> rd buf (val + k_tp_val_dash3);
     Some (d3 = 0x2d) }}})"

text \<open>The callback: \<open>pos\<close> is \<open>None\<close> while it holds \<open>k_tp_pos_not_found\<close>.\<close>

definition tp_match :: "bytes \<Rightarrow> nat \<Rightarrow> nat option \<Rightarrow> (nat option \<times> bool) option" where
  "tp_match buf index pos =
     (if index \<ge> TRACE_BUF_SIZE - TRACE_PARENT_HEADER_LEN then Some (pos, True)
      else do {
        name \<leftarrow> is_traceparent buf index;
        if \<not> name then Some (pos, False) else do {
        ok \<leftarrow> valid_traceparent buf index;
        Some (if ok then (Some index, True) else (pos, False)) }})"

definition traceparent_scan_loop_count :: "u16 \<Rightarrow> nat" where
  "traceparent_scan_loop_count buf_len =
     (if unat buf_len < TRACE_PARENT_HEADER_LEN then 0
      else min (unat buf_len - TRACE_PARENT_HEADER_LEN + 1) k_tp_max_scan_loops)"

text \<open>The result is \<open>NULL\<close> or a position of the buffer.\<close>

definition bpf_strstr_tp_loop :: "bool \<Rightarrow> bytes \<Rightarrow> u16 \<Rightarrow> nat option option" where
  "bpf_strstr_tp_loop g_bpf_traceparent_enabled buf buf_len =
     (if \<not> g_bpf_traceparent_enabled then Some None
      else let nr_loops = traceparent_scan_loop_count buf_len
           in if nr_loops = 0 then Some None
              else do {
                pos \<leftarrow> bpf_loop nr_loops (tp_match buf) None;
                Some (case pos of
                    None \<Rightarrow> None
                  | Some p \<Rightarrow> if p > TRACE_BUF_SIZE - TRACE_PARENT_HEADER_LEN then None else Some p) })"

definition k_besteffort_max_loops :: nat where "k_besteffort_max_loops = 350"

text \<open>The inner loop over the value: true when one of its bytes is NUL.\<close>

primrec tp_has_nul :: "nat \<Rightarrow> bytes \<Rightarrow> nat \<Rightarrow> bool option" where
  "tp_has_nul 0 buf j = Some False"
| "tp_has_nul (Suc n) buf j = do {
     v \<leftarrow> rd buf j;
     if v = 0 then Some True else tp_has_nul n buf (Suc j) }"

primrec legacy_scan :: "nat \<Rightarrow> bytes \<Rightarrow> nat \<Rightarrow> nat option option" where
  "legacy_scan 0 buf p = Some None"
| "legacy_scan (Suc n) buf p = do {
     v \<leftarrow> rd buf p;
     if v = 0 then Some None else do {
     name \<leftarrow> is_traceparent buf p;
     if name then do {
       cut \<leftarrow> tp_has_nul (TRACE_PARENT_HEADER_LEN - 13) buf (p + 13);
       if cut then Some None else do {
       ok \<leftarrow> valid_traceparent buf p;
       Some (if ok then Some p else None) }}
     else legacy_scan n buf (Suc p) }}"

definition bpf_strstr_tp_loop__legacy :: "bool \<Rightarrow> bytes \<Rightarrow> u16 \<Rightarrow> nat option option" where
  "bpf_strstr_tp_loop__legacy g_bpf_traceparent_enabled buf buf_len =
     (if \<not> g_bpf_traceparent_enabled then Some None
      else if unat buf_len < TRACE_PARENT_HEADER_LEN then Some None
      else legacy_scan k_besteffort_max_loops buf 0)"

lemmas tp_layout = TRACE_ID_SIZE_BYTES_def SPAN_ID_SIZE_BYTES_def TRACE_BUF_SIZE_def
  TRACE_PARENT_HEADER_LEN_def k_tp_val_dash1_def k_tp_val_trace_id_start_def k_tp_val_dash2_def
  k_tp_val_span_id_start_def k_tp_val_dash3_def k_tp_val_flags_start_def k_tp_max_scan_loops_def

subsection \<open>The codec\<close>

lemma reverse_hex_length [simp]: "length reverse_hex = 256"
  by (simp add: reverse_hex_def)

lemma hex_length [simp]: "length hex = 16"
  by (simp add: hex_def ascii_def)

lemma reverse_hex_hex:
  "\<forall>n < 16. reverse_hex ! unat (hex ! n) = of_nat n"
  unfolding reverse_hex_def hex_def ascii_def by code_simp

lemma and_ff [simp]: "(p :: u8) AND 0xff = p"
proof -
  have "(0xff :: u8) = - 1" by simp
  then show ?thesis by (simp only: and.right_neutral)
qed

lemma hex_pair_in: "hex_pair p q = Some (push_bit 4 (reverse_hex ! unat p AND 0x0f) OR
    (reverse_hex ! unat q AND 0x0f))"
  by (simp add: hex_pair_def)

lemma nibbles:
  "push_bit 4 (drop_bit 4 p AND 0x0f) OR (p AND 0x0f) = (p :: u8)"
proof -
  have "x AND 0x0f = take_bit 4 x" for x :: u8
    by (simp add: take_bit_eq_mask mask_numeral)
  then show ?thesis
    by (intro bit_word_eqI) (auto simp: bit_simps dest: bit_imp_le_length)
qed

lemma nibble_bounds: "unat (drop_bit 4 p) < 16" "unat (p AND 0x0f) < 16" for p :: u8
proof -
  show "unat (drop_bit 4 p) < 16"
  proof -
    have "unat p div 16 < 16" using unat_u8_less[of p] by linarith
    then show ?thesis by (simp add: drop_bit_eq_div unat_div_distrib)
  qed
  have "p AND 0x0f = take_bit 4 p"
    by (simp add: take_bit_eq_mask mask_numeral)
  then show "unat (p AND 0x0f) < 16"
    by (simp only: unsigned_take_bit_eq) (simp add: take_bit_eq_mod)
qed

lemma hex_pair_digits: "hex_pair (hex_digits p ! 0) (hex_digits p ! 1) = Some p"
proof -
  have "reverse_hex ! unat (hex ! unat (drop_bit 4 p)) = drop_bit 4 p"
    and "reverse_hex ! unat (hex ! unat (p AND 0x0f)) = p AND 0x0f"
    using reverse_hex_hex[rule_format, OF nibble_bounds(1)[of p]]
      reverse_hex_hex[rule_format, OF nibble_bounds(2)[of p]] by simp_all
  then have "hex_pair (hex_digits p ! 0) (hex_digits p ! 1) =
      Some (push_bit 4 (drop_bit 4 p AND 0x0f) OR ((p AND 0x0f) AND 0x0f))"
    by (simp add: hex_pair_in hex_digits_def)
  then show ?thesis
    by (simp only: and.assoc and.idem nibbles)
qed

lemma decode_hex_pairs_append:
  "decode_hex_pairs (length src) (pre @ concat (map hex_digits src) @ post) (length pre) = Some src"
proof (induction src arbitrary: pre)
  case Nil
  then show ?case by simp
next
  case (Cons p src)
  have d: "hex_digits p = [hex_digits p ! 0, hex_digits p ! 1]"
    by (simp add: hex_digits_def)
  define x y where "x = hex_digits p ! 0" and "y = hex_digits p ! 1"
  have dig: "hex_digits p = [x, y]" using d x_def y_def by simp
  have pair: "hex_pair x y = Some p" unfolding x_def y_def by (rule hex_pair_digits)
  have "decode_hex_pairs (length src)
      ((pre @ [x, y]) @ concat (map hex_digits src) @ post) (length (pre @ [x, y])) = Some src"
    by (rule Cons.IH)
  then show ?case
    by (simp add: dig rd_def nth_append pair)
qed

lemma concat_hex_length [simp]: "length (concat (map hex_digits src)) = 2 * length src"
  by (induction src) (auto simp: hex_digits_def)

text \<open>
  Decoding the text that \<open>encode_hex\<close> wrote for a run of bytes, wherever it stands in a
  buffer, gives the bytes back.
\<close>

lemma decode_encode_hex:
  "decode_hex (pre @ encode_hex src (length src) @ post) (length pre) (2 * length src) = Some src"
  by (simp add: decode_hex_def encode_hex_def decode_hex_pairs_append)

subsection \<open>The scans\<close>

text \<open>A header with a well-placed value at a position of the buffer.\<close>

definition tp_header_at :: "bytes \<Rightarrow> nat \<Rightarrow> bool" where
  "tp_header_at buf p \<longleftrightarrow> seq_at tp_name_tests buf p \<and>
     buf ! (p + 13 + k_tp_val_dash1) = 0x2d \<and> buf ! (p + 13 + k_tp_val_dash2) = 0x2d \<and>
     buf ! (p + 13 + k_tp_val_dash3) = 0x2d"

lemma tp_name_tests_length [simp]: "length tp_name_tests = 13"
  by (simp add: tp_name_tests_def ascii_def)

lemma is_traceparent_in [in_bounds]:
  "p + 13 \<le> length buf \<Longrightarrow> is_traceparent buf p = Some (seq_at tp_name_tests buf p)"
  by (simp add: is_traceparent_def)

lemma valid_traceparent_in [in_bounds]:
  "p + TRACE_PARENT_HEADER_LEN \<le> length buf \<Longrightarrow> valid_traceparent buf p =
     Some (buf ! (p + 13 + k_tp_val_dash1) = 0x2d \<and> buf ! (p + 13 + k_tp_val_dash2) = 0x2d \<and>
           buf ! (p + 13 + k_tp_val_dash3) = 0x2d)"
  by (simp add: valid_traceparent_def tp_layout Let_def)

lemma tp_match_step:
  assumes "index < k_tp_max_scan_loops" and "index + TRACE_PARENT_HEADER_LEN \<le> length buf"
  shows "tp_match buf index pos =
           Some (if tp_header_at buf index then (Some index, True) else (pos, False))"
  using assms is_traceparent_in[of index buf] valid_traceparent_in[of index buf]
  by (simp add: tp_match_def tp_header_at_def tp_layout)

text \<open>The first position below a bound with a property.\<close>

definition first_below :: "nat \<Rightarrow> (nat \<Rightarrow> bool) \<Rightarrow> nat option" where
  "first_below n P = find P [0..<n]"

lemma first_below_Some: "first_below n P = Some p \<longleftrightarrow> p < n \<and> P p \<and> (\<forall>q < p. \<not> P q)"
  by (auto simp: first_below_def find_Some_iff)

lemma first_below_None: "first_below n P = None \<longleftrightarrow> (\<forall>p < n. \<not> P p)"
  by (auto simp: first_below_def find_None_iff)

text \<open>
  C33: with traceparent support on, the scan of a captured request never reads outside the
  buffer and returns the first header with a well-placed value among the start offsets it
  covers, which are those that leave room for the 68 header bytes and are below 956.
\<close>

theorem bpf_strstr_tp_loop_first:
  assumes "unat buf_len \<le> length buf"
  shows "bpf_strstr_tp_loop True buf buf_len =
           Some (first_below (min (unat buf_len - 67) k_tp_max_scan_loops) (tp_header_at buf))"
proof (cases "unat buf_len < TRACE_PARENT_HEADER_LEN")
  case True
  then show ?thesis
    by (simp add: bpf_strstr_tp_loop_def traceparent_scan_loop_count_def first_below_def tp_layout)
next
  case False
  let ?n = "min (unat buf_len - 67) k_tp_max_scan_loops"
  let ?Q = "\<lambda>t. t = first_below ?n (tp_header_at buf)"
  let ?P = "\<lambda>k (t :: nat option). t = None \<and> (\<forall>q < k. \<not> tp_header_at buf q)"
  have n: "traceparent_scan_loop_count buf_len = ?n" "?n \<noteq> 0"
    using False by (auto simp: traceparent_scan_loop_count_def tp_layout)
  have "\<exists>t. bpf_loop ?n (tp_match buf) None = Some t \<and> ?Q t"
  proof (rule bpf_loop_inv[where P = ?P])
    fix k t assume k: "k < ?n" and P: "?P k t"
    have "tp_match buf k t = Some (if tp_header_at buf k then (Some k, True) else (t, False))"
      using k assms False by (intro tp_match_step) (auto simp: tp_layout)
    moreover have "tp_header_at buf k \<Longrightarrow> Some k = first_below ?n (tp_header_at buf)"
      using k P first_below_Some[of ?n "tp_header_at buf" k] by simp
    ultimately show "\<exists>t' stop. tp_match buf k t = Some (t', stop) \<and>
        (if stop then ?Q t' else ?P (Suc k) t')"
      using P by (auto simp: less_Suc_eq)
  next
    fix t assume "?P ?n t"
    then show "?Q t" using first_below_None[of ?n "tp_header_at buf"] by simp
  qed simp
  then have loop: "bpf_loop ?n (tp_match buf) None = Some (first_below ?n (tp_header_at buf))"
    by auto
  have "p \<le> TRACE_BUF_SIZE - TRACE_PARENT_HEADER_LEN"
    if "first_below ?n (tp_header_at buf) = Some p" for p
    using that first_below_Some[of ?n "tp_header_at buf" p] by (auto simp: k_tp_max_scan_loops_def)
  then show ?thesis
    using n loop by (cases "first_below ?n (tp_header_at buf)") (auto simp: bpf_strstr_tp_loop_def Let_def)
qed

definition sample_header :: bytes where
  "sample_header = ascii ''GET / HTTP/1.1 Traceparent: 00-'' @ replicate 32 0x61 @ ascii ''-''
     @ replicate 16 0x62 @ ascii ''-01'' @ [0x0d, 0x0a]"

theorem bpf_strstr_tp_loop_first_witness:
  "unat (85 :: u16) \<le> length sample_header \<and>
   bpf_strstr_tp_loop True sample_header 85 = Some (Some 15)"
proof -
  have len: "unat (85 :: u16) \<le> length sample_header"
    by (simp add: sample_header_def ascii_def)
  moreover have "first_below (min (unat (85 :: u16) - 67) k_tp_max_scan_loops)
      (tp_header_at sample_header) = Some 15"
    unfolding first_below_def by code_simp
  ultimately show ?thesis
    using bpf_strstr_tp_loop_first[of 85 sample_header] by simp
qed

lemma tp_has_nul_in [in_bounds]:
  "j + n \<le> length buf \<Longrightarrow> tp_has_nul n buf j = Some (\<exists>k < n. buf ! (j + k) = 0)"
proof (induction n arbitrary: j)
  case 0
  then show ?case by simp
next
  case (Suc n)
  have "(\<exists>k < Suc n. buf ! (j + k) = 0) \<longleftrightarrow> buf ! j = 0 \<or> (\<exists>k < n. buf ! (Suc j + k) = 0)"
    by (subst Ex_less_Suc2) simp
  with Suc show ?case by simp
qed

text \<open>A complete header: well placed, and no NUL cuts its value.\<close>

definition tp_complete_at :: "bytes \<Rightarrow> nat \<Rightarrow> bool" where
  "tp_complete_at buf p \<longleftrightarrow> tp_header_at buf p \<and> (\<forall>k < 55. buf ! (p + 13 + k) \<noteq> 0)"

lemma legacy_scan_spec:
  assumes "p + n + 67 \<le> length buf"
  shows "legacy_scan n buf p =
    Some (case find (\<lambda>q. buf ! q = 0 \<or> seq_at tp_name_tests buf q) [p..<p + n] of
            None \<Rightarrow> None
          | Some q \<Rightarrow> if buf ! q \<noteq> 0 \<and> tp_complete_at buf q then Some q else None)"
  using assms
proof (induction n arbitrary: p)
  case 0
  then show ?case by simp
next
  case (Suc n)
  have up: "[p..<p + Suc n] = p # [Suc p..<Suc p + n]"
    by (simp add: upt_conv_Cons)
  have IH: "legacy_scan n buf (Suc p) =
    Some (case find (\<lambda>q. buf ! q = 0 \<or> seq_at tp_name_tests buf q) [Suc p..<Suc p + n] of
            None \<Rightarrow> None
          | Some q \<Rightarrow> if buf ! q \<noteq> 0 \<and> tp_complete_at buf q then Some q else None)"
    using Suc.prems by (intro Suc.IH) simp
  have name: "is_traceparent buf p = Some (seq_at tp_name_tests buf p)"
    using Suc.prems by (intro is_traceparent_in) simp
  have nul: "tp_has_nul (TRACE_PARENT_HEADER_LEN - 13) buf (p + 13) =
      Some (\<exists>k < 55. buf ! (p + 13 + k) = 0)"
    using Suc.prems tp_has_nul_in[of "p + 13" 55 buf] by (simp add: TRACE_PARENT_HEADER_LEN_def)
  note ok = valid_traceparent_in[of p buf]
  show ?case
    unfolding up using Suc.prems name nul ok IH
    by (auto simp: tp_complete_at_def tp_header_at_def TRACE_PARENT_HEADER_LEN_def)
qed

text \<open>
  C34: the best-effort scan for older kernels. On a capture of the full buffer size it stays in
  bounds; it stops at the first NUL or the first traceparent name within 350 bytes, and reports
  that place exactly when it is a header with a well-placed, uncut value.
\<close>

theorem legacy_scan_first:
  assumes "length buf = TRACE_BUF_SIZE" and "TRACE_PARENT_HEADER_LEN \<le> unat buf_len"
  shows "bpf_strstr_tp_loop__legacy True buf buf_len =
    Some (case find (\<lambda>q. buf ! q = 0 \<or> seq_at tp_name_tests buf q) [0..<350] of
            None \<Rightarrow> None
          | Some q \<Rightarrow> if buf ! q \<noteq> 0 \<and> tp_complete_at buf q then Some q else None)"
  using assms legacy_scan_spec[of 0 350 buf]
  by (simp add: bpf_strstr_tp_loop__legacy_def k_besteffort_max_loops_def TRACE_BUF_SIZE_def)

theorem legacy_scan_first_witness:
  "length (sample_header @ replicate 939 0) = TRACE_BUF_SIZE \<and>
   bpf_strstr_tp_loop__legacy True (sample_header @ replicate 939 0) 85 = Some (Some 15)"
proof -
  define b where "b = sample_header @ replicate 939 0"
  have len: "length b = TRACE_BUF_SIZE"
    unfolding b_def TRACE_BUF_SIZE_def by (simp add: sample_header_def ascii_def)
  have name: "find (\<lambda>q. b ! q = 0 \<or> seq_at tp_name_tests b q) [0..<350] = Some 15"
    unfolding b_def by code_simp
  have "b ! 15 \<noteq> 0 \<and> tp_complete_at b 15"
    unfolding b_def by code_simp
  with name len show ?thesis
    using legacy_scan_first[OF len, of 85]
    by (simp add: TRACE_PARENT_HEADER_LEN_def b_def[symmetric])
qed

end
