(* ===== verification/C_Strings.thy ===== *)
theory C_Strings
  imports OBI_Prelude
begin

section \<open>String helpers\<close>

text \<open>
  Models \<open>bpf/common/strings.h\<close>. A string argument is the byte array behind it and comparisons
  read one byte at a time, so a comparison that stops early reads no further. Bytes above 0x7f
  are negative as \<open>char\<close>, which \<open>lowercase\<close> leaves alone, as the unsigned reading here does.
\<close>

definition lowercase :: "u8 \<Rightarrow> u8" where
  "lowercase c = (if 0x41 \<le> c \<and> c \<le> 0x5a then c + 32 else c)"

text \<open>The loop of \<open>stricmp\<close> from index \<open>i\<close>, with \<open>n - i\<close> turns left.\<close>

primrec stricmp_from :: "nat \<Rightarrow> bytes \<Rightarrow> bytes \<Rightarrow> nat \<Rightarrow> bool option" where
  "stricmp_from 0 s1 s2 i = Some True"
| "stricmp_from (Suc n) s1 s2 i = do {
     a \<leftarrow> rd s1 i;
     if a = 0 then Some True else do {
     b \<leftarrow> rd s2 i;
     if b = 0 then Some True
     else if lowercase a \<noteq> lowercase b then Some False
     else stricmp_from n s1 s2 (Suc i) }}"

definition stricmp :: "bytes \<Rightarrow> bytes \<Rightarrow> nat \<Rightarrow> bool option" where
  "stricmp s1 s2 n = stricmp_from n s1 s2 0"

primrec memcmp_from :: "nat \<Rightarrow> bytes \<Rightarrow> bytes \<Rightarrow> nat \<Rightarrow> nat option" where
  "memcmp_from 0 s1 s2 i = Some 0"
| "memcmp_from (Suc n) s1 s2 i = do {
     a \<leftarrow> rd s1 i;
     b \<leftarrow> rd s2 i;
     if a \<noteq> b then Some (i + 1) else memcmp_from n s1 s2 (Suc i) }"

definition obi_bpf_memcmp :: "bytes \<Rightarrow> bytes \<Rightarrow> nat \<Rightarrow> nat option" where
  "obi_bpf_memcmp s1 s2 n = memcmp_from n s1 s2 0"

lemma memcmp_from_in:
  "i + n \<le> length s1 \<Longrightarrow> i + n \<le> length s2 \<Longrightarrow>
     \<exists>r. memcmp_from n s1 s2 i = Some r \<and> (r = 0 \<longleftrightarrow> take n (drop i s1) = take n (drop i s2))"
proof (induction n arbitrary: i)
  case 0
  then show ?case by simp
next
  case (Suc n)
  have d: "drop i s1 = s1 ! i # drop (Suc i) s1" "drop i s2 = s2 ! i # drop (Suc i) s2"
    using Suc.prems by (simp_all add: Cons_nth_drop_Suc)
  show ?case
    using Suc.IH[of "Suc i"] Suc.prems by (auto simp: d)
qed

lemma obi_bpf_memcmp_in [in_bounds]:
  assumes "n \<le> length s1" and "n \<le> length s2"
  shows "\<exists>r. obi_bpf_memcmp s1 s2 n = Some r \<and> (r = 0 \<longleftrightarrow> take n s1 = take n s2)"
  using memcmp_from_in[of 0 n s1 s2] assms by (simp add: obi_bpf_memcmp_def)

lemma stricmp_from_in [in_bounds]:
  "i + n \<le> length s1 \<Longrightarrow> i + n \<le> length s2 \<Longrightarrow> stricmp_from n s1 s2 i \<noteq> None"
  by (induction n arbitrary: i) auto

end
