(* ===== verification/Http_Info.thy ===== *)
theory Http_Info
  imports Sock_Addr Trace_Text C_Strings
begin

section \<open>HTTP request records\<close>

text \<open>
  Models \<open>bpf/common/http_info.h\<close> and the records and buffer tests of \<open>bpf/common/http_types.h\<close>: the
  record kept for every HTTP request in flight, the predicates that say in which phase it is, the
  notes taken when its response could not be parsed, and the test for the start of a request.
\<close>

unbundle bit_operations_syntax

subsection \<open>Data\<close>

definition k_event_type_http_request :: u8 where "k_event_type_http_request = 1"
definition k_event_type_http_client :: u8 where "k_event_type_http_client = 3"
definition k_event_type_tcp_request :: u8 where "k_event_type_tcp_request = 8"
definition FULL_BUF_SIZE :: nat where "FULL_BUF_SIZE = 256"
definition HTTP_RESPONSE_BYTES_FIN_TOLERANCE :: u64 where "HTTP_RESPONSE_BYTES_FIN_TOLERANCE = 1"

lemmas event_types = k_event_type_http_request_def k_event_type_http_client_def k_event_type_tcp_request_def

datatype http_response_observation =
  http_response_parsed | http_response_received | http_response_silent | http_response_unread

record http_info =
  hi_flags :: u8
  hi_type :: u8
  hi_ssl :: u8
  hi_delayed :: u8
  hi_conn_info :: connection_info
  hi_start_monotime_ns :: u64
  hi_end_monotime_ns :: u64
  hi_req_monotime_ns :: u64
  hi_extra_id :: u64
  hi_response_bytes_at_request :: u64
  hi_tp :: tp_info
  hi_pid :: pid_info
  hi_len :: u32
  hi_resp_len :: u32
  hi_task_tid :: u32
  hi_lb_req_bytes :: u32
  hi_lb_res_bytes :: u32
  hi_status :: u16
  hi_buf :: bytes
  hi_has_large_buffers :: u8
  hi_direction :: u8
  hi_submitted :: u8
  hi_parent_status :: parent_status
  hi_event_source :: u8
  hi_response_observation :: http_response_observation

record http2_conn_stream =
  hs_pid_conn :: pid_connection_info
  hs_stream_id :: u32

record http2_grpc_request =
  h2r_flags :: u8
  h2r_ssl :: u8
  h2r_type :: u8
  h2r_parent_status :: parent_status
  h2r_conn_info :: connection_info
  h2r_start_monotime_ns :: u64
  h2r_end_monotime_ns :: u64
  h2r_data :: bytes
  h2r_ret_data :: bytes
  h2r_len :: u32
  h2r_stream_id :: u32
  h2r_hpack_flags :: u8
  h2r_pid :: pid_info
  h2r_new_conn_id :: u64
  h2r_tp :: tp_info

subsection \<open>Phases of a record\<close>

definition http_response_bytes_advanced :: "u64 \<Rightarrow> u64 \<Rightarrow> bool" where
  "http_response_bytes_advanced at_request at_close =
     (if at_close \<le> at_request then False
      else at_close - at_request > HTTP_RESPONSE_BYTES_FIN_TOLERANCE)"

definition http_response_observation_at_close :: "u64 \<Rightarrow> u64 \<Rightarrow> http_response_observation" where
  "http_response_observation_at_close at_request at_close =
     (if http_response_bytes_advanced at_request at_close then http_response_received
      else http_response_silent)"

definition still_responding :: "http_info \<Rightarrow> bool" where
  "still_responding info = (hi_status info \<noteq> 0)"

definition still_reading :: "http_info \<Rightarrow> bool" where
  "still_reading info = (hi_status info = 0 \<and> hi_response_observation info = http_response_parsed \<and>
     hi_start_monotime_ns info \<noteq> 0)"

definition response_unread :: "http_info \<Rightarrow> bool" where
  "response_unread info = (hi_status info = 0 \<and> hi_response_observation info = http_response_unread)"

definition http_response_pending :: "http_info \<Rightarrow> u64 \<Rightarrow> bool" where
  "http_response_pending info n =
     (still_reading info \<and> \<not> http_response_bytes_advanced (hi_response_bytes_at_request info) n)"

definition http_response_direction :: "http_info \<Rightarrow> u8 \<Rightarrow> bool" where
  "http_response_direction info direction =
     (if hi_type info = k_event_type_http_client then direction = TCP_RECV else direction = TCP_SEND)"

definition unparsed_response_buffer :: "http_info \<Rightarrow> u8 \<Rightarrow> bool" where
  "unparsed_response_buffer info direction =
     (if still_responding info then False
      else if \<not> still_reading info \<and> \<not> response_unread info then False
      else http_response_direction info direction)"

definition note_unread_response :: "http_info \<Rightarrow> u64 \<Rightarrow> http_info" where
  "note_unread_response info at =
     info\<lparr>hi_response_observation := http_response_unread, hi_end_monotime_ns := at\<rparr>"

definition note_displaced_by_next_request :: "http_info \<Rightarrow> u64 \<Rightarrow> http_info" where
  "note_displaced_by_next_request info at =
     (if \<not> still_reading info then info
      else info\<lparr>hi_resp_len := 0, hi_end_monotime_ns := at,
                hi_response_observation := http_response_received\<rparr>)"

definition http_info_complete :: "http_info \<Rightarrow> bool" where
  "http_info_complete info =
     (hi_start_monotime_ns info \<noteq> 0 \<and> hi_status info \<noteq> 0 \<and> pi_host_pid (hi_pid info) \<noteq> 0)"

definition http_info_emittable :: "http_info \<Rightarrow> bool" where
  "http_info_emittable info =
     (if http_info_complete info then True
      else hi_response_observation info \<noteq> http_response_parsed \<and> hi_start_monotime_ns info \<noteq> 0 \<and>
           pi_host_pid (hi_pid info) \<noteq> 0)"

subsection \<open>The start of a request\<close>

definition is_http_request_target :: "u8 \<Rightarrow> bool" where
  "is_http_request_target c = (c = 0x2f \<or> (c OR 0x20) = 0x68)"

definition http_methods :: "bytes list" where
  "http_methods = [ascii ''GET '', ascii ''POST '', ascii ''PUT '', ascii ''PATCH '', ascii ''DELETE '',
     ascii ''HEAD '', ascii ''OPTIONS '']"

text \<open>\<open>__builtin_memcmp\<close> may read all of its bytes, then the target follows the method.\<close>

fun http_method_target :: "bytes list \<Rightarrow> bytes \<Rightarrow> u8 option option" where
  "http_method_target [] p = Some None"
| "http_method_target (w # ws) p = do {
     b \<leftarrow> rdn p 0 (length w);
     if b = w then do { t \<leftarrow> rd p (length w); Some (Some t) }
     else http_method_target ws p
   }"

definition is_http_request_buf :: "bytes \<Rightarrow> bool option" where
  "is_http_request_buf p = do {
     t \<leftarrow> http_method_target http_methods p;
     case t of None \<Rightarrow> Some False | Some target \<Rightarrow> Some (is_http_request_target target)
   }"

definition read_request_buf :: "http_info \<Rightarrow> mem \<Rightarrow> u64 \<Rightarrow> u32 \<Rightarrow> http_info" where
  "read_request_buf info m u_buf bytes_len =
     (let n = min (unat bytes_len) FULL_BUF_SIZE
      in info\<lparr>hi_buf := probe_read_z m (unat u_buf) n @ drop n (hi_buf info)\<rparr>)"

subsection \<open>Results\<close>

lemma and_bit5: "(c :: u8) AND 0x20 = (if bit c 5 then 0x20 else 0)"
proof -
  have "c AND push_bit n 1 = (if bit c n then push_bit n 1 else 0)" for n
    by (rule bit_word_eqI) (auto simp: bit_and_iff bit_push_bit_iff bit_1_iff bit_exp_iff)
  from this[of 5] show ?thesis by simp
qed

lemma or_0x20_h: "(c :: u8) OR 0x20 = 0x68 \<longleftrightarrow> c = 0x68 \<or> c = 0x48"
proof
  assume h: "c OR 0x20 = 0x68"
  have split: "x = ((x OR k) AND NOT k) OR (x AND k)" for x k :: u8
    by (rule bit_word_eqI) (auto simp: bit_simps)
  have "c = (0x68 AND NOT 0x20) OR (c AND 0x20)"
    using split[of c "0x20"] h by simp
  then show "c = 0x68 \<or> c = 0x48"
    unfolding and_bit5 by (cases "bit c 5") simp_all
qed auto

lemma method_target:
  assumes "\<forall>w \<in> set ws. length w < length p"
  shows "http_method_target ws p =
    Some (map_option (\<lambda>w. p ! length w) (find (\<lambda>w. take (length w) p = w) ws))"
  using assms by (induction ws) auto

lemma http_methods_prefix_free:
  "u \<in> set http_methods \<Longrightarrow> w \<in> set http_methods \<Longrightarrow> take (length u) p = u \<Longrightarrow> take (length w) p = w \<Longrightarrow> u = w"
proof -
  have d: "distinct (map (take 3) http_methods)" "\<forall>w \<in> set http_methods. 3 \<le> length w"
    by (simp_all add: http_methods_def ascii_def)
  assume a: "u \<in> set http_methods" "w \<in> set http_methods" "take (length u) p = u" "take (length w) p = w"
  have "take 3 u = take 3 p" "take 3 w = take 3 p"
    using a d(2) by (metis min.absorb1 take_take)+
  then show "u = w"
    using a(1,2) d(1) by (auto simp: distinct_map inj_on_def)
qed

text \<open>
  C38: A buffer of at least nine bytes is read in bounds and recognised as a request exactly when it
  starts with one of the seven methods, a space, and a target that begins with a slash or an h of
  either case.
\<close>

theorem is_http_request_buf_spec:
  assumes "9 \<le> length p"
  shows "is_http_request_buf p = Some (\<exists>w \<in> set http_methods.
    take (length w) p = w \<and> (p ! length w = 0x2f \<or> p ! length w = 0x68 \<or> p ! length w = 0x48))"
proof -
  have tgt: "is_http_request_target c \<longleftrightarrow> c = 0x2f \<or> c = 0x68 \<or> c = 0x48" for c
    by (auto simp: is_http_request_target_def or_0x20_h)
  have len: "\<forall>w \<in> set http_methods. length w < length p"
    using assms by (auto simp: http_methods_def ascii_def)
  show ?thesis
  proof (cases "find (\<lambda>w. take (length w) p = w) http_methods")
    case None
    then have "\<forall>w \<in> set http_methods. take (length w) p \<noteq> w" by (auto simp: find_None_iff)
    then have "(\<exists>w \<in> set http_methods. take (length w) p = w \<and>
      (p ! length w = 0x2f \<or> p ! length w = 0x68 \<or> p ! length w = 0x48)) = False" by blast
    moreover have "is_http_request_buf p = Some False"
      using None method_target[OF len] by (simp add: is_http_request_buf_def)
    ultimately show ?thesis by (simp only:)
  next
    case (Some w)
    then have w: "w \<in> set http_methods" "take (length w) p = w" by (auto simp: find_Some_iff)
    then have "(\<exists>u \<in> set http_methods. take (length u) p = u \<and> P u) = P w" for P
      using http_methods_prefix_free[OF _ w(1) _ w(2)] by blast
    note ex = this[of "\<lambda>u. p ! length u = 0x2f \<or> p ! length u = 0x68 \<or> p ! length u = 0x48"]
    show ?thesis
      unfolding ex using Some method_target[OF len] by (simp add: is_http_request_buf_def tgt)
  qed
qed

theorem is_http_request_buf_spec_witness:
  "is_http_request_buf (ascii ''GET /index'') = Some True"
proof -
  let ?p = "ascii ''GET /index''" and ?w = "ascii ''GET ''"
  have "9 \<le> length ?p" by (simp add: ascii_def)
  note spec = is_http_request_buf_spec[OF this]
  have "?w \<in> set http_methods" by (simp add: http_methods_def)
  moreover have "take (length ?w) ?p = ?w" "?p ! length ?w = 0x2f" by (simp_all add: ascii_def)
  ultimately have "(\<exists>w \<in> set http_methods. take (length w) ?p = w \<and>
      (?p ! length w = 0x2f \<or> ?p ! length w = 0x68 \<or> ?p ! length w = 0x48)) = True"
    by blast
  then show ?thesis unfolding spec by (simp only:)
qed

definition sample_http_info :: http_info where
  "sample_http_info = \<lparr>hi_flags = 0, hi_type = k_event_type_http_client, hi_ssl = 0, hi_delayed = 0,
     hi_conn_info = sample_conn, hi_start_monotime_ns = 5, hi_end_monotime_ns = 0, hi_req_monotime_ns = 5,
     hi_extra_id = 0, hi_response_bytes_at_request = 0,
     hi_tp = \<lparr>tp_trace_id = replicate 16 1, tp_span_id = replicate 8 2, tp_parent_id = replicate 8 0, tp_ts = 5, tp_flags = 1\<rparr>,
     hi_pid = \<lparr>pi_host_pid = 9, pi_user_pid = 9, pi_ns = 0\<rparr>, hi_len = 0, hi_resp_len = 0, hi_task_tid = 9,
     hi_lb_req_bytes = 0, hi_lb_res_bytes = 0, hi_status = 0, hi_buf = replicate FULL_BUF_SIZE 0,
     hi_has_large_buffers = 0, hi_direction = TCP_SEND, hi_submitted = 0, hi_parent_status = k_parent_status_none,
     hi_event_source = 0, hi_response_observation = http_response_parsed\<rparr>"

end
