(* ===== verification/Trace_State.thy ===== *)
theory Trace_State
  imports Http_Info
begin

section \<open>Trace context: maps, sampling, new traces\<close>

text \<open>
  The state the propagation of trace context works on, and its basic operations: the connection
  keyed trace map of \<open>bpf/common/tracing.h\<close>, the validity and time tests and the fresh contexts of
  \<open>bpf/common/trace_helpers.h\<close>, the sampler of \<open>bpf/common/sampler.h\<close> and \<open>bpf/common/sampling.h\<close>, the
  thread context of \<open>bpf/shared/obi_ctx.h\<close>, and the runtime identifiers of \<open>bpf/common/runtime.h\<close>
  and \<open>bpf/maps/java_vt_threads.h\<close>.

  Maps written by the operations of this part of the program are fields of \<open>trace_maps\<close>; maps the
  language probes fill and these operations only read are fields of \<open>runtime_maps\<close>. A pointer into
  a map value is a \<open>tp_ref\<close>. The random words and the clock are streams, read at the positions
  \<open>rnd_pos\<close> and \<open>clk_pos\<close>.
\<close>

unbundle bit_operations_syntax

subsection \<open>Data\<close>

definition TRACE_TYPE_SERVER :: u32 where "TRACE_TYPE_SERVER = 1"
definition TRACE_TYPE_CLIENT :: u32 where "TRACE_TYPE_CLIENT = 2"
definition NANOSECONDS_PER_EPOCH :: u64 where "NANOSECONDS_PER_EPOCH = 15 * 1000000000"
definition NANOSECONDS_PER_IMM_EPOCH :: u64 where "NANOSECONDS_PER_IMM_EPOCH = 100000000"
definition JAVA_VT_TID_FLAG :: u32 where "JAVA_VT_TID_FLAG = 0x80000000"
definition k_lw_thread_none :: u64 where "k_lw_thread_none = 0"

record trace_map_key =
  tmk_conn :: connection_info
  tmk_type :: u32

record trace_key =
  trk_extra_id :: u64
  trk_p_key :: pid_key

record obi_ctx_info =
  oc_trace_id :: bytes
  oc_span_id :: bytes

record sampler =
  sm_threshold :: u64
  sm_parent_based :: u8

record go_addr_key =
  ga_pid :: u64
  ga_addr :: u64

record goroutine_metadata =
  gm_parent :: go_addr_key
  gm_timestamp :: u64

record puma_task_id =
  pt_item :: u64
  pt_pid :: u32

record fd_key =
  fk_pid_tgid :: u64
  fk_fd :: u32

record python_addr_key =
  pa_pid :: u64
  pa_addr :: u64

record python_task_ref =
  pr_addr :: u64
  pr_generation :: u64

record python_task_state =
  ps_parent :: python_task_ref
  ps_generation :: u64
  ps_conn :: connection_info_part

record python_thread_state =
  pth_current_task :: u64
  pth_current_context :: u64
  pth_inflight_task :: u64
  pth_start_monotime_ns :: u64

record python_context_task =
  pct_task :: python_task_ref
  pct_vars :: u64

record cp_support_data =
  cp_t_key :: trace_key
  cp_ts :: u64
  cp_real_client :: u8
  cp_established :: u8
  cp_failed :: u8

record http2_conn_info_data =
  hc_id :: u64
  hc_flags :: u8
  hc_req_hpack_poisoned :: u8
  hc_resp_hpack_poisoned :: u8

record http_server_trace_key =
  hk_trace_id :: bytes
  hk_pid :: u32

record http_server_trace_ref =
  hr_stream :: http2_conn_stream
  hr_span_id :: bytes
  hr_ambiguous :: u32

record http_server_connection =
  hsc_conn :: connection_info
  hsc_net_conn :: u64

record sql_func_invocation =
  sq_start_monotime_ns :: u64
  sq_sql_param :: u64
  sq_query_len :: u64
  sq_driver_conn_ptr :: u64
  sq_tp :: tp_info
  sq_conn :: connection_info

record trace_maps =
  trace_map :: "trace_map_key \<rightharpoonup> tp_info_pid"
  server_traces :: "trace_key \<rightharpoonup> tp_info_pid"
  server_traces_aux :: "connection_info_part \<rightharpoonup> tp_info_pid"
  incoming_trace_map :: "connection_info \<rightharpoonup> tp_info_pid"
  outgoing_trace_map :: "egress_key \<rightharpoonup> tp_info_pid"
  cp_support_connect_info :: "pid_connection_info \<rightharpoonup> cp_support_data"
  traces_ctx_v1 :: "u64 \<rightharpoonup> obi_ctx_info"
  go_trace_map :: "go_addr_key \<rightharpoonup> tp_info"
  http_server_trace_index :: "http_server_trace_key \<rightharpoonup> http_server_trace_ref"
  tp_info_backup :: tp_info_pid
  rnd_pos :: nat
  clk_pos :: nat

record runtime_maps =
  java_vt_threads :: "pid_key \<rightharpoonup> u64"
  java_tasks :: "pid_key \<rightharpoonup> pid_key"
  clone_map :: "pid_key \<rightharpoonup> pid_key"
  active_unix_socks :: "u64 \<rightharpoonup> u32"
  ongoing_goroutines :: "go_addr_key \<rightharpoonup> goroutine_metadata"
  fd_infos :: fd_map
  nginx_upstream :: "fd_info \<rightharpoonup> connection_info_part"
  puma_worker_tasks :: "u64 \<rightharpoonup> puma_task_id"
  puma_task_connections :: "puma_task_id \<rightharpoonup> connection_info_part"
  nodejs_fd_map :: "u64 \<rightharpoonup> u32"
  fd_to_connection :: "fd_key \<rightharpoonup> connection_info"
  python_threads :: "u64 \<rightharpoonup> python_thread_state"
  python_tasks :: "python_addr_key \<rightharpoonup> python_task_state"
  python_contexts :: "python_addr_key \<rightharpoonup> python_context_task"
  node_manual_ctx_shadow :: "u64 \<rightharpoonup> obi_ctx_info"
  pid_samplers :: "pid_info \<rightharpoonup> sampler"
  ongoing_http :: "pid_connection_info \<rightharpoonup> http_info"
  ongoing_http2_grpc :: "http2_conn_stream \<rightharpoonup> http2_grpc_request"
  ongoing_http2_connections :: "pid_connection_info \<rightharpoonup> http2_conn_info_data"
  ongoing_server_connections :: "go_addr_key \<rightharpoonup> http_server_connection"
  ongoing_sql_queries :: "go_addr_key \<rightharpoonup> sql_func_invocation"

text \<open>What one invocation gets from the helpers, and the constants set when the program is loaded.\<close>

record trace_env =
  en_pid_tgid :: u64
  en_task :: pid_env
  en_mem :: mem
  en_rnd :: rng
  en_clock :: "nat \<Rightarrow> u64"
  en_backup_mem :: bool

record trace_cfg =
  max_transaction_time :: u64
  high_request_volume :: u32
  disable_black_box_cp :: u32
  g_traces_ctx_v1_enabled :: u32

text \<open>Pointers to a \<open>tp_info_pid_t\<close> kept in a map or in the per-CPU backup scratch.\<close>

datatype tp_ref =
  RefServer trace_key | RefAux connection_info_part | RefTrace trace_map_key | RefBackup

fun deref :: "trace_maps \<Rightarrow> tp_ref \<Rightarrow> tp_info_pid option" where
  "deref st (RefServer k) = server_traces st k"
| "deref st (RefAux k) = server_traces_aux st k"
| "deref st (RefTrace k) = trace_map st k"
| "deref st RefBackup = Some (tp_info_backup st)"

fun store :: "tp_ref \<Rightarrow> tp_info_pid \<Rightarrow> trace_maps \<Rightarrow> trace_maps" where
  "store (RefServer k) v st = st\<lparr>server_traces := (server_traces st)(k \<mapsto> v)\<rparr>"
| "store (RefAux k) v st = st\<lparr>server_traces_aux := (server_traces_aux st)(k \<mapsto> v)\<rparr>"
| "store (RefTrace k) v st = st\<lparr>trace_map := (trace_map st)(k \<mapsto> v)\<rparr>"
| "store RefBackup v st = st\<lparr>tp_info_backup := v\<rparr>"

text \<open>A lookup that gives a pointer: the reference when the entry is there.\<close>

definition look :: "trace_maps \<Rightarrow> tp_ref \<Rightarrow> tp_ref option" where
  "look st r = (if deref st r = None then None else Some r)"

lemma deref_store [simp]: "deref (store r v st) r = Some v"
  by (cases r) simp_all

lemma deref_store_other: "r \<noteq> s \<Longrightarrow> deref (store r v st) s = deref st s"
  by (cases r; cases s) simp_all

definition read_clock :: "trace_env \<Rightarrow> trace_maps \<Rightarrow> u64 \<times> trace_maps" where
  "read_clock e st = (en_clock e (clk_pos st), st\<lparr>clk_pos := Suc (clk_pos st)\<rparr>)"

definition read_urand :: "trace_env \<Rightarrow> nat \<Rightarrow> trace_maps \<Rightarrow> bytes \<times> trace_maps" where
  "read_urand e n st = (case urand_bytes (en_rnd e) (rnd_pos st) n of (bs, p) \<Rightarrow> (bs, st\<lparr>rnd_pos := p\<rparr>))"

subsection \<open>Thread identity\<close>

definition extra_runtime_id_with_task_id :: "runtime_maps \<Rightarrow> u64 \<Rightarrow> u64" where
  "extra_runtime_id_with_task_id rt i =
     (case active_unix_socks rt i of None \<Rightarrow> 0 | Some inode_num \<Rightarrow> ucast inode_num)"

definition extra_runtime_id :: "trace_env \<Rightarrow> runtime_maps \<Rightarrow> u64" where
  "extra_runtime_id e rt = extra_runtime_id_with_task_id rt (en_pid_tgid e)"

definition java_vt_translate_tid :: "runtime_maps \<Rightarrow> pid_key \<Rightarrow> bool \<times> pid_key" where
  "java_vt_translate_tid rt p_key = (case java_vt_threads rt p_key of
     None \<Rightarrow> (False, p_key)
   | Some vt_id \<Rightarrow> (True, p_key\<lparr>pk_tid := JAVA_VT_TID_FLAG OR (ucast vt_id AND NOT JAVA_VT_TID_FLAG)\<rparr>))"

definition java_vt_mounted :: "trace_env \<Rightarrow> runtime_maps \<Rightarrow> bool" where
  "java_vt_mounted e rt = (java_vt_threads rt (task_tid (en_task e)) \<noteq> None)"

definition go_addr_key_from_id_and_pid :: "u64 \<Rightarrow> u32 \<Rightarrow> go_addr_key" where
  "go_addr_key_from_id_and_pid addr pid = \<lparr>ga_pid = ucast pid, ga_addr = addr\<rparr>"

definition go_addr_key_from_id :: "trace_env \<Rightarrow> u64 \<Rightarrow> go_addr_key" where
  "go_addr_key_from_id e addr = go_addr_key_from_id_and_pid addr (pid_from_pid_tgid (en_pid_tgid e))"

subsection \<open>Thread context\<close>

definition obi_ctx_get :: "u64 \<Rightarrow> trace_maps \<Rightarrow> obi_ctx_info option" where
  "obi_ctx_get i st = traces_ctx_v1 st i"

definition obi_ctx_set :: "trace_cfg \<Rightarrow> u64 \<Rightarrow> tp_info \<Rightarrow> trace_maps \<Rightarrow> trace_maps" where
  "obi_ctx_set cfg i info st =
     (if g_traces_ctx_v1_enabled cfg = 0 then st
      else st\<lparr>traces_ctx_v1 := (traces_ctx_v1 st)(i \<mapsto>
             \<lparr>oc_trace_id = tp_trace_id info, oc_span_id = tp_span_id info\<rparr>)\<rparr>)"

definition obi_ctx_del :: "trace_cfg \<Rightarrow> u64 \<Rightarrow> trace_maps \<Rightarrow> trace_maps" where
  "obi_ctx_del cfg i st =
     (if g_traces_ctx_v1_enabled cfg = 0 then st
      else st\<lparr>traces_ctx_v1 := map_del i (traces_ctx_v1 st)\<rparr>)"

subsection \<open>Sampling\<close>

definition trace_id_ratio_key :: "bytes \<Rightarrow> u64" where
  "trace_id_ratio_key trace_id = drop_bit 1 (be64 (take 8 (drop (TRACE_ID_SIZE_BYTES - 8) trace_id)))"

definition sampler_decision :: "sampler \<Rightarrow> tp_info \<Rightarrow> u8" where
  "sampler_decision s tp = (if trace_id_ratio_key (tp_trace_id tp) < sm_threshold s then k_flag_sampled else 0)"

definition sampler_for_pid :: "runtime_maps \<Rightarrow> pid_info \<Rightarrow> sampler option" where
  "sampler_for_pid rt pid = pid_samplers rt \<lparr>pi_host_pid = 0, pi_user_pid = pi_user_pid pid, pi_ns = pi_ns pid\<rparr>"

definition sample_new_trace_for_pid :: "runtime_maps \<Rightarrow> pid_info \<Rightarrow> tp_info \<Rightarrow> tp_info" where
  "sample_new_trace_for_pid rt pid tp =
     tp\<lparr>tp_flags := (case sampler_for_pid rt pid of None \<Rightarrow> k_flag_sampled | Some s \<Rightarrow> sampler_decision s tp)\<rparr>"

definition sample_new_trace :: "trace_env \<Rightarrow> runtime_maps \<Rightarrow> tp_info \<Rightarrow> tp_info" where
  "sample_new_trace e rt tp = sample_new_trace_for_pid rt (task_pid (en_task e)) tp"

definition sample_remote_child_for_pid :: "runtime_maps \<Rightarrow> pid_info \<Rightarrow> tp_info \<Rightarrow> tp_info" where
  "sample_remote_child_for_pid rt pid tp = (case sampler_for_pid rt pid of
     None \<Rightarrow> tp
   | Some s \<Rightarrow> if sm_parent_based s \<noteq> 0 then tp
       else tp\<lparr>tp_flags := (tp_flags tp AND NOT k_flag_sampled) OR sampler_decision s tp\<rparr>)"

definition sample_remote_child :: "trace_env \<Rightarrow> runtime_maps \<Rightarrow> tp_info \<Rightarrow> tp_info" where
  "sample_remote_child e rt tp = sample_remote_child_for_pid rt (task_pid (en_task e)) tp"

subsection \<open>Tests on contexts and fresh contexts\<close>

text \<open>Offsets of the three fields in a header line.\<close>

definition extract_trace_id :: nat where "extract_trace_id = 13 + 2 + 1"
definition extract_span_id :: nat where "extract_span_id = 13 + 2 + 1 + 32 + 1"
definition extract_flags :: nat where "extract_flags = 13 + 2 + 1 + 32 + 1 + 16 + 1"

definition valid_span :: "bytes \<Rightarrow> bool" where
  "valid_span span_id = ((le_word (take 8 span_id) :: u64) \<noteq> 0)"

definition valid_trace :: "bytes \<Rightarrow> bool" where
  "valid_trace trace_id = ((le_word (take 8 trace_id) :: u64) \<noteq> 0 \<or> (le_word (take 8 (drop 8 trace_id)) :: u64) \<noteq> 0)"

definition should_be_in_same_transaction :: "trace_cfg \<Rightarrow> tp_info \<Rightarrow> tp_info \<Rightarrow> bool" where
  "should_be_in_same_transaction cfg parent_tp child_tp =
     (if tp_ts child_tp < tp_ts parent_tp then False
      else tp_ts child_tp - tp_ts parent_tp < max_transaction_time cfg)"

definition parent_trace_is_stale :: "tp_info \<Rightarrow> tp_info \<Rightarrow> bool" where
  "parent_trace_is_stale parent_tp child_tp = (tp_ts child_tp \<ge> tp_ts parent_tp)"

definition new_trace_id :: "trace_env \<Rightarrow> tp_info \<Rightarrow> trace_maps \<Rightarrow> tp_info \<times> trace_maps" where
  "new_trace_id e tp st = (case read_urand e TRACE_ID_SIZE_BYTES st of (bs, st) \<Rightarrow> (tp\<lparr>tp_trace_id := bs\<rparr>, st))"

definition init_new_trace_for_pid ::
  "trace_env \<Rightarrow> runtime_maps \<Rightarrow> pid_info \<Rightarrow> tp_info \<Rightarrow> trace_maps \<Rightarrow> tp_info \<times> trace_maps" where
  "init_new_trace_for_pid e rt pid tp st =
     (let (tp, st) = new_trace_id e tp st;
          (span, st) = read_urand e SPAN_ID_SIZE_BYTES st;
          tp = tp\<lparr>tp_span_id := span, tp_parent_id := replicate SPAN_ID_SIZE_BYTES 0\<rparr>;
          (now, st) = read_clock e st;
          tp = tp\<lparr>tp_ts := now\<rparr>
      in (sample_new_trace_for_pid rt pid tp, st))"

definition init_new_trace :: "trace_env \<Rightarrow> runtime_maps \<Rightarrow> tp_info \<Rightarrow> trace_maps \<Rightarrow> tp_info \<times> trace_maps" where
  "init_new_trace e rt tp st = init_new_trace_for_pid e rt (task_pid (en_task e)) tp st"

definition clear_upper_trace_id :: "tp_info \<Rightarrow> tp_info" where
  "clear_upper_trace_id tp = tp\<lparr>tp_trace_id := replicate 6 0 @ drop 6 (tp_trace_id tp)\<rparr>"

subsection \<open>The trace map\<close>

definition trace_key_from_conn :: "connection_info \<Rightarrow> u32 \<Rightarrow> trace_map_key" where
  "trace_key_from_conn conn type =
     \<lparr>tmk_conn = conn\<lparr>d_port := 0, d_addr := replicate IP_V6_ADDR_LEN 0\<rparr>, tmk_type = type\<rparr>"

definition trace_info_for_connection :: "connection_info \<Rightarrow> u32 \<Rightarrow> trace_maps \<Rightarrow> tp_ref option" where
  "trace_info_for_connection conn type st = look st (RefTrace (trace_key_from_conn conn type))"

definition set_trace_info_for_connection :: "connection_info \<Rightarrow> u32 \<Rightarrow> tp_info_pid \<Rightarrow> trace_maps \<Rightarrow> trace_maps" where
  "set_trace_info_for_connection conn type info st =
     st\<lparr>trace_map := (trace_map st)(trace_key_from_conn conn type \<mapsto> info)\<rparr>"

definition delete_trace_info_for_connection :: "connection_info \<Rightarrow> u32 \<Rightarrow> trace_maps \<Rightarrow> trace_maps" where
  "delete_trace_info_for_connection conn type st =
     st\<lparr>trace_map := map_del (trace_key_from_conn conn type) (trace_map st)\<rparr>"

definition current_immediate_epoch :: "u64 \<Rightarrow> u64" where
  "current_immediate_epoch ts = (ts div NANOSECONDS_PER_IMM_EPOCH) * NANOSECONDS_PER_IMM_EPOCH"

definition correlated_requests :: "tp_info \<Rightarrow> tp_info_pid option \<Rightarrow> bool" where
  "correlated_requests tp existing_tp = (case existing_tp of
     None \<Rightarrow> False
   | Some x \<Rightarrow> if tp_ts tp \<ge> tp_ts (tpp_tp x) then tp_ts tp - tp_ts (tpp_tp x) < NANOSECONDS_PER_EPOCH else False)"

definition correlated_request_with_current ::
  "trace_env \<Rightarrow> tp_info_pid option \<Rightarrow> trace_maps \<Rightarrow> bool \<times> trace_maps" where
  "correlated_request_with_current e existing_tp st = (case existing_tp of
     None \<Rightarrow> (False, st)
   | Some x \<Rightarrow> (case read_clock e st of (ts, st) \<Rightarrow>
       (if ts \<ge> tp_ts (tpp_tp x) then ts - tp_ts (tpp_tp x) < NANOSECONDS_PER_EPOCH else False, st)))"

subsection \<open>Results\<close>

lemma be_nat_zero: "be_nat bs = 0 \<longleftrightarrow> (\<forall>b \<in> set bs. b = 0)"
  by (induction bs rule: rev_induct) (auto simp: unat_eq_0)

lemma le_word_zero: "length bs \<le> 8 \<Longrightarrow> (le_word bs :: u64) = 0 \<longleftrightarrow> (\<forall>b \<in> set bs. b = 0)"
  using unat_be_word[of "rev bs", where 'a = 64] be_nat_zero[of "rev bs"]
  by (simp add: le_word_def flip: unat_eq_0)

lemma valid_span_iff: "length s = 8 \<Longrightarrow> valid_span s \<longleftrightarrow> (\<exists>b \<in> set s. b \<noteq> 0)"
  by (simp add: valid_span_def le_word_zero)

lemma valid_trace_iff: "length t = 16 \<Longrightarrow> valid_trace t \<longleftrightarrow> (\<exists>b \<in> set t. b \<noteq> 0)"
proof -
  assume l: "length t = 16"
  have "set t = set (take 8 t) \<union> set (drop 8 t)" by (metis append_take_drop_id set_append)
  then show ?thesis using l by (auto simp: valid_trace_def le_word_zero)
qed

lemma urand_words_length: "length (urand_words rnd p n) = 4 * n"
  by (induction n arbitrary: p) simp_all

lemma read_urand_length: "read_urand e (4 * n) st = (bs, st') \<Longrightarrow> length bs = 4 * n"
  by (auto simp: read_urand_def urand_bytes_def urand_words_length Let_def)

lemma ratio_key:
  assumes "length t = 16"
  shows "unat (trace_id_ratio_key t) = be_nat (drop 8 t) div 2"
proof -
  have "unat (drop_bit 1 w) = unat w div 2" for w :: u64
    by (simp add: drop_bit_eq_div unat_div)
  then show ?thesis
    using assms unat_be_word[of "drop 8 t", where 'a = 64]
    by (simp add: trace_id_ratio_key_def TRACE_ID_SIZE_BYTES_def)
qed

text \<open>
  C39: Sampling follows the ratio of the trace id alone. A new trace is sampled exactly when its process
  has no sampler or when half the number in the last eight bytes of its trace id is below the
  sampler's threshold, and no other flag is set. A trace continued from another process keeps all its
  flags when the process has no sampler or a parent based one; otherwise its sampled bit is the
  sampler's own decision and the other seven bits stay. So two processes with one threshold decide
  alike for one trace, and raising the threshold only adds traces.
\<close>

theorem sampling_ratio:
  assumes "length (tp_trace_id tp) = 16"
  shows "sample_new_trace_for_pid rt pid tp =
      tp\<lparr>tp_flags := (if (case sampler_for_pid rt pid of None \<Rightarrow> True
           | Some s \<Rightarrow> be_nat (drop 8 (tp_trace_id tp)) div 2 < unat (sm_threshold s)) then 1 else 0)\<rparr> \<and>
    sample_remote_child_for_pid rt pid tp =
      tp\<lparr>tp_flags := tp_flags (sample_remote_child_for_pid rt pid tp)\<rparr> \<and>
    (\<forall>k. bit (tp_flags (sample_remote_child_for_pid rt pid tp)) k \<longleftrightarrow>
      (case sampler_for_pid rt pid of None \<Rightarrow> bit (tp_flags tp) k
       | Some s \<Rightarrow> if sm_parent_based s \<noteq> 0 \<or> k \<noteq> 0 then bit (tp_flags tp) k
           else be_nat (drop 8 (tp_trace_id tp)) div 2 < unat (sm_threshold s)))"
proof -
  define D where "D s = (be_nat (drop 8 (tp_trace_id tp)) div 2 < unat (sm_threshold s))" for s :: sampler
  have d: "sampler_decision s tp = (if D s then k_flag_sampled else 0)" for s
    by (simp add: sampler_decision_def word_less_nat_alt ratio_key[OF assms] D_def)
  have b: "bit (f AND NOT k_flag_sampled OR (if D s then k_flag_sampled else 0)) k \<longleftrightarrow>
      (if k \<noteq> 0 then bit f k else D s)" for f s k
    unfolding k_flag_sampled_def
    by (cases "k < 8") (auto simp: bit_or_iff bit_and_iff bit_not_iff bit_1_iff dest: bit_imp_le_length)
  have "sample_new_trace_for_pid rt pid tp =
      tp\<lparr>tp_flags := (if (case sampler_for_pid rt pid of None \<Rightarrow> True | Some s \<Rightarrow> D s) then 1 else 0)\<rparr>"
    by (simp add: sample_new_trace_for_pid_def d k_flag_sampled_def split: option.split)
  moreover have "sample_remote_child_for_pid rt pid tp =
      tp\<lparr>tp_flags := tp_flags (sample_remote_child_for_pid rt pid tp)\<rparr>"
    by (simp add: sample_remote_child_for_pid_def split: option.split)
  moreover have "bit (tp_flags (sample_remote_child_for_pid rt pid tp)) k \<longleftrightarrow>
      (case sampler_for_pid rt pid of None \<Rightarrow> bit (tp_flags tp) k
       | Some s \<Rightarrow> if sm_parent_based s \<noteq> 0 \<or> k \<noteq> 0 then bit (tp_flags tp) k else D s)" for k
    by (simp add: sample_remote_child_for_pid_def d b split: option.split)
  ultimately show ?thesis unfolding D_def by blast
qed

definition empty_runtime :: runtime_maps where
  "empty_runtime = \<lparr>java_vt_threads = Map.empty, java_tasks = Map.empty, clone_map = Map.empty,
     active_unix_socks = Map.empty, ongoing_goroutines = Map.empty, fd_infos = Map.empty, nginx_upstream = Map.empty,
     puma_worker_tasks = Map.empty, puma_task_connections = Map.empty, nodejs_fd_map = Map.empty,
     fd_to_connection = Map.empty, python_threads = Map.empty, python_tasks = Map.empty, python_contexts = Map.empty,
     node_manual_ctx_shadow = Map.empty, pid_samplers = Map.empty, ongoing_http = Map.empty,
     ongoing_http2_grpc = Map.empty, ongoing_http2_connections = Map.empty,
     ongoing_server_connections = Map.empty, ongoing_sql_queries = Map.empty\<rparr>"

definition sample_tp_info :: tp_info where
  "sample_tp_info = \<lparr>tp_trace_id = replicate 16 1, tp_span_id = replicate 8 2, tp_parent_id = replicate 8 0,
     tp_ts = 5, tp_flags = 3\<rparr>"

theorem sampling_ratio_witness:
  "tp_flags (sample_new_trace_for_pid empty_runtime \<lparr>pi_host_pid = 9, pi_user_pid = 9, pi_ns = 0\<rparr> sample_tp_info) = 1"
proof -
  have "length (tp_trace_id sample_tp_info) = 16" by (simp add: sample_tp_info_def)
  then show ?thesis
    using sampling_ratio[of sample_tp_info empty_runtime "\<lparr>pi_host_pid = 9, pi_user_pid = 9, pi_ns = 0\<rparr>"]
    by (simp add: sampler_for_pid_def empty_runtime_def)
qed

text \<open>A fresh context has the sizes of its arrays, no parent, and at most the sampled flag.\<close>

lemma init_new_trace_wf:
  assumes "init_new_trace_for_pid e rt pid tp st = (tp', st')"
  shows "tp_wf tp'" "tp_parent_id tp' = replicate SPAN_ID_SIZE_BYTES 0" "tp_flags tp' \<in> {0, 1}"
    "tp_ts tp' = en_clock e (clk_pos st)"
proof -
  obtain t st1 where t: "read_urand e (4 * 4) st = (t, st1)" by force
  obtain s st2 where s: "read_urand e (4 * 2) st1 = (s, st2)" by force
  have c: "clk_pos st2 = clk_pos st"
    using t s by (auto simp: read_urand_def split: prod.splits)
  have "tp' = sample_new_trace_for_pid rt pid
      (tp\<lparr>tp_trace_id := t, tp_span_id := s, tp_parent_id := replicate SPAN_ID_SIZE_BYTES 0,
         tp_ts := en_clock e (clk_pos st)\<rparr>)"
    using assms t s c
    by (simp add: init_new_trace_for_pid_def new_trace_id_def TRACE_ID_SIZE_BYTES_def SPAN_ID_SIZE_BYTES_def
        read_clock_def Let_def)
  then show "tp_wf tp'" "tp_parent_id tp' = replicate SPAN_ID_SIZE_BYTES 0" "tp_flags tp' \<in> {0, 1}"
    "tp_ts tp' = en_clock e (clk_pos st)"
    using read_urand_length[OF t] read_urand_length[OF s]
    by (auto simp: sample_new_trace_for_pid_def sampler_decision_def k_flag_sampled_def tp_wf_def
        TRACE_ID_SIZE_BYTES_def SPAN_ID_SIZE_BYTES_def split: option.split)
qed

text \<open>The trace map: what is stored for one tuple is found from every tuple with the same source.\<close>

lemma trace_map_lookup:
  "deref (set_trace_info_for_connection conn type v st) (RefTrace (trace_key_from_conn conn' type')) =
     (if s_addr conn' = s_addr conn \<and> s_port conn' = s_port conn \<and> type' = type then Some v
      else trace_map st (trace_key_from_conn conn' type'))"
  by (cases conn; cases conn') (auto simp: set_trace_info_for_connection_def trace_key_from_conn_def)

end
