(* ===== verification/Trace_Parent.thy ===== *)
theory Trace_Parent
  imports Trace_State
begin

section \<open>Finding the parent of a client request\<close>

text \<open>
  Models \<open>bpf/common/python_task.h\<close>, \<open>bpf/common/http_trace_parent.h\<close>, \<open>bpf/common/trace_parent.h\<close> and
  the goroutine lookup of \<open>bpf/gotracer/go_common.h\<close>. A lookup returns a reference to the server
  context it found; the walks over threads, goroutines and Python tasks keep the depth bounds of the
  code. A lookup that uses the per-CPU backup scratch returns the updated state.
\<close>

unbundle bit_operations_syntax

subsection \<open>Python tasks\<close>

definition k_python_context_vars_offset :: u64 where "k_python_context_vars_offset = 16 + 8"

definition read_python_context_vars :: "trace_env \<Rightarrow> u64 \<Rightarrow> u64" where
  "read_python_context_vars e context =
     le_word (probe_read_z (en_mem e) (unat (context + k_python_context_vars_offset)) 8)"

definition python_addr_key :: "u64 \<Rightarrow> u64 \<Rightarrow> python_addr_key" where
  "python_addr_key pid_tgid addr = \<lparr>pa_pid = ucast (pid_from_pid_tgid pid_tgid), pa_addr = addr\<rparr>"

definition resolve_python_task_ref :: "runtime_maps \<Rightarrow> u64 \<Rightarrow> u64 \<Rightarrow> python_task_ref option" where
  "resolve_python_task_ref rt pid_tgid task =
     (if task = 0 then None
      else case python_tasks rt (python_addr_key pid_tgid task) of None \<Rightarrow> None
        | Some s \<Rightarrow> if ps_generation s = 0 then None
            else Some \<lparr>pr_addr = task, pr_generation = ps_generation s\<rparr>)"

text \<open>
  The entry is looked up again after the copy, because another CPU may replace it meanwhile: the
  three arguments are what the first lookup, the copy and the second lookup see.
\<close>

definition copy_python_task_state_seen ::
  "python_task_ref \<Rightarrow> python_task_state option \<Rightarrow> python_task_state \<Rightarrow> python_task_state option \<Rightarrow> python_task_state option" where
  "copy_python_task_state_seen r first copied second =
     (if pr_addr r = 0 \<or> pr_generation r = 0 then None
      else case first of None \<Rightarrow> None
      | Some s \<Rightarrow> if ps_generation s \<noteq> pr_generation r then None
          else case second of None \<Rightarrow> None
          | Some s' \<Rightarrow> if ps_generation s' \<noteq> pr_generation r \<or> ps_generation copied \<noteq> pr_generation r then None
              else Some copied)"

definition copy_python_task_state :: "runtime_maps \<Rightarrow> u64 \<Rightarrow> python_task_ref \<Rightarrow> python_task_state option" where
  "copy_python_task_state rt pid_tgid r =
     (case python_tasks rt (python_addr_key pid_tgid (pr_addr r)) of None \<Rightarrow> None
      | Some s \<Rightarrow> copy_python_task_state_seen r (Some s) s (Some s))"

definition allocate_python_task_generation :: "u64 option \<Rightarrow> u64 \<times> u64 option" where
  "allocate_python_task_generation counter = (case counter of None \<Rightarrow> (0, None) | Some c \<Rightarrow> (c + 1, Some (c + 1)))"

datatype python_task_resolution = PYTHON_TASK_NOT_FOUND | PYTHON_TASK_RESOLVED | PYTHON_TASK_STALE

definition resolve_python_context_task :: "runtime_maps \<Rightarrow> u64 \<Rightarrow> python_context_task option \<Rightarrow> python_task_ref option" where
  "resolve_python_context_task rt pid_tgid context_task = (case context_task of None \<Rightarrow> None
     | Some c \<Rightarrow> if pr_addr (pct_task c) = 0 then None
         else case copy_python_task_state rt pid_tgid (pct_task c) of None \<Rightarrow> None | Some _ \<Rightarrow> Some (pct_task c))"

definition resolve_python_task_from_context ::
  "trace_env \<Rightarrow> runtime_maps \<Rightarrow> u64 \<Rightarrow> u64 \<Rightarrow> python_task_resolution \<times> python_task_ref option" where
  "resolve_python_task_from_context e rt pid_tgid context =
     (if context = 0 then (PYTHON_TASK_NOT_FOUND, None)
      else case python_contexts rt (python_addr_key pid_tgid context) of None \<Rightarrow> (PYTHON_TASK_STALE, None)
      | Some c \<Rightarrow>
          if pct_vars c \<noteq> read_python_context_vars e context then (PYTHON_TASK_STALE, None)
          else if pr_addr (pct_task c) = 0 \<and> pr_generation (pct_task c) = 0 then (PYTHON_TASK_NOT_FOUND, None)
          else case resolve_python_context_task rt pid_tgid (Some c) of None \<Rightarrow> (PYTHON_TASK_STALE, None)
               | Some r \<Rightarrow> (PYTHON_TASK_RESOLVED, Some r))"

fun owning_walk :: "nat \<Rightarrow> runtime_maps \<Rightarrow> trace_maps \<Rightarrow> u64 \<Rightarrow> python_task_ref \<Rightarrow> tp_ref option \<times> python_task_resolution" where
  "owning_walk 0 rt st pid_tgid r = (None, PYTHON_TASK_NOT_FOUND)"
| "owning_walk (Suc n) rt st pid_tgid r =
     (case copy_python_task_state rt pid_tgid r of None \<Rightarrow> (None, PYTHON_TASK_STALE)
      | Some s \<Rightarrow>
          if cp_port (ps_conn s) \<noteq> 0 \<and> look st (RefAux (ps_conn s)) \<noteq> None
          then (Some (RefAux (ps_conn s)), PYTHON_TASK_RESOLVED)
          else if pr_addr (ps_parent s) = 0 then (None, PYTHON_TASK_NOT_FOUND)
          else owning_walk n rt st pid_tgid (ps_parent s))"

definition find_python_owning_server_trace ::
  "runtime_maps \<Rightarrow> trace_maps \<Rightarrow> u64 \<Rightarrow> python_task_ref \<Rightarrow> tp_ref option \<times> python_task_resolution" where
  "find_python_owning_server_trace rt st pid_tgid r = owning_walk 4 rt st pid_tgid r"

subsection \<open>Server requests indexed by trace\<close>

definition http_server_trace_key :: "u32 \<Rightarrow> bytes \<Rightarrow> http_server_trace_key" where
  "http_server_trace_key pid trace_id = \<lparr>hk_trace_id = trace_id, hk_pid = pid\<rparr>"

definition indexes_request :: "http_server_trace_ref \<Rightarrow> bytes \<Rightarrow> bool" where
  "indexes_request ref span_id = (hr_span_id ref = span_id)"

definition indexed_server_tp :: "runtime_maps \<Rightarrow> http_server_trace_ref \<Rightarrow> tp_info option" where
  "indexed_server_tp rt ref = do {
     tp \<leftarrow> (if hs_stream_id (hr_stream ref) \<noteq> 0 then
              case (ongoing_http2_grpc rt (hr_stream ref), ongoing_http2_connections rt (hs_pid_conn (hr_stream ref))) of
                (Some server, Some conn) \<Rightarrow>
                  if h2r_new_conn_id server \<noteq> hc_id conn \<or> h2r_type server \<noteq> k_event_type_http_request \<or>
                     h2r_end_monotime_ns server \<noteq> 0 \<or> h2r_start_monotime_ns server = 0
                  then None else Some (h2r_tp server)
              | _ \<Rightarrow> None
            else case ongoing_http rt (hs_pid_conn (hr_stream ref)) of None \<Rightarrow> None
              | Some server \<Rightarrow>
                  if hi_type server \<noteq> k_event_type_http_request \<or> hi_submitted server \<noteq> 0 \<or> \<not> still_reading server
                  then None else Some (hi_tp server));
     if \<not> indexes_request ref (tp_span_id tp) then None else Some tp
   }"

definition index_http_server_context :: "runtime_maps \<Rightarrow> http2_conn_stream \<Rightarrow> tp_info \<Rightarrow> trace_maps \<Rightarrow> trace_maps" where
  "index_http_server_context rt stream tp st =
     (if \<not> valid_trace (tp_trace_id tp) \<or> \<not> valid_span (tp_span_id tp) then st
      else let key = http_server_trace_key (pc_pid (hs_pid_conn stream)) (tp_trace_id tp);
               ref = \<lparr>hr_stream = stream, hr_span_id = tp_span_id tp, hr_ambiguous = 0\<rparr>
           in case http_server_trace_index st key of
                None \<Rightarrow> st\<lparr>http_server_trace_index := (http_server_trace_index st)(key \<mapsto> ref)\<rparr>
              | Some existing \<Rightarrow>
                  if indexes_request existing (tp_span_id tp) then st
                  else if hr_ambiguous existing = 0 \<and> indexed_server_tp rt existing = None
                  then st\<lparr>http_server_trace_index := (http_server_trace_index st)(key \<mapsto> ref)\<rparr>
                  else st\<lparr>http_server_trace_index := (http_server_trace_index st)(key \<mapsto> existing\<lparr>hr_ambiguous := 1\<rparr>)\<rparr>)"

definition unindex_http_server_trace :: "u32 \<Rightarrow> tp_info \<Rightarrow> trace_maps \<Rightarrow> trace_maps" where
  "unindex_http_server_trace pid tp st =
     (let key = http_server_trace_key pid (tp_trace_id tp)
      in case http_server_trace_index st key of None \<Rightarrow> st
         | Some ref \<Rightarrow> if hr_ambiguous ref = 0 \<and> indexes_request ref (tp_span_id tp)
             then st\<lparr>http_server_trace_index := map_del key (http_server_trace_index st)\<rparr> else st)"

definition index_http_server_trace :: "runtime_maps \<Rightarrow> pid_connection_info \<Rightarrow> http_info \<Rightarrow> trace_maps \<Rightarrow> trace_maps" where
  "index_http_server_trace rt pid_conn info st =
     (if hi_type info \<noteq> k_event_type_http_request then st
      else index_http_server_context rt \<lparr>hs_pid_conn = pid_conn, hs_stream_id = 0\<rparr> (hi_tp info) st)"

definition find_http_server_trace ::
  "trace_env \<Rightarrow> runtime_maps \<Rightarrow> u32 \<Rightarrow> tp_info \<Rightarrow> trace_maps \<Rightarrow> tp_ref option \<times> trace_maps" where
  "find_http_server_trace e rt pid wire_tp st =
     (case http_server_trace_index st (http_server_trace_key pid (tp_trace_id wire_tp)) of None \<Rightarrow> (None, st)
      | Some ref \<Rightarrow>
          if hr_ambiguous ref \<noteq> 0 then (None, st)
          else case indexed_server_tp rt ref of None \<Rightarrow> (None, st)
          | Some server_tp \<Rightarrow>
              if tp_trace_id server_tp \<noteq> tp_trace_id wire_tp then (None, st)
              else if \<not> en_backup_mem e then (None, st)
              else (Some RefBackup, st\<lparr>tp_info_backup := \<lparr>tpp_tp = server_tp, tpp_pid = pid, tpp_valid = 1,
                     tpp_written = 0, tpp_req_type = k_event_type_http_request, tpp_response_sent = 0\<rparr>\<rparr>))"

subsection \<open>Goroutines\<close>

fun goroutine_walk :: "nat \<Rightarrow> runtime_maps \<Rightarrow> trace_maps \<Rightarrow> go_addr_key \<Rightarrow> u64" where
  "goroutine_walk 0 rt st key = 0"
| "goroutine_walk (Suc n) rt st key =
     (case go_trace_map st key of
        Some _ \<Rightarrow> ga_addr key
      | None \<Rightarrow> (case ongoing_goroutines rt key of None \<Rightarrow> 0 | Some g \<Rightarrow> goroutine_walk n rt st (gm_parent g)))"

definition find_parent_goroutine :: "runtime_maps \<Rightarrow> trace_maps \<Rightarrow> go_addr_key \<Rightarrow> u64" where
  "find_parent_goroutine rt st current = goroutine_walk 6 rt st current"

definition find_parent_goroutine_in_chain :: "runtime_maps \<Rightarrow> go_addr_key \<Rightarrow> u64" where
  "find_parent_goroutine_in_chain rt current =
     (case ongoing_goroutines rt current of None \<Rightarrow> 0 | Some g \<Rightarrow> ga_addr (gm_parent g))"

definition delete_go_trace_info :: "u64 \<Rightarrow> u32 \<Rightarrow> trace_maps \<Rightarrow> trace_maps" where
  "delete_go_trace_info lw_thread pid st =
     st\<lparr>go_trace_map := map_del (go_addr_key_from_id_and_pid lw_thread pid) (go_trace_map st)\<rparr>"

text \<open>The scratch keeps whatever \<open>response_sent\<close> its last user left there.\<close>

definition find_go_parent_trace ::
  "trace_env \<Rightarrow> runtime_maps \<Rightarrow> u64 \<Rightarrow> u32 \<Rightarrow> trace_maps \<Rightarrow> tp_ref option \<times> trace_maps" where
  "find_go_parent_trace e rt lw_thread pid st =
     (let parent_id = find_parent_goroutine rt st (go_addr_key_from_id_and_pid lw_thread pid)
      in if parent_id = 0 then (None, st)
         else case go_trace_map st (go_addr_key_from_id_and_pid parent_id pid) of None \<Rightarrow> (None, st)
         | Some p_inv \<Rightarrow>
             if \<not> en_backup_mem e then (None, st)
             else (Some RefBackup, st\<lparr>tp_info_backup := (tp_info_backup st)\<lparr>tpp_tp := p_inv, tpp_valid := 1,
                    tpp_written := 0, tpp_pid := pid, tpp_req_type := k_event_type_http_request\<rparr>\<rparr>))"

subsection \<open>Candidates and their acceptance\<close>

definition parent_kind :: "trace_cfg \<Rightarrow> tp_info_pid \<Rightarrow> parent_status" where
  "parent_kind cfg server_tp =
     (if tpp_req_type server_tp = k_event_type_tcp_request then k_parent_status_conditional
      else if tpp_response_sent server_tp \<noteq> 0 \<and> high_request_volume cfg = 0 then k_parent_status_conditional
      else k_parent_status_live)"

definition parent_trace_matches :: "trace_cfg \<Rightarrow> trace_maps \<Rightarrow> tp_ref option \<Rightarrow> tp_info option \<Rightarrow> bool" where
  "parent_trace_matches cfg st parent wire_tp = (case parent of None \<Rightarrow> False
     | Some r \<Rightarrow> (case deref st r of None \<Rightarrow> False
         | Some parent_tp \<Rightarrow> (case wire_tp of None \<Rightarrow> True
             | Some w \<Rightarrow>
                 if tpp_valid parent_tp = 0 then False
                 else if tp_trace_id (tpp_tp parent_tp) \<noteq> tp_trace_id w then False
                 else should_be_in_same_transaction cfg (tpp_tp parent_tp) w)))"

definition find_wire_server_parent ::
  "trace_env \<Rightarrow> trace_cfg \<Rightarrow> runtime_maps \<Rightarrow> u32 \<Rightarrow> tp_info \<Rightarrow> trace_maps \<Rightarrow> tp_ref option \<times> trace_maps" where
  "find_wire_server_parent e cfg rt pid wire_tp st =
     (case find_http_server_trace e rt pid wire_tp st of (parent, st) \<Rightarrow>
        (if parent_trace_matches cfg st parent (Some wire_tp) then parent else None, st))"

definition trace_key_from_pid_tid :: "trace_env \<Rightarrow> runtime_maps \<Rightarrow> trace_key" where
  "trace_key_from_pid_tid e rt =
     \<lparr>trk_extra_id = extra_runtime_id e rt, trk_p_key = snd (java_vt_translate_tid rt (task_tid (en_task e)))\<rparr>"

definition trace_key_from_pid_tid_with_p_key :: "runtime_maps \<Rightarrow> pid_key \<Rightarrow> u64 \<Rightarrow> trace_key" where
  "trace_key_from_pid_tid_with_p_key rt p_key i =
     \<lparr>trk_extra_id = extra_runtime_id_with_task_id rt i, trk_p_key = p_key\<rparr>"

definition find_nginx_parent_trace :: "runtime_maps \<Rightarrow> trace_maps \<Rightarrow> pid_connection_info \<Rightarrow> u16 \<Rightarrow> tp_ref option" where
  "find_nginx_parent_trace rt st p_conn orig_dport =
     (let client_part = populate_ephemeral_info empty_part (pc_conn p_conn) orig_dport (pc_pid p_conn) FD_CLIENT
      in case fd_info_for_conn (fd_infos rt) client_part of None \<Rightarrow> None
         | Some fd \<Rightarrow> (case nginx_upstream rt fd of None \<Rightarrow> None | Some parent \<Rightarrow> look st (RefAux parent)))"

definition find_puma_parent_trace :: "runtime_maps \<Rightarrow> trace_maps \<Rightarrow> u64 \<Rightarrow> tp_ref option" where
  "find_puma_parent_trace rt st i = (case puma_worker_tasks rt i of None \<Rightarrow> None
     | Some task_id \<Rightarrow> (case puma_task_connections rt task_id of None \<Rightarrow> None
         | Some conn_part \<Rightarrow> look st (RefAux conn_part)))"

definition find_nodejs_parent_trace :: "runtime_maps \<Rightarrow> trace_maps \<Rightarrow> pid_connection_info \<Rightarrow> u16 \<Rightarrow> u64 \<Rightarrow> tp_ref option" where
  "find_nodejs_parent_trace rt st p_conn orig_dport pid_tgid =
     (let client_part = populate_ephemeral_info empty_part (pc_conn p_conn) orig_dport (pc_pid p_conn) FD_CLIENT
      in case fd_info_for_conn (fd_infos rt) client_part of None \<Rightarrow> None
         | Some fd \<Rightarrow> (case nodejs_fd_map rt (push_bit 32 pid_tgid OR scast (fi_fd fd)) of None \<Rightarrow> None
             | Some parent_fd \<Rightarrow> (case fd_to_connection rt \<lparr>fk_pid_tgid = pid_tgid, fk_fd = parent_fd\<rparr> of None \<Rightarrow> None
                 | Some conn \<Rightarrow> trace_info_for_connection conn TRACE_TYPE_SERVER st)))"

text \<open>
  The loop shared by the two thread searches: the thread's own server request, then that of the
  thread that created it or gave it its task, and so on. The key ends where the search ended.
\<close>

fun thread_walk ::
  "nat \<Rightarrow> (pid_key \<rightharpoonup> pid_key) \<Rightarrow> trace_cfg \<Rightarrow> trace_maps \<Rightarrow> tp_info option \<Rightarrow> trace_key \<Rightarrow> tp_ref option \<times> trace_key" where
  "thread_walk 0 parents cfg st wire_tp t_key = (None, t_key)"
| "thread_walk (Suc n) parents cfg st wire_tp t_key =
     (let server_tp = look st (RefServer t_key)
      in if parent_trace_matches cfg st server_tp wire_tp then (server_tp, t_key)
         else case parents (trk_p_key t_key) of None \<Rightarrow> (None, t_key)
           | Some p_tid \<Rightarrow> thread_walk n parents cfg st wire_tp (t_key\<lparr>trk_p_key := p_tid\<rparr>))"

definition find_parent_process_trace ::
  "trace_cfg \<Rightarrow> runtime_maps \<Rightarrow> trace_maps \<Rightarrow> trace_key \<Rightarrow> tp_info option \<Rightarrow> tp_ref option \<times> trace_key" where
  "find_parent_process_trace cfg rt st t_key wire_tp = thread_walk 5 (clone_map rt) cfg st wire_tp t_key"

definition find_parent_java_trace ::
  "trace_cfg \<Rightarrow> runtime_maps \<Rightarrow> trace_maps \<Rightarrow> trace_key \<Rightarrow> tp_info option \<Rightarrow> tp_ref option \<times> trace_key" where
  "find_parent_java_trace cfg rt st t_key wire_tp = thread_walk 3 (java_tasks rt) cfg st wire_tp t_key"

definition resolve_python_current_task ::
  "trace_env \<Rightarrow> runtime_maps \<Rightarrow> u64 \<Rightarrow> python_task_resolution \<times> python_task_ref option" where
  "resolve_python_current_task e rt pid_tgid = (case python_threads rt pid_tgid of
     None \<Rightarrow> (PYTHON_TASK_NOT_FOUND, None)
   | Some thread_state \<Rightarrow>
       if pth_current_task thread_state \<noteq> 0 then
         (case resolve_python_task_ref rt pid_tgid (pth_current_task thread_state) of
            Some r \<Rightarrow> (PYTHON_TASK_RESOLVED, Some r) | None \<Rightarrow> (PYTHON_TASK_STALE, None))
       else if pth_current_context thread_state = 0 then (PYTHON_TASK_NOT_FOUND, None)
       else resolve_python_task_from_context e rt pid_tgid (pth_current_context thread_state))"

text \<open>The flag says whether the other lookups may still be tried.\<close>

definition find_python_parent_trace ::
  "trace_env \<Rightarrow> runtime_maps \<Rightarrow> trace_maps \<Rightarrow> u64 \<Rightarrow> tp_ref option \<times> bool" where
  "find_python_parent_trace e rt st pid_tgid = (case resolve_python_current_task e rt pid_tgid of
     (PYTHON_TASK_RESOLVED, Some task_ref) \<Rightarrow>
       (case find_python_owning_server_trace rt st pid_tgid task_ref of (server_tp, owning) \<Rightarrow>
          (server_tp, owning \<noteq> PYTHON_TASK_STALE))
   | (task_resolution, _) \<Rightarrow> (None, task_resolution \<noteq> PYTHON_TASK_STALE))"

definition find_cp_support_parent ::
  "trace_cfg \<Rightarrow> trace_maps \<Rightarrow> pid_connection_info \<Rightarrow> tp_info option \<Rightarrow> tp_ref option" where
  "find_cp_support_parent cfg st p_conn wire_tp = (case cp_support_connect_info st p_conn of None \<Rightarrow> None
     | Some conn_t_key \<Rightarrow> let parent = look st (RefServer (cp_t_key conn_t_key))
         in if parent_trace_matches cfg st parent wire_tp then parent else None)"

text \<open>
  The part of the search after the runtime specific lookups: the wire index, the Java threads and
  the process threads, in that order or, for threads with a logical request of their own, with the
  index second; the process search starts from the key where the Java search ended.
\<close>

definition find_thread_parent ::
  "trace_env \<Rightarrow> trace_cfg \<Rightarrow> runtime_maps \<Rightarrow> pid_connection_info \<Rightarrow> trace_key \<Rightarrow> tp_info option \<Rightarrow> trace_maps \<Rightarrow>
     tp_ref option \<times> trace_maps" where
  "find_thread_parent e cfg rt p_conn t_key wire_tp st =
     (let index_first = (wire_tp \<noteq> None \<and> pk_tid (trk_p_key t_key) AND JAVA_VT_TID_FLAG = 0 \<and>
                         java_tasks rt (trk_p_key t_key) = None);
          indexed = (\<lambda>st. case wire_tp of None \<Rightarrow> (None, st)
                       | Some w \<Rightarrow> find_wire_server_parent e cfg rt (pc_pid p_conn) w st);
          (http_parent, st) = (if index_first then indexed st else (None, st))
      in if http_parent \<noteq> None then (http_parent, st)
         else case find_parent_java_trace cfg rt st t_key wire_tp of (java_parent, t_key) \<Rightarrow>
           if java_parent \<noteq> None then (java_parent, st)
           else let (http_parent, st) = (if wire_tp \<noteq> None \<and> \<not> index_first then indexed st else (None, st))
           in if http_parent \<noteq> None then (http_parent, st)
              else case find_parent_process_trace cfg rt st t_key wire_tp of (proc_parent, t_key) \<Rightarrow>
                if proc_parent \<noteq> None then (proc_parent, st)
                else (find_cp_support_parent cfg st p_conn wire_tp, st))"

definition find_parent_trace ::
  "trace_env \<Rightarrow> trace_cfg \<Rightarrow> runtime_maps \<Rightarrow> pid_connection_info \<Rightarrow> u64 \<Rightarrow> u64 \<Rightarrow> trace_key \<Rightarrow> u16 \<Rightarrow>
     tp_info option \<Rightarrow> trace_maps \<Rightarrow> tp_ref option \<times> trace_maps" where
  "find_parent_trace e cfg rt p_conn pid_tgid lw_thread t_key orig_dport wire_tp st =
     (let node_tp = find_nodejs_parent_trace rt st p_conn orig_dport pid_tgid
      in if parent_trace_matches cfg st node_tp wire_tp then (node_tp, st)
      else let (go_parent, st) = (if lw_thread \<noteq> k_lw_thread_none
                 then find_go_parent_trace e rt lw_thread (pid_from_pid_tgid pid_tgid) st else (None, st))
      in if parent_trace_matches cfg st go_parent wire_tp then (go_parent, st)
      else let (python_parent, allow_parent_fallback) = find_python_parent_trace e rt st pid_tgid
      in if \<not> allow_parent_fallback
         then (if parent_trace_matches cfg st python_parent wire_tp then python_parent else None, st)
      else if parent_trace_matches cfg st python_parent wire_tp then (python_parent, st)
      else let nginx_parent = find_nginx_parent_trace rt st p_conn orig_dport
      in if parent_trace_matches cfg st nginx_parent wire_tp then (nginx_parent, st)
      else let puma_parent = find_puma_parent_trace rt st pid_tgid
      in if parent_trace_matches cfg st puma_parent wire_tp then (puma_parent, st)
      else find_thread_parent e cfg rt p_conn t_key wire_tp st)"

definition nodejs_manual_parent_span_id ::
  "runtime_maps \<Rightarrow> trace_maps \<Rightarrow> u64 \<Rightarrow> bytes \<Rightarrow> bytes \<Rightarrow> bool \<times> bytes" where
  "nodejs_manual_parent_span_id rt st pid_tgid trace_id span_id_out =
     (case node_manual_ctx_shadow rt pid_tgid of None \<Rightarrow> (False, span_id_out)
      | Some _ \<Rightarrow> (case traces_ctx_v1 st pid_tgid of None \<Rightarrow> (False, span_id_out)
          | Some live \<Rightarrow> if oc_trace_id live \<noteq> trace_id then (False, span_id_out) else (True, oc_span_id live)))"

subsection \<open>Linking a client request\<close>

definition find_trace_for_client_request_with_t_key ::
  "trace_env \<Rightarrow> trace_cfg \<Rightarrow> runtime_maps \<Rightarrow> pid_connection_info \<Rightarrow> u16 \<Rightarrow> trace_key \<Rightarrow> u64 \<Rightarrow> u64 \<Rightarrow>
     tp_info \<Rightarrow> trace_maps \<Rightarrow> parent_status \<times> tp_info \<times> trace_maps" where
  "find_trace_for_client_request_with_t_key e cfg rt p_conn orig_dport t_key pid_tgid lw_thread tp st =
     (case find_parent_trace e cfg rt p_conn pid_tgid lw_thread t_key orig_dport None st of
        (None, st) \<Rightarrow> (k_parent_status_none, tp, st)
      | (Some r, st) \<Rightarrow> (case deref st r of None \<Rightarrow> (k_parent_status_none, tp, st)
          | Some server_tp \<Rightarrow>
              if tpp_valid server_tp \<noteq> 0 \<and> valid_trace (tp_trace_id (tpp_tp server_tp)) then
                if \<not> should_be_in_same_transaction cfg (tpp_tp server_tp) tp then
                  (k_parent_status_none, tp,
                   if parent_trace_is_stale (tpp_tp server_tp) tp then store r (server_tp\<lparr>tpp_valid := 0\<rparr>) st else st)
                else let tp = tp\<lparr>tp_trace_id := tp_trace_id (tpp_tp server_tp),
                                 tp_parent_id := tp_span_id (tpp_tp server_tp),
                                 tp_flags := tp_flags (tpp_tp server_tp)\<rparr>;
                         (manual, span) = nodejs_manual_parent_span_id rt st pid_tgid (tp_trace_id tp) (tp_parent_id tp);
                         tp = tp\<lparr>tp_parent_id := span\<rparr>
                     in (if manual then k_parent_status_live else parent_kind cfg server_tp, tp, st)
              else (k_parent_status_none, tp, st)))"

definition find_trace_for_client_request ::
  "trace_env \<Rightarrow> trace_cfg \<Rightarrow> runtime_maps \<Rightarrow> pid_connection_info \<Rightarrow> u16 \<Rightarrow> u64 \<Rightarrow> tp_info \<Rightarrow> trace_maps \<Rightarrow>
     parent_status \<times> tp_info \<times> trace_maps" where
  "find_trace_for_client_request e cfg rt p_conn orig_dport lw_thread tp st =
     find_trace_for_client_request_with_t_key e cfg rt p_conn orig_dport (trace_key_from_pid_tid e rt)
       (en_pid_tgid e) lw_thread tp st"

definition find_parent_trace_for_client_request_with_t_key ::
  "trace_env \<Rightarrow> trace_cfg \<Rightarrow> runtime_maps \<Rightarrow> pid_connection_info \<Rightarrow> u16 \<Rightarrow> trace_key \<Rightarrow> u64 \<Rightarrow> u64 \<Rightarrow>
     tp_info \<Rightarrow> tp_info option \<Rightarrow> trace_maps \<Rightarrow> parent_status \<times> tp_info \<times> trace_maps" where
  "find_parent_trace_for_client_request_with_t_key e cfg rt p_conn orig_dport t_key pid_tgid lw_thread tp wire_tp st =
     (case find_parent_trace e cfg rt p_conn pid_tgid lw_thread t_key orig_dport wire_tp st of
        (None, st) \<Rightarrow> (k_parent_status_none, tp, st)
      | (Some r, st) \<Rightarrow> (case deref st r of None \<Rightarrow> (k_parent_status_none, tp, st)
          | Some server_tp \<Rightarrow>
              if tpp_valid server_tp \<noteq> 0 \<and> valid_trace (tp_trace_id (tpp_tp server_tp)) then
                if \<not> should_be_in_same_transaction cfg (tpp_tp server_tp) tp then
                  (k_parent_status_none, tp,
                   if parent_trace_is_stale (tpp_tp server_tp) tp then store r (server_tp\<lparr>tpp_valid := 0\<rparr>) st else st)
                else let tp = tpp_tp server_tp;
                         (manual, span) = nodejs_manual_parent_span_id rt st pid_tgid (tp_trace_id tp) (tp_span_id tp);
                         tp = tp\<lparr>tp_span_id := span\<rparr>
                     in (if manual then k_parent_status_live else parent_kind cfg server_tp, tp, st)
              else (k_parent_status_none, tp, st)))"

definition find_parent_trace_for_client_request ::
  "trace_env \<Rightarrow> trace_cfg \<Rightarrow> runtime_maps \<Rightarrow> pid_connection_info \<Rightarrow> u16 \<Rightarrow> u64 \<Rightarrow> tp_info \<Rightarrow> tp_info option \<Rightarrow>
     trace_maps \<Rightarrow> parent_status \<times> tp_info \<times> trace_maps" where
  "find_parent_trace_for_client_request e cfg rt p_conn orig_dport lw_thread tp wire_tp st =
     find_parent_trace_for_client_request_with_t_key e cfg rt p_conn orig_dport (trace_key_from_pid_tid e rt)
       (en_pid_tgid e) lw_thread tp wire_tp st"

definition find_trace_for_wire_client_request ::
  "trace_env \<Rightarrow> trace_cfg \<Rightarrow> runtime_maps \<Rightarrow> pid_connection_info \<Rightarrow> u16 \<Rightarrow> u64 \<Rightarrow> tp_info \<Rightarrow> trace_maps \<Rightarrow>
     parent_status \<times> tp_info \<times> trace_maps" where
  "find_trace_for_wire_client_request e cfg rt p_conn orig_dport lw_thread wire_tp st =
     (let wire_tp = wire_tp\<lparr>tp_parent_id := replicate SPAN_ID_SIZE_BYTES 0\<rparr>
      in if \<not> valid_trace (tp_trace_id wire_tp) \<or> \<not> valid_span (tp_span_id wire_tp)
         then (k_parent_status_none, wire_tp, st)
         else case find_parent_trace e cfg rt p_conn (en_pid_tgid e) lw_thread (trace_key_from_pid_tid e rt) orig_dport
                (Some wire_tp) st of
           (None, st) \<Rightarrow> (k_parent_status_none, wire_tp, st)
         | (Some r, st) \<Rightarrow> (case deref st r of None \<Rightarrow> (k_parent_status_none, wire_tp, st)
             | Some parent \<Rightarrow>
                 let (span, st) = (if tp_span_id wire_tp = tp_parent_id (tpp_tp parent)
                                   then read_urand e SPAN_ID_SIZE_BYTES st else (tp_span_id wire_tp, st));
                     wire_tp = wire_tp\<lparr>tp_span_id := span, tp_parent_id := tp_span_id (tpp_tp parent)\<rparr>;
                     (manual, pspan) = nodejs_manual_parent_span_id rt st (en_pid_tgid e) (tp_trace_id wire_tp) (tp_parent_id wire_tp);
                     wire_tp = wire_tp\<lparr>tp_parent_id := pspan\<rparr>
                 in (if manual then k_parent_status_live else parent_kind cfg parent, wire_tp, st)))"

subsection \<open>What a search returns\<close>

lemma matches_SomeD:
  assumes "parent_trace_matches cfg st p w"
  obtains r t where "p = Some r" "deref st r = Some t"
    "\<And>x. w = Some x \<Longrightarrow> tpp_valid t \<noteq> 0 \<and> tp_trace_id (tpp_tp t) = tp_trace_id x \<and>
       should_be_in_same_transaction cfg (tpp_tp t) x"
  using assms unfolding parent_trace_matches_def by (auto split: option.splits if_splits)

lemma thread_walk_matches:
  "thread_walk n parents cfg st w k = (Some r, k') \<Longrightarrow> parent_trace_matches cfg st (Some r) w"
  by (induction n arbitrary: k) (auto simp: Let_def split: if_splits option.splits)

lemma wire_server_parent_matches:
  assumes "find_wire_server_parent e cfg rt pid w st = (p, st')"
  shows "(p \<noteq> None \<longrightarrow> parent_trace_matches cfg st' p (Some w)) \<and> (\<exists>b. st' = st\<lparr>tp_info_backup := b\<rparr>)"
proof -
  have "\<exists>b. st = st\<lparr>tp_info_backup := b\<rparr>" by (rule exI[of _ "tp_info_backup st"]) simp
  then show ?thesis
    using assms unfolding find_wire_server_parent_def find_http_server_trace_def
    by (auto split: prod.splits option.splits if_splits)
qed

lemma cp_support_matches:
  "find_cp_support_parent cfg st p_conn w = Some r \<Longrightarrow> parent_trace_matches cfg st (Some r) w"
  by (auto simp: find_cp_support_parent_def Let_def split: option.splits if_splits)

lemma find_thread_parent_matches:
  assumes "find_thread_parent e cfg rt p_conn t_key w st = (p, st')"
  shows "(p \<noteq> None \<longrightarrow> parent_trace_matches cfg st' p w) \<and> (\<exists>b. st' = st\<lparr>tp_info_backup := b\<rparr>)"
proof -
  define idx where "idx = (\<lambda>st. case w of None \<Rightarrow> (None, st)
                       | Some w \<Rightarrow> find_wire_server_parent e cfg rt (pc_pid p_conn) w st)"
  have idx: "(q \<noteq> None \<longrightarrow> parent_trace_matches cfg t q w) \<and> (\<exists>b. t = s\<lparr>tp_info_backup := b\<rparr>)"
    if "idx s = (q, t)" for s q t
    using that wire_server_parent_matches
    by (cases w) (auto simp: idx_def intro: exI[of _ "tp_info_backup s"])
  have same: "\<exists>b. s = s\<lparr>tp_info_backup := b\<rparr>" for s :: trace_maps
    by (rule exI[of _ "tp_info_backup s"]) simp
  obtain h1 st1 where h1: "(if w \<noteq> None \<and> pk_tid (trk_p_key t_key) AND JAVA_VT_TID_FLAG = 0 \<and>
      java_tasks rt (trk_p_key t_key) = None then idx st else (None, st)) = (h1, st1)" by force
  have i1: "(h1 \<noteq> None \<longrightarrow> parent_trace_matches cfg st1 h1 w) \<and> (\<exists>b. st1 = st\<lparr>tp_info_backup := b\<rparr>)"
    using h1 idx[of st] same[of st] by (auto split: if_splits)
  obtain j k where j: "find_parent_java_trace cfg rt st1 t_key w = (j, k)" by force
  obtain h2 st2 where h2: "(if w \<noteq> None \<and> \<not> (w \<noteq> None \<and> pk_tid (trk_p_key t_key) AND JAVA_VT_TID_FLAG = 0 \<and>
      java_tasks rt (trk_p_key t_key) = None) then idx st1 else (None, st1)) = (h2, st2)" by force
  have i2: "(h2 \<noteq> None \<longrightarrow> parent_trace_matches cfg st2 h2 w) \<and> (\<exists>b. st2 = st\<lparr>tp_info_backup := b\<rparr>)"
    using h2 idx[of st1] i1 same[of st] by (auto split: if_splits)
  obtain q k' where q: "find_parent_process_trace cfg rt st2 k w = (q, k')" by force
  have "find_thread_parent e cfg rt p_conn t_key w st =
    (if h1 \<noteq> None then (h1, st1) else if j \<noteq> None then (j, st1) else if h2 \<noteq> None then (h2, st2)
     else if q \<noteq> None then (q, st2) else (find_cp_support_parent cfg st2 p_conn w, st2))"
    unfolding find_thread_parent_def Let_def idx_def[symmetric] h1 prod.case j h2 q by (rule refl)
  then show ?thesis
    using assms i1 i2 j q thread_walk_matches cp_support_matches
    unfolding find_parent_java_trace_def find_parent_process_trace_def
    by (auto split: if_splits)
qed

lemma go_parent_state:
  "find_go_parent_trace e rt lw pid st = (p, st') \<Longrightarrow> \<exists>b. st' = st\<lparr>tp_info_backup := b\<rparr>"
  by (auto simp: find_go_parent_trace_def Let_def split: if_splits option.splits intro: exI[of _ "tp_info_backup st"])

lemma find_parent_trace_matches:
  assumes "find_parent_trace e cfg rt p_conn pid_tgid lw t_key dport w st = (p, st')"
  shows "(p \<noteq> None \<longrightarrow> parent_trace_matches cfg st' p w) \<and> (\<exists>b. st' = st\<lparr>tp_info_backup := b\<rparr>)"
proof -
  define g where "g = (if lw \<noteq> k_lw_thread_none
                 then find_go_parent_trace e rt lw (pid_from_pid_tgid pid_tgid) st else (None, st))"
  obtain go st1 where g1: "g = (go, st1)" by force
  have same: "\<exists>b. st = st\<lparr>tp_info_backup := b\<rparr>" by (rule exI[of _ "tp_info_backup st"]) simp
  have s1: "\<exists>b. st1 = st\<lparr>tp_info_backup := b\<rparr>"
    using g1 go_parent_state same unfolding g_def by (auto split: if_splits)
  obtain py allow where py: "find_python_parent_trace e rt st1 pid_tgid = (py, allow)" by force
  have "find_parent_trace e cfg rt p_conn pid_tgid lw t_key dport w st =
    (let node_tp = find_nodejs_parent_trace rt st p_conn dport pid_tgid;
         nginx = find_nginx_parent_trace rt st1 p_conn dport; puma = find_puma_parent_trace rt st1 pid_tgid in
     if parent_trace_matches cfg st node_tp w then (node_tp, st)
     else if parent_trace_matches cfg st1 go w then (go, st1)
     else if \<not> allow then (if parent_trace_matches cfg st1 py w then py else None, st1)
     else if parent_trace_matches cfg st1 py w then (py, st1)
     else if parent_trace_matches cfg st1 nginx w then (nginx, st1)
     else if parent_trace_matches cfg st1 puma w then (puma, st1)
     else find_thread_parent e cfg rt p_conn t_key w st1)"
    unfolding find_parent_trace_def g_def[symmetric] g1 Let_def prod.case py by (rule refl)
  moreover have "(p \<noteq> None \<longrightarrow> parent_trace_matches cfg st' p w) \<and> (\<exists>b. st' = st\<lparr>tp_info_backup := b\<rparr>)"
    if "find_thread_parent e cfg rt p_conn t_key w st1 = (p, st')"
    using find_thread_parent_matches[OF that] s1 by auto
  ultimately show ?thesis
    using assms same s1 by (auto simp: Let_def split: if_splits)
qed

lemma find_parent_traceD:
  assumes "find_parent_trace e cfg rt p_conn pid_tgid lw t_key dport w st = (Some r, st')"
  shows "\<exists>t b. deref st' r = Some t \<and> st' = st\<lparr>tp_info_backup := b\<rparr> \<and>
    (\<forall>x. w = Some x \<longrightarrow> tpp_valid t \<noteq> 0 \<and> tp_trace_id (tpp_tp t) = tp_trace_id x \<and>
       should_be_in_same_transaction cfg (tpp_tp t) x)"
  using find_parent_trace_matches[OF assms] by (auto elim!: matches_SomeD)

lemma deref_backup: "r \<noteq> RefBackup \<Longrightarrow> deref (st\<lparr>tp_info_backup := b\<rparr>) r = deref st r"
  by (cases r) simp_all

lemma deref_rnd [simp]: "deref (st\<lparr>rnd_pos := n\<rparr>) r = deref st r"
  by (cases r) simp_all

lemma manual_span_cases:
  "nodejs_manual_parent_span_id rt st i tid span = (m, span') \<Longrightarrow>
     (if m then \<exists>live. traces_ctx_v1 st i = Some live \<and> oc_trace_id live = tid \<and> span' = oc_span_id live
      else span' = span)"
  by (auto simp: nodejs_manual_parent_span_id_def split: option.splits if_splits)

text \<open>
  C22: A client that already carries a context on the wire keeps it. Whatever the maps hold, linking
  such a request leaves its trace id, flags and time stamp alone; it changes the span id only when
  the header was forwarded unchanged, that is when the span id is the parent id of the server
  request found. If a parent is reported, it is a valid server context of the same trace whose
  transaction the request can still belong to, and the parent id is the span of that context or,
  inside a manual Node.js span of this trace, that span. If none is reported, only the parent id was
  cleared. In both cases every context a reference can name, the per-CPU scratch copy apart, holds
  what it held: no server context is spent or retired by the search.
\<close>

theorem wire_client_keeps_context:
  assumes "find_trace_for_wire_client_request e cfg rt p_conn dport lw w st = (status, w', st')"
  shows "tp_trace_id w' = tp_trace_id w \<and> tp_flags w' = tp_flags w \<and> tp_ts w' = tp_ts w \<and>
    (status = k_parent_status_none \<longrightarrow> w' = w\<lparr>tp_parent_id := replicate SPAN_ID_SIZE_BYTES 0\<rparr>) \<and>
    (status \<noteq> k_parent_status_none \<longrightarrow>
      (\<exists>r t. deref st' r = Some t \<and> tpp_valid t \<noteq> 0 \<and> tp_trace_id (tpp_tp t) = tp_trace_id w \<and>
         should_be_in_same_transaction cfg (tpp_tp t) w \<and>
         (tp_span_id w' \<noteq> tp_span_id w \<longrightarrow> tp_span_id w = tp_parent_id (tpp_tp t)) \<and>
         (tp_parent_id w' = tp_span_id (tpp_tp t) \<or>
          (\<exists>live. traces_ctx_v1 st (en_pid_tgid e) = Some live \<and> oc_trace_id live = tp_trace_id w \<and>
             tp_parent_id w' = oc_span_id live)))) \<and>
    (\<forall>r. r \<noteq> RefBackup \<longrightarrow> deref st' r = deref st r)"
proof -
  define w0 where "w0 = w\<lparr>tp_parent_id := replicate SPAN_ID_SIZE_BYTES 0\<rparr>"
  have kind: "parent_kind cfg t \<noteq> k_parent_status_none" for t
    by (simp add: parent_kind_def)
  show ?thesis
  proof (cases "\<not> valid_trace (tp_trace_id w0) \<or> \<not> valid_span (tp_span_id w0)")
    case True
    then have "status = k_parent_status_none" "w' = w0" "st' = st"
      using assms unfolding find_trace_for_wire_client_request_def w0_def[symmetric] Let_def by simp_all
    then show ?thesis by (simp add: w0_def)
  next
    case False
    obtain p st1 where p: "find_parent_trace e cfg rt p_conn (en_pid_tgid e) lw (trace_key_from_pid_tid e rt) dport
        (Some w0) st = (p, st1)" by (rule prod.exhaust)
    show ?thesis
    proof (cases p)
      case None
      then have "status = k_parent_status_none" "w' = w0" "st' = st1"
        using assms False p unfolding find_trace_for_wire_client_request_def w0_def[symmetric] Let_def by auto
      then show ?thesis
        using find_parent_trace_matches[OF p] by (auto simp: w0_def deref_backup)
    next
      case (Some r)
      obtain t b where
        t: "deref st1 r = Some t" and st1: "st1 = st\<lparr>tp_info_backup := b\<rparr>" and
        ok: "tpp_valid t \<noteq> 0" "tp_trace_id (tpp_tp t) = tp_trace_id w0" "should_be_in_same_transaction cfg (tpp_tp t) w0"
        using find_parent_traceD[OF p[unfolded Some]] by (elim exE conjE) simp
      define rs where "rs = (if tp_span_id w0 = tp_parent_id (tpp_tp t)
                                   then read_urand e SPAN_ID_SIZE_BYTES st1 else (tp_span_id w0, st1))"
      obtain span st2 where rs: "rs = (span, st2)" by force
      have st2: "\<exists>n. st2 = st1\<lparr>rnd_pos := n\<rparr>" "span \<noteq> tp_span_id w0 \<Longrightarrow> tp_span_id w0 = tp_parent_id (tpp_tp t)"
        using rs unfolding rs_def
        by (auto simp: read_urand_def split: if_splits prod.splits intro: exI[of _ "rnd_pos st1"])
      obtain m ps where m: "nodejs_manual_parent_span_id rt st2 (en_pid_tgid e) (tp_trace_id w0) (tp_span_id (tpp_tp t)) = (m, ps)"
        by force
      have r: "status = (if m then k_parent_status_live else parent_kind cfg t)"
        "w' = w0\<lparr>tp_span_id := span, tp_parent_id := ps\<rparr>" "st' = st2"
        using assms False p Some t rs m
        unfolding find_trace_for_wire_client_request_def w0_def[symmetric] Let_def
        by (auto simp: rs_def[symmetric])
      have ctx: "traces_ctx_v1 st2 = traces_ctx_v1 st" using st2(1) st1 by auto
      have nn: "status \<noteq> k_parent_status_none" using r(1) kind by simp
      have d: "deref st' r = Some t" using st2(1) r(3) t by auto
      have d': "deref st' q = deref st q" if "q \<noteq> RefBackup" for q
        using st2(1) r(3) st1 that by (auto simp: deref_backup)
      have par: "ps = tp_span_id (tpp_tp t) \<or> (\<exists>live. traces_ctx_v1 st (en_pid_tgid e) = Some live \<and>
          oc_trace_id live = tp_trace_id w \<and> ps = oc_span_id live)"
        using manual_span_cases[OF m] ctx by (cases m) (auto simp: w0_def)
      have eqs: "tp_trace_id w0 = tp_trace_id w" "tp_flags w0 = tp_flags w" "tp_ts w0 = tp_ts w" "tp_span_id w0 = tp_span_id w"
        by (simp_all add: w0_def)
      have tr: "should_be_in_same_transaction cfg (tpp_tp t) w"
        using ok(3) by (simp add: should_be_in_same_transaction_def eqs split: if_splits)
      have "tpp_valid t \<noteq> 0 \<and> tp_trace_id (tpp_tp t) = tp_trace_id w \<and> should_be_in_same_transaction cfg (tpp_tp t) w \<and>
         (tp_span_id w' \<noteq> tp_span_id w \<longrightarrow> tp_span_id w = tp_parent_id (tpp_tp t)) \<and>
         (tp_parent_id w' = tp_span_id (tpp_tp t) \<or>
          (\<exists>live. traces_ctx_v1 st (en_pid_tgid e) = Some live \<and> oc_trace_id live = tp_trace_id w \<and>
             tp_parent_id w' = oc_span_id live))"
        using r(2) ok(1,2) tr par st2(2) eqs by simp
      then show ?thesis
        using nn d d' r(2) eqs by simp blast
    qed
  qed
qed

definition sample_task :: task_struct where
  "sample_task = (let kp = \<lparr>kp_level = 0, kp_numbers = (\<lambda>_. \<lparr>up_nr = 70, up_inum = 9\<rparr>)\<rparr>
     in \<lparr>tk_tgid = 70, tk_thread_pid = kp, tk_leader_pid = kp, tk_child_level = 0, tk_child_inum = 9\<rparr>)"

definition sample_env :: trace_env where
  "sample_env = \<lparr>en_pid_tgid = 70, en_task = \<lparr>cur_task = sample_task, cur_parent = sample_task\<rparr>, en_mem = Map.empty,
     en_rnd = (\<lambda>_. 7), en_clock = (\<lambda>n. 1000 + of_nat n), en_backup_mem = True\<rparr>"

definition sample_trace_cfg :: trace_cfg where
  "sample_trace_cfg = \<lparr>max_transaction_time = 100, high_request_volume = 0, disable_black_box_cp = 0,
     g_traces_ctx_v1_enabled = 1\<rparr>"

definition sample_tpp :: tp_info_pid where
  "sample_tpp = \<lparr>tpp_tp = sample_tp_info, tpp_pid = 70, tpp_valid = 1, tpp_written = 0,
     tpp_req_type = k_event_type_http_request, tpp_response_sent = 0\<rparr>"

definition empty_trace_maps :: trace_maps where
  "empty_trace_maps = \<lparr>trace_map = Map.empty, server_traces = Map.empty, server_traces_aux = Map.empty,
     incoming_trace_map = Map.empty, outgoing_trace_map = Map.empty, cp_support_connect_info = Map.empty,
     traces_ctx_v1 = Map.empty, go_trace_map = Map.empty, http_server_trace_index = Map.empty,
     tp_info_backup = sample_tpp, rnd_pos = 0, clk_pos = 0\<rparr>"

definition sample_pid_conn :: pid_connection_info where
  "sample_pid_conn = \<lparr>pc_conn = sample_conn, pc_pid = 70\<rparr>"

text \<open>The thread of the samples is serving one request.\<close>

definition sample_trace_maps :: trace_maps where
  "sample_trace_maps = empty_trace_maps\<lparr>server_traces :=
     [trace_key_from_pid_tid sample_env empty_runtime \<mapsto> sample_tpp]\<rparr>"

lemma sample_parent:
  assumes "w = None \<or> (\<exists>x. w = Some x \<and> tp_trace_id x = replicate 16 1 \<and> tp_ts x = 50)"
  shows "find_parent_trace sample_env sample_trace_cfg empty_runtime sample_pid_conn 70 0
      (trace_key_from_pid_tid sample_env empty_runtime) 443 w sample_trace_maps =
    (Some (RefServer (trace_key_from_pid_tid sample_env empty_runtime)), sample_trace_maps)"
proof -
  have "fd_info_for_conn (fd_infos empty_runtime) c = None" for c
    by (simp add: fd_info_for_conn_def empty_runtime_def)
  then have n: "find_nodejs_parent_trace empty_runtime sample_trace_maps sample_pid_conn 443 70 = None"
    "find_nginx_parent_trace empty_runtime sample_trace_maps sample_pid_conn 443 = None"
    by (simp_all add: find_nodejs_parent_trace_def find_nginx_parent_trace_def Let_def)
  have p: "find_python_parent_trace sample_env empty_runtime sample_trace_maps 70 = (None, True)"
    "find_puma_parent_trace empty_runtime sample_trace_maps 70 = None"
    by (simp_all add: find_python_parent_trace_def resolve_python_current_task_def find_puma_parent_trace_def
        empty_runtime_def)
  have no: "\<not> parent_trace_matches c s None x" for c s x by (simp add: parent_trace_matches_def)
  let ?k = "trace_key_from_pid_tid sample_env empty_runtime"
  have k: "look sample_trace_maps (RefServer ?k) = Some (RefServer ?k)"
    by (simp add: look_def sample_trace_maps_def)
  have "parent_trace_matches sample_trace_cfg sample_trace_maps (Some (RefServer ?k)) w"
    using assms by (auto simp: parent_trace_matches_def sample_trace_maps_def sample_tpp_def sample_tp_info_def
        should_be_in_same_transaction_def sample_trace_cfg_def)
  then have "find_parent_java_trace sample_trace_cfg empty_runtime sample_trace_maps ?k w = (Some (RefServer ?k), ?k)"
    unfolding find_parent_java_trace_def numeral_3_eq_3 by (simp add: k)
  moreover have "find_wire_server_parent sample_env sample_trace_cfg empty_runtime 70 x sample_trace_maps = (None, sample_trace_maps)" for x
    by (simp add: find_wire_server_parent_def find_http_server_trace_def sample_trace_maps_def empty_trace_maps_def no)
  ultimately have "find_thread_parent sample_env sample_trace_cfg empty_runtime sample_pid_conn ?k w sample_trace_maps =
      (Some (RefServer ?k), sample_trace_maps)"
    by (cases w) (simp_all add: find_thread_parent_def Let_def sample_pid_conn_def)
  then show ?thesis
    by (simp add: find_parent_trace_def Let_def n p no k_lw_thread_none_def)
qed

definition sample_wire_tp :: tp_info where
  "sample_wire_tp = sample_tp_info\<lparr>tp_span_id := replicate 8 9, tp_ts := 50\<rparr>"

theorem wire_client_keeps_context_witness:
  "\<exists>w' st' r t. find_trace_for_wire_client_request sample_env sample_trace_cfg empty_runtime sample_pid_conn 443 0
      sample_wire_tp sample_trace_maps = (k_parent_status_live, w', st') \<and>
    tp_trace_id w' = tp_trace_id sample_wire_tp \<and> deref st' r = Some t \<and>
    tp_trace_id (tpp_tp t) = tp_trace_id sample_wire_tp"
proof -
  let ?k = "trace_key_from_pid_tid sample_env empty_runtime"
  let ?w = "sample_wire_tp\<lparr>tp_parent_id := replicate 8 2\<rparr>"
  have v: "valid_trace (replicate 16 1)" "valid_span (replicate 8 9)"
    by (simp_all add: valid_trace_iff valid_span_iff)
  have d: "server_traces sample_trace_maps ?k = Some sample_tpp" by (simp add: sample_trace_maps_def)
  have "find_trace_for_wire_client_request sample_env sample_trace_cfg empty_runtime sample_pid_conn 443 0
      sample_wire_tp sample_trace_maps = (k_parent_status_live, ?w, sample_trace_maps)"
    using sample_parent[of "Some (sample_wire_tp\<lparr>tp_parent_id := replicate SPAN_ID_SIZE_BYTES 0\<rparr>)"] v d
    by (simp add: find_trace_for_wire_client_request_def Let_def sample_wire_tp_def sample_tp_info_def sample_tpp_def
        nodejs_manual_parent_span_id_def empty_runtime_def parent_kind_def event_types sample_env_def)
  then show ?thesis
    using wire_client_keeps_context[of sample_env sample_trace_cfg empty_runtime sample_pid_conn 443 0 sample_wire_tp
        sample_trace_maps k_parent_status_live ?w sample_trace_maps] by blast
qed

text \<open>
  C21: A client request without a context of its own joins the trace of the server request found, or
  none. If a parent is reported, it is a valid context with a non-zero trace id, not younger than
  the request and within the transaction time, and the request takes its trace id and flags and, as
  parent, its span or the manual Node.js span of that trace; its own span id and time stamp stay. If
  none is reported, the request is unchanged. The only entry ever modified is a parent that is
  older than the request by at least the transaction time, which is marked invalid; one that
  started after the request is left alone.
\<close>

theorem client_request_joins_parent:
  assumes "find_trace_for_client_request_with_t_key e cfg rt p_conn dport t_key pid_tgid lw tp st = (status, tp', st')"
  shows "(status = k_parent_status_none \<longrightarrow> tp' = tp) \<and>
    (status \<noteq> k_parent_status_none \<longrightarrow>
      (\<exists>r t ps. deref st' r = Some t \<and> tpp_valid t \<noteq> 0 \<and> valid_trace (tp_trace_id (tpp_tp t)) \<and>
         should_be_in_same_transaction cfg (tpp_tp t) tp \<and>
         tp' = tp\<lparr>tp_trace_id := tp_trace_id (tpp_tp t), tp_flags := tp_flags (tpp_tp t), tp_parent_id := ps\<rparr> \<and>
         (ps = tp_span_id (tpp_tp t) \<or> (\<exists>live. traces_ctx_v1 st pid_tgid = Some live \<and>
            oc_trace_id live = tp_trace_id (tpp_tp t) \<and> ps = oc_span_id live)))) \<and>
    (\<forall>r. r \<noteq> RefBackup \<longrightarrow> deref st' r = deref st r \<or>
      (\<exists>t. deref st r = Some t \<and> deref st' r = Some (t\<lparr>tpp_valid := 0\<rparr>) \<and> status = k_parent_status_none \<and>
         tp_ts (tpp_tp t) \<le> tp_ts tp \<and> max_transaction_time cfg \<le> tp_ts tp - tp_ts (tpp_tp t)))"
proof -
  obtain p st1 where p: "find_parent_trace e cfg rt p_conn pid_tgid lw t_key dport None st = (p, st1)"
    by (rule prod.exhaust)
  obtain b where st1: "st1 = st\<lparr>tp_info_backup := b\<rparr>" using find_parent_trace_matches[OF p] by blast
  have keep: "deref st1 q = deref st q" if "q \<noteq> RefBackup" for q using that st1 by (simp add: deref_backup)
  note def = find_trace_for_client_request_with_t_key_def p
  show ?thesis
  proof (cases p)
    case None
    then show ?thesis using assms keep by (simp add: def)
  next
    case (Some r)
    obtain t where t: "deref st1 r = Some t" using find_parent_traceD[OF p[unfolded Some]] by blast
    consider (bad) "\<not> (tpp_valid t \<noteq> 0 \<and> valid_trace (tp_trace_id (tpp_tp t)))"
      | (far) "tpp_valid t \<noteq> 0 \<and> valid_trace (tp_trace_id (tpp_tp t))" "\<not> should_be_in_same_transaction cfg (tpp_tp t) tp"
      | (ok) "tpp_valid t \<noteq> 0 \<and> valid_trace (tp_trace_id (tpp_tp t))" "should_be_in_same_transaction cfg (tpp_tp t) tp"
      by blast
    then show ?thesis
    proof cases
      case bad
      then have "status = k_parent_status_none" "tp' = tp" "st' = st1"
        using assms t Some by (cases "tpp_valid t = 0"; simp add: def)+
      then show ?thesis using keep by simp
    next
      case far
      then have res: "status = k_parent_status_none" "tp' = tp"
        "st' = (if parent_trace_is_stale (tpp_tp t) tp then store r (t\<lparr>tpp_valid := 0\<rparr>) st1 else st1)"
        using assms t Some by (auto simp: def)
      have age: "tp_ts (tpp_tp t) \<le> tp_ts tp \<and> max_transaction_time cfg \<le> tp_ts tp - tp_ts (tpp_tp t)"
        if "parent_trace_is_stale (tpp_tp t) tp"
        using far(2) that by (auto simp: should_be_in_same_transaction_def parent_trace_is_stale_def split: if_splits)
      have "deref st' q = deref st q \<or> (\<exists>t. deref st q = Some t \<and> deref st' q = Some (t\<lparr>tpp_valid := 0\<rparr>) \<and>
          tp_ts (tpp_tp t) \<le> tp_ts tp \<and> max_transaction_time cfg \<le> tp_ts tp - tp_ts (tpp_tp t))"
        if "q \<noteq> RefBackup" for q
      proof (cases "parent_trace_is_stale (tpp_tp t) tp \<and> q = r")
        case True
        then have "deref st q = Some t" "deref st' q = Some (t\<lparr>tpp_valid := 0\<rparr>)"
          using t keep[OF that] res(3) by simp_all
        then show ?thesis using age True by blast
      next
        case False
        then show ?thesis using keep[OF that] res(3) deref_store_other[of r q] by auto
      qed
      then show ?thesis using res(1,2) by simp
    next
      case ok
      obtain m ps where m: "nodejs_manual_parent_span_id rt st1 pid_tgid (tp_trace_id (tpp_tp t)) (tp_span_id (tpp_tp t)) = (m, ps)"
        by (rule prod.exhaust)
      have res: "status = (if m then k_parent_status_live else parent_kind cfg t)" "st' = st1"
        "tp' = tp\<lparr>tp_trace_id := tp_trace_id (tpp_tp t), tp_flags := tp_flags (tpp_tp t), tp_parent_id := ps\<rparr>"
        using assms t Some ok m by (auto simp: def Let_def)
      have "traces_ctx_v1 st1 = traces_ctx_v1 st" using st1 by simp
      then have par: "ps = tp_span_id (tpp_tp t) \<or> (\<exists>live. traces_ctx_v1 st pid_tgid = Some live \<and>
            oc_trace_id live = tp_trace_id (tpp_tp t) \<and> ps = oc_span_id live)"
        using manual_span_cases[OF m] by (cases m) auto
      have "status \<noteq> k_parent_status_none" using res(1) by (simp add: parent_kind_def)
      moreover have "\<exists>r t ps. deref st' r = Some t \<and> tpp_valid t \<noteq> 0 \<and> valid_trace (tp_trace_id (tpp_tp t)) \<and>
         should_be_in_same_transaction cfg (tpp_tp t) tp \<and>
         tp' = tp\<lparr>tp_trace_id := tp_trace_id (tpp_tp t), tp_flags := tp_flags (tpp_tp t), tp_parent_id := ps\<rparr> \<and>
         (ps = tp_span_id (tpp_tp t) \<or> (\<exists>live. traces_ctx_v1 st pid_tgid = Some live \<and>
            oc_trace_id live = tp_trace_id (tpp_tp t) \<and> ps = oc_span_id live))"
        using ok t res(2,3) par by blast
      ultimately show ?thesis using keep res(2) by simp
    qed
  qed
qed

theorem client_request_joins_parent_witness:
  "\<exists>tp' st'. find_trace_for_client_request_with_t_key sample_env sample_trace_cfg empty_runtime sample_pid_conn 443
      (trace_key_from_pid_tid sample_env empty_runtime) 70 0 (sample_wire_tp\<lparr>tp_ts := 200\<rparr>) sample_trace_maps =
      (k_parent_status_none, tp', st') \<and> tp' = sample_wire_tp\<lparr>tp_ts := 200\<rparr> \<and>
    map_option tpp_valid (server_traces st' (trace_key_from_pid_tid sample_env empty_runtime)) = Some 0"
proof -
  let ?k = "trace_key_from_pid_tid sample_env empty_runtime" and ?tp = "sample_wire_tp\<lparr>tp_ts := 200\<rparr>"
  let ?st = "sample_trace_maps\<lparr>server_traces := (server_traces sample_trace_maps)(?k \<mapsto> sample_tpp\<lparr>tpp_valid := 0\<rparr>)\<rparr>"
  have v: "valid_trace (replicate 16 1)" by (simp add: valid_trace_iff)
  have d: "server_traces sample_trace_maps ?k = Some sample_tpp" by (simp add: sample_trace_maps_def)
  have "find_trace_for_client_request_with_t_key sample_env sample_trace_cfg empty_runtime sample_pid_conn 443 ?k 70 0
      ?tp sample_trace_maps = (k_parent_status_none, ?tp, ?st)"
    using sample_parent[of None] v d
    by (simp add: find_trace_for_client_request_with_t_key_def sample_tpp_def sample_tp_info_def sample_wire_tp_def
        should_be_in_same_transaction_def parent_trace_is_stale_def sample_trace_cfg_def)
  then show ?thesis
    using client_request_joins_parent[of sample_env sample_trace_cfg empty_runtime sample_pid_conn 443 ?k 70 0 ?tp
        sample_trace_maps k_parent_status_none ?tp ?st] by simp
qed

subsection \<open>Concurrent requests of one trace\<close>

datatype index_op = Index runtime_maps http2_conn_stream tp_info | Unindex u32 tp_info

fun index_run :: "index_op list \<Rightarrow> trace_maps \<Rightarrow> trace_maps" where
  "index_run [] st = st"
| "index_run (Index rt s tp # ops) st = index_run ops (index_http_server_context rt s tp st)"
| "index_run (Unindex pid tp # ops) st = index_run ops (unindex_http_server_trace pid tp st)"

definition ambiguous_at :: "http_server_trace_key \<Rightarrow> trace_maps \<Rightarrow> bool" where
  "ambiguous_at k st \<longleftrightarrow> (\<exists>ref. http_server_trace_index st k = Some ref \<and> hr_ambiguous ref \<noteq> 0)"

lemma ambiguous_index: "ambiguous_at k st \<Longrightarrow> ambiguous_at k (index_http_server_context rt s tp st)"
  by (auto simp: ambiguous_at_def index_http_server_context_def Let_def split: option.split)

lemma ambiguous_unindex: "ambiguous_at k st \<Longrightarrow> ambiguous_at k (unindex_http_server_trace pid tp st)"
  by (auto simp: ambiguous_at_def unindex_http_server_trace_def Let_def split: option.split)

lemma ambiguous_run: "ambiguous_at k st \<Longrightarrow> ambiguous_at k (index_run ops st)"
  by (induction ops st rule: index_run.induct) (simp_all add: ambiguous_index ambiguous_unindex)

lemma ambiguous_not_found:
  "ambiguous_at (http_server_trace_key pid (tp_trace_id w)) st \<Longrightarrow> find_http_server_trace e rt pid w st = (None, st)"
  by (auto simp: ambiguous_at_def find_http_server_trace_def)

text \<open>
  C20: Of two requests one process serves at the same time in one trace, neither is chosen because it
  came last. The second request is indexed while the first is still live. From then on, whatever is
  indexed or removed later, a lookup of that trace in that process finds no indexed request, so that
  the thread lookups decide; and removing either request never lets the other take over.
\<close>

theorem concurrent_requests_ambiguous:
  assumes "valid_trace (tp_trace_id tp1)" "valid_span (tp_span_id tp1)" "valid_span (tp_span_id tp2)"
    and "tp_trace_id tp2 = tp_trace_id tp1" "tp_span_id tp2 \<noteq> tp_span_id tp1"
    and "pc_pid (hs_pid_conn s1) = pid" "pc_pid (hs_pid_conn s2) = pid"
    and "http_server_trace_index st (http_server_trace_key pid (tp_trace_id tp1)) = None"
    and "indexed_server_tp rt \<lparr>hr_stream = s1, hr_span_id = tp_span_id tp1, hr_ambiguous = 0\<rparr> \<noteq> None"
    and "tp_trace_id w = tp_trace_id tp1"
  shows "find_http_server_trace e rt' pid w
      (index_run ops (index_http_server_context rt s2 tp2 (index_http_server_context rt0 s1 tp1 st))) =
    (None, index_run ops (index_http_server_context rt s2 tp2 (index_http_server_context rt0 s1 tp1 st)))"
proof (rule ambiguous_not_found, rule ambiguous_run)
  show "ambiguous_at (http_server_trace_key pid (tp_trace_id w))
      (index_http_server_context rt s2 tp2 (index_http_server_context rt0 s1 tp1 st))"
    using assms by (simp add: index_http_server_context_def ambiguous_at_def Let_def indexes_request_def)
qed

definition sample_live_runtime :: runtime_maps where
  "sample_live_runtime = empty_runtime\<lparr>ongoing_http :=
     [sample_pid_conn \<mapsto> sample_http_info\<lparr>hi_type := k_event_type_http_request, hi_tp := sample_tp_info\<rparr>]\<rparr>"

theorem concurrent_requests_ambiguous_witness:
  "fst (find_http_server_trace sample_env sample_live_runtime 70 sample_wire_tp
      (index_run [Unindex 70 sample_tp_info]
        (index_http_server_context sample_live_runtime \<lparr>hs_pid_conn = sample_pid_conn, hs_stream_id = 3\<rparr> sample_wire_tp
          (index_http_server_context sample_live_runtime \<lparr>hs_pid_conn = sample_pid_conn, hs_stream_id = 0\<rparr> sample_tp_info
            empty_trace_maps)))) = None"
proof -
  let ?s1 = "\<lparr>hs_pid_conn = sample_pid_conn, hs_stream_id = 0\<rparr>"
  have h: "valid_trace (tp_trace_id sample_tp_info)" "valid_span (tp_span_id sample_tp_info)"
    "valid_span (tp_span_id sample_wire_tp)" "tp_trace_id sample_wire_tp = tp_trace_id sample_tp_info"
    "tp_span_id sample_wire_tp \<noteq> tp_span_id sample_tp_info" "pc_pid sample_pid_conn = 70"
    "http_server_trace_index empty_trace_maps (http_server_trace_key 70 (tp_trace_id sample_tp_info)) = None"
    by (simp_all add: sample_tp_info_def sample_wire_tp_def valid_trace_iff valid_span_iff sample_pid_conn_def
        empty_trace_maps_def)
  have live: "indexed_server_tp sample_live_runtime
      \<lparr>hr_stream = ?s1, hr_span_id = tp_span_id sample_tp_info, hr_ambiguous = 0\<rparr> \<noteq> None"
    by (simp add: indexed_server_tp_def sample_live_runtime_def sample_http_info_def still_reading_def indexes_request_def)
  show ?thesis
    using concurrent_requests_ambiguous[of sample_tp_info sample_wire_tp ?s1 70
        "\<lparr>hs_pid_conn = sample_pid_conn, hs_stream_id = 3\<rparr>" empty_trace_maps sample_live_runtime sample_wire_tp
        sample_env sample_live_runtime "[Unindex 70 sample_tp_info]" sample_live_runtime] h live
    by simp
qed

subsection \<open>Bounded walks\<close>

text \<open>The ancestors of a thread, itself first.\<close>

primrec ancestor :: "(pid_key \<rightharpoonup> pid_key) \<Rightarrow> nat \<Rightarrow> pid_key \<Rightarrow> pid_key option" where
  "ancestor parents 0 p = Some p"
| "ancestor parents (Suc i) p = (case parents p of None \<Rightarrow> None | Some q \<Rightarrow> ancestor parents i q)"

definition serves :: "trace_cfg \<Rightarrow> trace_maps \<Rightarrow> tp_info option \<Rightarrow> trace_key \<Rightarrow> bool" where
  "serves cfg st w k \<longleftrightarrow> parent_trace_matches cfg st (look st (RefServer k)) w"

lemma serves_look: "serves cfg st w k \<Longrightarrow> look st (RefServer k) = Some (RefServer k)"
  by (auto simp: serves_def look_def parent_trace_matches_def split: if_splits)

lemma thread_walk_nearest:
  "fst (thread_walk n parents cfg st w k) = Some r \<longleftrightarrow>
     (\<exists>i < n. \<exists>p. ancestor parents i (trk_p_key k) = Some p \<and> serves cfg st w (k\<lparr>trk_p_key := p\<rparr>) \<and>
        r = RefServer (k\<lparr>trk_p_key := p\<rparr>) \<and>
        (\<forall>j < i. \<forall>q. ancestor parents j (trk_p_key k) = Some q \<longrightarrow> \<not> serves cfg st w (k\<lparr>trk_p_key := q\<rparr>)))"
proof (induction n arbitrary: k)
  case (Suc n)
  have self: "k\<lparr>trk_p_key := trk_p_key k\<rparr> = k" by simp
  show ?case
  proof (cases "serves cfg st w k")
    case True
    then have "fst (thread_walk (Suc n) parents cfg st w k) = Some (RefServer k)"
      using serves_look[OF True] by (simp add: serves_def Let_def)
    then show ?thesis
      using True self by (auto simp: less_Suc_eq_0_disj)
  next
    case False
    then have step: "fst (thread_walk (Suc n) parents cfg st w k) = (case parents (trk_p_key k) of None \<Rightarrow> None
        | Some q \<Rightarrow> fst (thread_walk n parents cfg st w (k\<lparr>trk_p_key := q\<rparr>)))"
      by (simp add: serves_def Let_def split: option.split)
    show ?thesis
    proof (cases "parents (trk_p_key k)")
      case None
      have "\<not> (ancestor parents i (trk_p_key k) = Some p \<and> serves cfg st w (k\<lparr>trk_p_key := p\<rparr>))" for i p
        using None False by (cases i) auto
      then show ?thesis using step None by auto
    next
      case (Some q)
      show ?thesis
        unfolding step Some option.case Suc.IH Ex_less_Suc2
        using Some False self by (simp add: All_less_Suc2)
    qed
  qed
qed simp

definition nearest_at ::
  "(pid_key \<rightharpoonup> pid_key) \<Rightarrow> trace_cfg \<Rightarrow> trace_maps \<Rightarrow> tp_info option \<Rightarrow> trace_key \<Rightarrow> nat \<Rightarrow> tp_ref \<Rightarrow> bool" where
  "nearest_at parents cfg st w k i r \<longleftrightarrow>
     (\<exists>p. ancestor parents i (trk_p_key k) = Some p \<and> serves cfg st w (k\<lparr>trk_p_key := p\<rparr>) \<and>
        r = RefServer (k\<lparr>trk_p_key := p\<rparr>) \<and>
        (\<forall>j < i. \<forall>q. ancestor parents j (trk_p_key k) = Some q \<longrightarrow> \<not> serves cfg st w (k\<lparr>trk_p_key := q\<rparr>)))"

text \<open>
  C24: The thread searches return the nearest serving ancestor within their depth. The search over
  cloned threads finds a server request exactly when one of the thread itself and its four nearest
  ancestors serves an acceptable one, and then the nearest; the search over Java tasks looks at the
  thread and two ancestors. Both end after that many turns even when the ancestry is cyclic.
\<close>

theorem thread_search_nearest:
  "(fst (find_parent_process_trace cfg rt st k w) = Some r \<longleftrightarrow> (\<exists>i. i \<in> {0..<5} \<and> nearest_at (clone_map rt) cfg st w k i r)) \<and>
   (fst (find_parent_java_trace cfg rt st k w) = Some r \<longleftrightarrow> (\<exists>i. i \<in> {0..<3} \<and> nearest_at (java_tasks rt) cfg st w k i r))"
  unfolding find_parent_process_trace_def find_parent_java_trace_def thread_walk_nearest nearest_at_def by auto

text \<open>
  What the maps say of a link. A link names a task when the entry recorded under the process and the
  link's address carries the link's generation, both not zero; a task that ended and whose address was
  used again has another generation, and an entry that was removed names nothing. The links of a chain
  are the first one and, from each task named on the way, the link to the task that created it.
\<close>

definition names_task :: "runtime_maps \<Rightarrow> u64 \<Rightarrow> python_task_ref \<Rightarrow> python_task_state \<Rightarrow> bool" where
  "names_task rt i r s \<longleftrightarrow> pr_addr r \<noteq> 0 \<and> pr_generation r \<noteq> 0 \<and> ps_generation s = pr_generation r \<and>
     python_tasks rt \<lparr>pa_pid = ucast (pid_from_pid_tgid i), pa_addr = pr_addr r\<rparr> = Some s"

inductive link_at :: "runtime_maps \<Rightarrow> u64 \<Rightarrow> python_task_ref \<Rightarrow> nat \<Rightarrow> python_task_ref \<Rightarrow> bool" for rt i where
  first: "link_at rt i r 0 r"
| created_by: "names_task rt i r s \<Longrightarrow> pr_addr (ps_parent s) \<noteq> 0 \<Longrightarrow> link_at rt i (ps_parent s) n q \<Longrightarrow>
    link_at rt i r (Suc n) q"

inductive_simps link_at_0 [simp]: "link_at rt i r 0 q"
inductive_simps link_at_Suc: "link_at rt i r (Suc n) q"

definition owns_server :: "trace_maps \<Rightarrow> python_task_state \<Rightarrow> bool" where
  "owns_server st s \<longleftrightarrow> cp_port (ps_conn s) \<noteq> 0 \<and> server_traces_aux st (ps_conn s) \<noteq> None"

definition no_owner_before :: "runtime_maps \<Rightarrow> trace_maps \<Rightarrow> u64 \<Rightarrow> python_task_ref \<Rightarrow> nat \<Rightarrow> bool" where
  "no_owner_before rt st i r n \<longleftrightarrow> (\<forall>j < n. \<forall>q s. link_at rt i r j q \<and> names_task rt i q s \<longrightarrow> \<not> owns_server st s)"

definition owner_at :: "runtime_maps \<Rightarrow> trace_maps \<Rightarrow> u64 \<Rightarrow> python_task_ref \<Rightarrow> nat \<Rightarrow> tp_ref \<Rightarrow> bool" where
  "owner_at rt st i r n x \<longleftrightarrow> no_owner_before rt st i r n \<and>
     (\<exists>q s. link_at rt i r n q \<and> names_task rt i q s \<and> owns_server st s \<and> x = RefAux (ps_conn s))"

definition stale_at :: "runtime_maps \<Rightarrow> trace_maps \<Rightarrow> u64 \<Rightarrow> python_task_ref \<Rightarrow> nat \<Rightarrow> bool" where
  "stale_at rt st i r n \<longleftrightarrow> no_owner_before rt st i r n \<and> (\<exists>q. link_at rt i r n q \<and> (\<nexists>s. names_task rt i q s))"

lemma names_task_copy: "names_task rt i r s \<longleftrightarrow> copy_python_task_state rt i r = Some s"
  by (auto simp: names_task_def copy_python_task_state_def copy_python_task_state_seen_def python_addr_key_def
      split: option.splits)

lemma link_at_named:
  "names_task rt i r s \<Longrightarrow> link_at rt i r (Suc n) q \<longleftrightarrow> pr_addr (ps_parent s) \<noteq> 0 \<and> link_at rt i (ps_parent s) n q"
  by (auto simp: link_at_Suc names_task_copy)

lemma link_at_unnamed: "\<nexists>s. names_task rt i r s \<Longrightarrow> link_at rt i r n q \<longleftrightarrow> n = 0 \<and> q = r"
  by (cases n) (auto simp: link_at_Suc)

lemma no_owner_before_0 [simp]: "no_owner_before rt st i r 0"
  by (simp add: no_owner_before_def)

lemma no_owner_before_Suc:
  "names_task rt i r s \<Longrightarrow> no_owner_before rt st i r (Suc n) \<longleftrightarrow>
     \<not> owns_server st s \<and> (pr_addr (ps_parent s) \<noteq> 0 \<longrightarrow> no_owner_before rt st i (ps_parent s) n)"
  by (auto simp: no_owner_before_def All_less_Suc2 link_at_named) (auto simp: names_task_copy)

lemma chain_gone:
  assumes "\<nexists>s. names_task rt i r s"
  shows "\<not> owner_at rt st i r n x" and "stale_at rt st i r n \<longleftrightarrow> n = 0"
  using assms by (auto simp: owner_at_def stale_at_def link_at_unnamed[OF assms])

lemma chain_here:
  assumes "names_task rt i r s"
  shows "owner_at rt st i r 0 x \<longleftrightarrow> owns_server st s \<and> x = RefAux (ps_conn s)" and "\<not> stale_at rt st i r 0"
  using assms by (auto simp: owner_at_def stale_at_def) (auto simp: names_task_copy)

lemma chain_up:
  assumes "names_task rt i r s"
  shows "owner_at rt st i r (Suc n) x \<longleftrightarrow>
      \<not> owns_server st s \<and> pr_addr (ps_parent s) \<noteq> 0 \<and> owner_at rt st i (ps_parent s) n x"
    and "stale_at rt st i r (Suc n) \<longleftrightarrow>
      \<not> owns_server st s \<and> pr_addr (ps_parent s) \<noteq> 0 \<and> stale_at rt st i (ps_parent s) n"
  by (auto simp: owner_at_def stale_at_def link_at_named[OF assms] no_owner_before_Suc[OF assms])

lemma owning_walk_step:
  "names_task rt i r s \<Longrightarrow> owning_walk (Suc n) rt st i r =
     (if owns_server st s then (Some (RefAux (ps_conn s)), PYTHON_TASK_RESOLVED)
      else if pr_addr (ps_parent s) = 0 then (None, PYTHON_TASK_NOT_FOUND)
      else owning_walk n rt st i (ps_parent s))"
  by (simp add: names_task_copy owns_server_def look_def)

lemma owning_walk_gone: "\<nexists>s. names_task rt i r s \<Longrightarrow> owning_walk (Suc n) rt st i r = (None, PYTHON_TASK_STALE)"
  by (cases "copy_python_task_state rt i r") (simp_all add: names_task_copy)

lemma owning_walk_nearest:
  "(fst (owning_walk n rt st i r) = Some x \<longleftrightarrow> (\<exists>k < n. owner_at rt st i r k x)) \<and>
   (snd (owning_walk n rt st i r) = PYTHON_TASK_STALE \<longleftrightarrow> (\<exists>k < n. stale_at rt st i r k))"
proof (induction n arbitrary: r)
  case (Suc n)
  show ?case
  proof (cases "\<exists>s. names_task rt i r s")
    case False
    then show ?thesis using chain_gone[OF False] owning_walk_gone[OF False] by auto
  next
    case True
    then obtain s where s: "names_task rt i r s" ..
    show ?thesis
      unfolding owning_walk_step[OF s] Ex_less_Suc2 chain_here[OF s] chain_up[OF s]
      using Suc.IH[of "ps_parent s"] chain_here(2)[OF s, of st] by auto
  qed
qed simp

lemma owning_walk_status:
  "snd (owning_walk n rt st i r) = PYTHON_TASK_RESOLVED \<longleftrightarrow> fst (owning_walk n rt st i r) \<noteq> None"
  by (induction n arbitrary: r) (auto split: option.split)

text \<open>
  The current task of a thread is stale when the thread runs a task that is not recorded, or whose
  chain breaks within four links; or when it runs in a context that is not recorded, whose variables
  changed, or whose owner's chain breaks within four links.
\<close>

definition python_parent_stale :: "trace_env \<Rightarrow> runtime_maps \<Rightarrow> trace_maps \<Rightarrow> u64 \<Rightarrow> bool" where
  "python_parent_stale e rt st i \<longleftrightarrow>
     (\<exists>t. python_threads rt i = Some t \<and>
       (let key = \<lambda>a. \<lparr>pa_pid = ucast (pid_from_pid_tgid i), pa_addr = a\<rparr>;
            breaks = \<lambda>r. \<exists>k < 4. stale_at rt st i r k;
            task = pth_current_task t; context = pth_current_context t
        in if task \<noteq> 0 then (\<forall>s. python_tasks rt (key task) = Some s \<and> ps_generation s \<noteq> 0 \<longrightarrow>
                                breaks \<lparr>pr_addr = task, pr_generation = ps_generation s\<rparr>)
           else context \<noteq> 0 \<and> (\<forall>c. python_contexts rt (key context) = Some c \<and>
                  pct_vars c = read_python_context_vars e context \<longrightarrow>
                  (pr_addr (pct_task c) \<noteq> 0 \<or> pr_generation (pct_task c) \<noteq> 0) \<and> breaks (pct_task c))))"

lemma owning_walk_stale_none: "owning_walk n rt st i r = (x, PYTHON_TASK_STALE) \<Longrightarrow> x = None"
  using owning_walk_status[of n rt st i r] by simp

lemma stale_chain_iff:
  "(\<exists>k < 4. stale_at rt st i r k) \<longleftrightarrow> snd (find_python_owning_server_trace rt st i r) = PYTHON_TASK_STALE"
  by (simp add: find_python_owning_server_trace_def owning_walk_nearest del: owning_walk.simps)

lemma context_owner_gone:
  "copy_python_task_state rt i r = None \<Longrightarrow> snd (find_python_owning_server_trace rt st i r) = PYTHON_TASK_STALE"
  by (simp add: find_python_owning_server_trace_def eval_nat_numeral)

lemma resolve_context_Some:
  "resolve_python_context_task rt i (Some c) =
     (if copy_python_task_state rt i (pct_task c) = None then None else Some (pct_task c))"
  by (auto simp: resolve_python_context_task_def copy_python_task_state_def copy_python_task_state_seen_def
      split: option.splits)

lemma python_parent_gives_up:
  "\<not> snd (find_python_parent_trace e rt st i) \<longleftrightarrow> python_parent_stale e rt st i"
proof (cases "python_threads rt i")
  case (Some t)
  let ?f = "find_python_owning_server_trace rt st i"
  show ?thesis
  proof (cases "pth_current_task t = 0")
    case False
    then show ?thesis
      using Some by (auto simp: find_python_parent_trace_def resolve_python_current_task_def resolve_python_task_ref_def
        python_parent_stale_def stale_chain_iff python_addr_key_def Let_def split: option.split prod.split if_splits)
  next
    case True
    then show ?thesis
      using Some context_owner_gone[of rt i _ st] by (auto simp: find_python_parent_trace_def resolve_python_current_task_def
        resolve_python_task_from_context_def resolve_context_Some
        python_parent_stale_def stale_chain_iff python_addr_key_def Let_def split: option.split prod.split if_splits)
  qed
qed (simp add: find_python_parent_trace_def resolve_python_current_task_def python_parent_stale_def)

lemma python_parent_stale_none: "python_parent_stale e rt st i \<Longrightarrow> find_python_parent_trace e rt st i = (None, False)"
  unfolding python_parent_gives_up[symmetric]
  by (auto simp: find_python_parent_trace_def find_python_owning_server_trace_def dest: owning_walk_stale_none
      split: prod.splits python_task_resolution.splits option.splits)

text \<open>
  C23: A recycled Python task never lends its request. The owner of a task is the nearest of the task
  and its three nearest ancestors that has a server request, where every link on the way, the one to
  the task itself included, names a task: the entry recorded under its address carries its generation.
  The search says stale exactly when, before any owner, one of these four links names no task, and
  resolved exactly when it returns an owner. When the thread's current task or context is stale in
  this sense, no Node.js parent is accepted and the thread runs no goroutine, the whole parent search
  gives up and changes nothing, instead of trying the other lookups.
\<close>

theorem python_owner_fresh:
  "(fst (find_python_owning_server_trace rt st i r) = Some x \<longleftrightarrow> (\<exists>k. k \<in> {0..<4} \<and> owner_at rt st i r k x)) \<and>
   (snd (find_python_owning_server_trace rt st i r) = PYTHON_TASK_STALE \<longleftrightarrow> (\<exists>k. k \<in> {0..<4} \<and> stale_at rt st i r k)) \<and>
   (snd (find_python_owning_server_trace rt st i r) = PYTHON_TASK_RESOLVED \<longleftrightarrow>
      fst (find_python_owning_server_trace rt st i r) \<noteq> None) \<and>
   (python_parent_stale e rt st i \<longrightarrow>
      \<not> parent_trace_matches cfg st (find_nodejs_parent_trace rt st p_conn dport i) w \<longrightarrow>
      find_parent_trace e cfg rt p_conn i k_lw_thread_none t_key dport w st = (None, st))"
proof (intro conjI impI)
  show "fst (find_python_owning_server_trace rt st i r) = Some x \<longleftrightarrow> (\<exists>k. k \<in> {0..<4} \<and> owner_at rt st i r k x)"
    using owning_walk_nearest[of 4 rt st i r x] by (auto simp: find_python_owning_server_trace_def)
  show "snd (find_python_owning_server_trace rt st i r) = PYTHON_TASK_STALE \<longleftrightarrow>
      (\<exists>k. k \<in> {0..<4} \<and> stale_at rt st i r k)"
    using owning_walk_nearest[of 4 rt st i r x] by (auto simp: find_python_owning_server_trace_def)
  show "snd (find_python_owning_server_trace rt st i r) = PYTHON_TASK_RESOLVED \<longleftrightarrow>
      fst (find_python_owning_server_trace rt st i r) \<noteq> None"
    unfolding find_python_owning_server_trace_def by (rule owning_walk_status)
  assume "python_parent_stale e rt st i"
    and "\<not> parent_trace_matches cfg st (find_nodejs_parent_trace rt st p_conn dport i) w"
  then show "find_parent_trace e cfg rt p_conn i k_lw_thread_none t_key dport w st = (None, st)"
    by (simp add: find_parent_trace_def Let_def parent_trace_matches_def python_parent_stale_none)
qed

text \<open>
  The thread runs a task whose creator, a task at address 6 of generation 2, has ended; another task
  of generation 3 serves a request at that address now.
\<close>

definition sample_owner_conn :: connection_info_part where
  "sample_owner_conn = empty_part\<lparr>cp_port := 80\<rparr>"

definition sample_python_runtime :: "u64 \<Rightarrow> runtime_maps" where
  "sample_python_runtime generation = empty_runtime\<lparr>
     python_threads := [70 \<mapsto> \<lparr>pth_current_task = 5, pth_current_context = 0, pth_inflight_task = 0, pth_start_monotime_ns = 0\<rparr>],
     python_tasks :=
       [\<lparr>pa_pid = 0, pa_addr = 5\<rparr> \<mapsto> \<lparr>ps_parent = \<lparr>pr_addr = 6, pr_generation = 2\<rparr>, ps_generation = 1, ps_conn = empty_part\<rparr>,
        \<lparr>pa_pid = 0, pa_addr = 6\<rparr> \<mapsto> \<lparr>ps_parent = \<lparr>pr_addr = 0, pr_generation = 0\<rparr>, ps_generation = generation,
           ps_conn = sample_owner_conn\<rparr>]\<rparr>"

definition sample_owner_maps :: trace_maps where
  "sample_owner_maps = sample_trace_maps\<lparr>server_traces_aux := [sample_owner_conn \<mapsto> sample_tpp]\<rparr>"

lemma sample_link: "names_task (sample_python_runtime g) 70 \<lparr>pr_addr = 5, pr_generation = 1\<rparr>
    \<lparr>ps_parent = \<lparr>pr_addr = 6, pr_generation = 2\<rparr>, ps_generation = 1, ps_conn = empty_part\<rparr>"
  by (simp add: names_task_def sample_python_runtime_def pid_from_pid_tgid_def)

lemma sample_recycled: "stale_at (sample_python_runtime 3) sample_owner_maps 70 \<lparr>pr_addr = 5, pr_generation = 1\<rparr> 1"
proof -
  have "\<nexists>s. names_task (sample_python_runtime 3) 70 \<lparr>pr_addr = 6, pr_generation = 2\<rparr> s"
    by (simp add: names_task_def sample_python_runtime_def pid_from_pid_tgid_def)
  from chain_gone(2)[OF this] show ?thesis
    unfolding One_nat_def chain_up(2)[OF sample_link] by (simp add: owns_server_def empty_part_def)
qed

theorem python_owner_fresh_witness:
  "snd (find_python_owning_server_trace (sample_python_runtime 3) sample_owner_maps 70
      \<lparr>pr_addr = 5, pr_generation = 1\<rparr>) = PYTHON_TASK_STALE \<and>
   find_parent_trace sample_env sample_trace_cfg (sample_python_runtime 3) sample_pid_conn 70 k_lw_thread_none
     (trace_key_from_pid_tid sample_env empty_runtime) 443 None sample_owner_maps = (None, sample_owner_maps) \<and>
   fst (find_python_owning_server_trace (sample_python_runtime 2) sample_owner_maps 70
      \<lparr>pr_addr = 5, pr_generation = 1\<rparr>) = Some (RefAux sample_owner_conn)"
proof -
  have st: "\<exists>k. k \<in> {0..<4} \<and> stale_at (sample_python_runtime 3) sample_owner_maps 70 \<lparr>pr_addr = 5, pr_generation = 1\<rparr> k"
    by (intro exI[of _ 1]) (use sample_recycled in simp)
  from st have pp: "python_parent_stale sample_env (sample_python_runtime 3) sample_owner_maps 70"
    by (auto simp: python_parent_stale_def sample_python_runtime_def pid_from_pid_tgid_def Let_def)
  have nj: "find_nodejs_parent_trace (sample_python_runtime 3) sample_owner_maps sample_pid_conn 443 70 = None"
    by (simp add: find_nodejs_parent_trace_def fd_info_for_conn_def sample_python_runtime_def empty_runtime_def Let_def)
  have ow: "owner_at (sample_python_runtime 2) sample_owner_maps 70 \<lparr>pr_addr = 5, pr_generation = 1\<rparr> 1 (RefAux sample_owner_conn)"
  proof -
    have n: "names_task (sample_python_runtime 2) 70 \<lparr>pr_addr = 6, pr_generation = 2\<rparr>
        \<lparr>ps_parent = \<lparr>pr_addr = 0, pr_generation = 0\<rparr>, ps_generation = 2, ps_conn = sample_owner_conn\<rparr>"
      by (simp add: names_task_def sample_python_runtime_def pid_from_pid_tgid_def)
    show ?thesis
      unfolding One_nat_def chain_up(1)[OF sample_link]
      using chain_here(1)[OF n] by (simp add: owns_server_def empty_part_def sample_owner_conn_def sample_owner_maps_def)
  qed
  then have "\<exists>k. k \<in> {0..<4} \<and> owner_at (sample_python_runtime 2) sample_owner_maps 70 \<lparr>pr_addr = 5, pr_generation = 1\<rparr> k
      (RefAux sample_owner_conn)"
    by (intro exI[of _ 1]) simp
  moreover have "\<not> parent_trace_matches sample_trace_cfg sample_owner_maps
      (find_nodejs_parent_trace (sample_python_runtime 3) sample_owner_maps sample_pid_conn 443 70) None"
    by (simp add: nj parent_trace_matches_def)
  ultimately show ?thesis
    using python_owner_fresh[of "sample_python_runtime 3" sample_owner_maps 70 "\<lparr>pr_addr = 5, pr_generation = 1\<rparr>"] st pp
      python_owner_fresh[of "sample_python_runtime 2" sample_owner_maps 70 "\<lparr>pr_addr = 5, pr_generation = 1\<rparr>"
        "RefAux sample_owner_conn"]
    by blast
qed

end
