(* ===== verification/Trace_Lifecycle.thy ===== *)
theory Trace_Lifecycle
  imports Trace_Parent
begin

section \<open>Contexts from the start to the end of a request\<close>

text \<open>
  Models \<open>bpf/common/trace_lifecycle.h\<close> and the context functions of \<open>bpf/gotracer/go_common.h\<close>: where a
  server request gets its context from, where server and client contexts are stored for later
  lookups, and how they are removed. The results compose these operations with the parent search:
  a context stored for the thread of a server request is the one its client calls join, a client
  context is adopted by at most one server request, and the thread's published context returns to
  the server span when a client span ends.
\<close>

unbundle bit_operations_syntax

definition BPF_ANY :: u64 where "BPF_ANY = 0"
definition BPF_NOEXIST :: u64 where "BPF_NOEXIST = 1"
definition BPF_EXIST :: u64 where "BPF_EXIST = 2"

text \<open>\<open>bpf_map_update_elem\<close> with flags; an update the flags forbid leaves the map alone.\<close>

definition map_update :: "u64 \<Rightarrow> 'k \<Rightarrow> 'v \<Rightarrow> ('k \<rightharpoonup> 'v) \<Rightarrow> ('k \<rightharpoonup> 'v)" where
  "map_update flags k v m =
     (if flags = BPF_NOEXIST \<and> m k \<noteq> None \<or> flags = BPF_EXIST \<and> m k = None then m else m(k \<mapsto> v))"

subsection \<open>Kernel side requests\<close>

definition delete_server_trace :: "trace_env \<Rightarrow> trace_cfg \<Rightarrow> pid_connection_info \<Rightarrow> trace_key \<Rightarrow> trace_maps \<Rightarrow> trace_maps" where
  "delete_server_trace e cfg pid_conn t_key st =
     (let st = delete_trace_info_for_connection (pc_conn pid_conn) TRACE_TYPE_SERVER st;
          st = st\<lparr>server_traces := map_del t_key (server_traces st)\<rparr>
      in if pk_tid (trk_p_key t_key) AND JAVA_VT_TID_FLAG = 0 then obi_ctx_del cfg (en_pid_tgid e) st else st)"

definition obi_ctx_restore_server ::
  "trace_env \<Rightarrow> trace_cfg \<Rightarrow> runtime_maps \<Rightarrow> tp_info option \<Rightarrow> trace_maps \<Rightarrow> trace_maps" where
  "obi_ctx_restore_server e cfg rt client_tp st = (case client_tp of None \<Rightarrow> st
     | Some c \<Rightarrow> (case obi_ctx_get (en_pid_tgid e) st of None \<Rightarrow> st
         | Some current \<Rightarrow>
             if oc_span_id current \<noteq> tp_span_id c then st
             else case java_vt_translate_tid rt (task_tid (en_task e)) of
               (True, _) \<Rightarrow> st
             | (False, p_key) \<Rightarrow>
                 (case server_traces st \<lparr>trk_extra_id = extra_runtime_id e rt, trk_p_key = p_key\<rparr> of None \<Rightarrow> st
                  | Some server_tp \<Rightarrow>
                      if tpp_valid server_tp \<noteq> 0 \<and> tp_span_id (tpp_tp server_tp) = tp_parent_id c
                      then obi_ctx_set cfg (en_pid_tgid e) (tpp_tp server_tp) st else st)))"

definition delete_client_trace_info ::
  "trace_env \<Rightarrow> trace_cfg \<Rightarrow> runtime_maps \<Rightarrow> pid_connection_info \<Rightarrow> trace_maps \<Rightarrow> trace_maps" where
  "delete_client_trace_info e cfg rt pid_conn st =
     (let st = (case trace_map st (trace_key_from_conn (pc_conn pid_conn) TRACE_TYPE_CLIENT) of None \<Rightarrow> st
                | Some client_tp \<Rightarrow> obi_ctx_restore_server e cfg rt (Some (tpp_tp client_tp)) st);
          st = delete_trace_info_for_connection (pc_conn pid_conn) TRACE_TYPE_CLIENT st;
          e_key = sort_egress_key \<lparr>ek_s_port = s_port (pc_conn pid_conn), ek_d_port = d_port (pc_conn pid_conn), ek_stream_id = 0\<rparr>
      in st\<lparr>outgoing_trace_map := map_del e_key (outgoing_trace_map st),
            cp_support_connect_info := map_del pid_conn (cp_support_connect_info st)\<rparr>)"

text \<open>A context taken over as parent.\<close>

definition adopt_context :: "tp_info_pid \<Rightarrow> tp_info \<Rightarrow> tp_info" where
  "adopt_context x tp = tp\<lparr>tp_trace_id := tp_trace_id (tpp_tp x), tp_parent_id := tp_span_id (tpp_tp x),
     tp_flags := tp_flags (tpp_tp x)\<rparr>"

definition find_trace_for_server_request ::
  "trace_cfg \<Rightarrow> connection_info \<Rightarrow> tp_info \<Rightarrow> u8 \<Rightarrow> trace_maps \<Rightarrow> bool \<times> tp_info \<times> trace_maps" where
  "find_trace_for_server_request cfg conn tp type st =
     (let sorted_conn = sort_connection_info conn
      in case incoming_trace_map st sorted_conn of
           Some x \<Rightarrow> (True, adopt_context x tp, st\<lparr>incoming_trace_map := map_del sorted_conn (incoming_trace_map st)\<rparr>)
         | None \<Rightarrow>
             let existing_tp = trace_map st (trace_key_from_conn conn TRACE_TYPE_CLIENT)
             in if disable_black_box_cp cfg = 0 \<and> correlated_requests tp existing_tp then
                  (case existing_tp of None \<Rightarrow> (False, tp, st)
                   | Some x \<Rightarrow>
                       if tpp_valid x \<noteq> 0 then
                         if type = k_event_type_http_request \<and> tpp_req_type x = k_event_type_http_client \<or>
                            type = k_event_type_tcp_request \<and> tpp_req_type x = k_event_type_tcp_request
                         then (True, adopt_context x tp,
                               set_trace_info_for_connection conn TRACE_TYPE_CLIENT (x\<lparr>tpp_valid := 0\<rparr>) st)
                         else (False, tp, st)
                       else (False, tp, st))
                else (False, tp, st))"

definition server_or_client_trace ::
  "trace_env \<Rightarrow> trace_cfg \<Rightarrow> runtime_maps \<Rightarrow> u8 \<Rightarrow> connection_info \<Rightarrow> u64 \<Rightarrow> tp_info_pid \<Rightarrow> u8 \<Rightarrow> u16 \<Rightarrow> u32 \<Rightarrow> u64 \<Rightarrow>
     trace_maps \<Rightarrow> tp_info_pid \<times> trace_maps" where
  "server_or_client_trace e cfg rt type conn lw_thread tp_p ssl orig_dport stream_id map_update_flags st =
     (let i = en_pid_tgid e; host_pid = pid_from_pid_tgid i
      in if type = k_event_type_http_request then
           let tp_p = tp_p\<lparr>tpp_response_sent := 0\<rparr>;
               (vt_keyed, p_key) = java_vt_translate_tid rt (task_tid (en_task e));
               t_key = \<lparr>trk_extra_id = extra_runtime_id e rt, trk_p_key = p_key\<rparr>;
               conn_part = populate_ephemeral_info empty_part conn orig_dport host_pid FD_SERVER;
               st = st\<lparr>server_traces_aux := (server_traces_aux st)(conn_part \<mapsto> tp_p)\<rparr>;
               conflict = (case server_traces st t_key of None \<Rightarrow> False
                 | Some x \<Rightarrow> tpp_req_type x = tpp_req_type tp_p \<and> tpp_req_type tp_p = k_event_type_http_request \<and>
                     tpp_valid x \<noteq> 0 \<and> tpp_response_sent x = 0)
           in if conflict
              then (tp_p, st\<lparr>server_traces := (server_traces st)(t_key :=
                      map_option (\<lambda>x. x\<lparr>tpp_valid := 0\<rparr>) (server_traces st t_key))\<rparr>)
              else let st = st\<lparr>server_traces := (server_traces st)(t_key \<mapsto> tp_p)\<rparr>;
                       st = (if vt_keyed then st else obi_ctx_set cfg i (tpp_tp tp_p) st)
                   in (tp_p, if lw_thread \<noteq> k_lw_thread_none
                        then st\<lparr>go_trace_map := (go_trace_map st)(go_addr_key_from_id_and_pid lw_thread host_pid \<mapsto> tpp_tp tp_p)\<rparr>
                        else st)
         else
           let tp_p = tp_p\<lparr>tpp_pid := host_pid\<rparr>;
               e_key = sort_egress_key \<lparr>ek_s_port = s_port conn, ek_d_port = d_port conn, ek_stream_id = stream_id\<rparr>
           in if ssl \<noteq> 0
              then (tp_p, st\<lparr>outgoing_trace_map := map_update map_update_flags e_key (tp_p\<lparr>tpp_valid := 0\<rparr>) (outgoing_trace_map st)\<rparr>)
              else (tp_p, let st = st\<lparr>outgoing_trace_map := map_update map_update_flags e_key tp_p (outgoing_trace_map st)\<rparr>
                          in if java_vt_mounted e rt then st else obi_ctx_set cfg i (tpp_tp tp_p) st))"

subsection \<open>Go requests\<close>

definition decode_go_traceparent :: "bytes \<Rightarrow> (bytes \<times> bytes \<times> bytes) option" where
  "decode_go_traceparent buf = do {
     trace_id \<leftarrow> decode_hex buf (2 + 1) 32;
     span_id \<leftarrow> decode_hex buf (2 + 1 + 32 + 1) 16;
     flags \<leftarrow> decode_hex buf (2 + 1 + 32 + 1 + 16 + 1) 2;
     Some (trace_id, span_id, flags)
   }"

definition tp_from_parent :: "tp_info \<Rightarrow> tp_info \<Rightarrow> tp_info" where
  "tp_from_parent tp parent = tp\<lparr>tp_trace_id := tp_trace_id parent, tp_parent_id := tp_span_id parent,
     tp_flags := tp_flags parent\<rparr>"

definition tp_clone :: "tp_info \<Rightarrow> tp_info \<Rightarrow> tp_info" where
  "tp_clone dest src = dest\<lparr>tp_trace_id := tp_trace_id src, tp_span_id := tp_span_id src,
     tp_parent_id := tp_parent_id src, tp_flags := tp_flags src\<rparr>"

text \<open>The context a Go server request inherits over its connection, if any.\<close>

definition go_connection_parent ::
  "trace_env \<Rightarrow> trace_cfg \<Rightarrow> runtime_maps \<Rightarrow> go_addr_key \<Rightarrow> tp_info \<Rightarrow> trace_maps \<Rightarrow> bool \<times> tp_info \<times> trace_maps" where
  "go_connection_parent e cfg rt g_key tp st = (case ongoing_server_connections rt g_key of None \<Rightarrow> (False, tp, st)
     | Some info \<Rightarrow>
         let conn = sort_connection_info (hsc_conn info)
         in case incoming_trace_map st conn of
              Some x \<Rightarrow> (True, tp_from_parent tp (tpp_tp x), st\<lparr>incoming_trace_map := map_del conn (incoming_trace_map st)\<rparr>)
            | None \<Rightarrow> (case trace_map st (trace_key_from_conn conn TRACE_TYPE_CLIENT) of None \<Rightarrow> (False, tp, st)
                | Some x \<Rightarrow>
                    if disable_black_box_cp cfg = 0 then
                      (case correlated_request_with_current e (Some x) st of (ok, st) \<Rightarrow>
                         if ok then (True, tp_from_parent tp (tpp_tp x), st) else (False, tp, st))
                    else (False, tp, st)))"

definition server_trace_parent ::
  "trace_env \<Rightarrow> trace_cfg \<Rightarrow> runtime_maps \<Rightarrow> u64 \<Rightarrow> tp_info \<Rightarrow> tp_info option \<Rightarrow> trace_maps \<Rightarrow> tp_info \<times> trace_maps" where
  "server_trace_parent e cfg rt goroutine_addr tp found_tp st =
     (let (now, st) = read_clock e st;
          tp = tp\<lparr>tp_ts := now\<rparr>;
          g_key = go_addr_key_from_id e goroutine_addr;
          (tp, st) = (case found_tp of
              Some f \<Rightarrow> (sample_remote_child e rt f, st)
            | None \<Rightarrow> (case go_connection_parent e cfg rt g_key tp st of
                  (False, tp, st) \<Rightarrow>
                    let (tid, st) = read_urand e TRACE_ID_SIZE_BYTES st
                    in (sample_new_trace e rt (tp\<lparr>tp_trace_id := tid, tp_parent_id := replicate SPAN_ID_SIZE_BYTES 0\<rparr>), st)
                | (True, tp, st) \<Rightarrow> (sample_remote_child e rt tp, st)));
          (span, st) = read_urand e SPAN_ID_SIZE_BYTES st;
          (now, st) = read_clock e st;
          tp = tp\<lparr>tp_span_id := span, tp_ts := now\<rparr>
      in (tp, st\<lparr>go_trace_map := (go_trace_map st)(g_key \<mapsto> tp)\<rparr>))"

definition tp_info_from_parent_go :: "trace_env \<Rightarrow> runtime_maps \<Rightarrow> trace_maps \<Rightarrow> go_addr_key \<Rightarrow> tp_info option" where
  "tp_info_from_parent_go e rt st g_key =
     (let parent_id = find_parent_goroutine rt st g_key
      in if parent_id = 0 then None else go_trace_map st (go_addr_key_from_id e parent_id))"

definition update_tp_parent_go :: "go_addr_key \<Rightarrow> tp_info \<Rightarrow> trace_maps \<Rightarrow> trace_maps" where
  "update_tp_parent_go gp_key tp st = st\<lparr>go_trace_map := (go_trace_map st)(gp_key \<mapsto> tp)\<rparr>"

definition client_trace_parent ::
  "trace_env \<Rightarrow> trace_cfg \<Rightarrow> runtime_maps \<Rightarrow> u64 \<Rightarrow> tp_info \<Rightarrow> trace_maps \<Rightarrow> bool \<times> tp_info \<times> trace_maps" where
  "client_trace_parent e cfg rt goroutine_addr tp_i st =
     (let (now, st) = read_clock e st;
          tp_i = tp_i\<lparr>tp_ts := now\<rparr>;
          g_key = go_addr_key_from_id e goroutine_addr;
          parent = (case ongoing_sql_queries rt g_key of
              Some invocation \<Rightarrow> Some (sq_tp invocation)
            | None \<Rightarrow> (case tp_info_from_parent_go e rt st g_key of None \<Rightarrow> None
                | Some tp \<Rightarrow> if should_be_in_same_transaction cfg tp tp_i then Some tp else None));
          (tp_i, st) = (case parent of
              Some tp \<Rightarrow> (tp_from_parent tp_i tp, st)
            | None \<Rightarrow> let (tid, st) = read_urand e TRACE_ID_SIZE_BYTES st
                in (sample_new_trace e rt (tp_i\<lparr>tp_trace_id := tid, tp_parent_id := replicate SPAN_ID_SIZE_BYTES 0\<rparr>), st));
          (span, st) = read_urand e SPAN_ID_SIZE_BYTES st
      in (parent \<noteq> None, tp_i\<lparr>tp_span_id := span\<rparr>, st))"

subsection \<open>Results\<close>

lemma adopted:
  assumes "find_trace_for_server_request cfg conn tp type st = (True, tp', st')"
  obtains x where "tp' = adopt_context x tp"
    "incoming_trace_map st (sort_connection_info conn) = Some x \<or>
     trace_map st (trace_key_from_conn conn TRACE_TYPE_CLIENT) = Some x \<and> tpp_valid x \<noteq> 0"
  using assms unfolding find_trace_for_server_request_def Let_def
  by (auto split: option.splits if_splits)

text \<open>
  C1: A client context is adopted by at most one server request. A server request that finds a context
  takes its trace id and flags and makes its span the parent; the context came from the connection's
  incoming entry or from a still valid client entry. An incoming entry is gone afterwards. A client
  entry is spent: no later server request on that connection finds it, whatever its type and time,
  until something else is stored for the connection.
\<close>

theorem server_context_adopted_once:
  assumes "find_trace_for_server_request cfg conn tp type st = (True, tp', st')"
  shows "(\<exists>x. tp' = tp\<lparr>tp_trace_id := tp_trace_id (tpp_tp x), tp_parent_id := tp_span_id (tpp_tp x),
            tp_flags := tp_flags (tpp_tp x)\<rparr> \<and>
          (incoming_trace_map st (sort_connection_info conn) = Some x \<or>
           trace_map st (trace_key_from_conn conn TRACE_TYPE_CLIENT) = Some x \<and> tpp_valid x \<noteq> 0)) \<and>
    incoming_trace_map st' (sort_connection_info conn) = None \<and>
    (incoming_trace_map st (sort_connection_info conn) = None \<longrightarrow>
      (\<forall>cfg2 tp2 type2. find_trace_for_server_request cfg2 conn tp2 type2 st' = (False, tp2, st')))"
proof (intro conjI)
  show "\<exists>x. tp' = tp\<lparr>tp_trace_id := tp_trace_id (tpp_tp x), tp_parent_id := tp_span_id (tpp_tp x),
            tp_flags := tp_flags (tpp_tp x)\<rparr> \<and>
          (incoming_trace_map st (sort_connection_info conn) = Some x \<or>
           trace_map st (trace_key_from_conn conn TRACE_TYPE_CLIENT) = Some x \<and> tpp_valid x \<noteq> 0)"
    using adopted[OF assms] by (metis adopt_context_def)
  show "incoming_trace_map st' (sort_connection_info conn) = None"
    using assms unfolding find_trace_for_server_request_def Let_def set_trace_info_for_connection_def
    by (auto split: option.splits if_splits)
  show "incoming_trace_map st (sort_connection_info conn) = None \<longrightarrow>
      (\<forall>cfg2 tp2 type2. find_trace_for_server_request cfg2 conn tp2 type2 st' = (False, tp2, st'))"
  proof (intro impI allI)
    fix cfg2 tp2 type2
    assume none: "incoming_trace_map st (sort_connection_info conn) = None"
    obtain x where x: "st' = set_trace_info_for_connection conn TRACE_TYPE_CLIENT (x\<lparr>tpp_valid := 0\<rparr>) st"
      using assms none unfolding find_trace_for_server_request_def Let_def
      by (auto split: option.splits if_splits)
    show "find_trace_for_server_request cfg2 conn tp2 type2 st' = (False, tp2, st')"
      unfolding x find_trace_for_server_request_def Let_def
      using none by (simp add: set_trace_info_for_connection_def)
  qed
qed

definition sample_client_maps :: trace_maps where
  "sample_client_maps = set_trace_info_for_connection sample_conn TRACE_TYPE_CLIENT
     (sample_tpp\<lparr>tpp_req_type := k_event_type_http_client\<rparr>) empty_trace_maps"

theorem server_context_adopted_once_witness:
  "\<exists>tp' st'. find_trace_for_server_request sample_trace_cfg sample_conn sample_wire_tp k_event_type_http_request sample_client_maps
      = (True, tp', st') \<and> tp_parent_id tp' = replicate 8 2 \<and>
    find_trace_for_server_request sample_trace_cfg sample_conn sample_wire_tp k_event_type_http_request st' = (False, sample_wire_tp, st')"
proof -
  obtain tp' st' where f: "find_trace_for_server_request sample_trace_cfg sample_conn sample_wire_tp
      k_event_type_http_request sample_client_maps = (True, tp', st')" "tp_parent_id tp' = replicate 8 2"
    by (simp add: find_trace_for_server_request_def sample_client_maps_def set_trace_info_for_connection_def
        empty_trace_maps_def Let_def correlated_requests_def sample_wire_tp_def sample_tp_info_def sample_tpp_def
        adopt_context_def sample_trace_cfg_def NANOSECONDS_PER_EPOCH_def)
  moreover have "incoming_trace_map sample_client_maps (sort_connection_info sample_conn) = None"
    by (simp add: sample_client_maps_def set_trace_info_for_connection_def empty_trace_maps_def)
  ultimately show ?thesis
    using server_context_adopted_once[OF f(1)] by blast
qed

subsection \<open>Client calls made while serving\<close>

definition own_key :: "trace_env \<Rightarrow> runtime_maps \<Rightarrow> trace_key" where
  "own_key e rt = \<lparr>trk_extra_id = extra_runtime_id e rt, trk_p_key = snd (java_vt_translate_tid rt (task_tid (en_task e)))\<rparr>"

text \<open>No other request of the same kind is open on the thread.\<close>

definition no_conflict :: "trace_env \<Rightarrow> runtime_maps \<Rightarrow> trace_maps \<Rightarrow> bool" where
  "no_conflict e rt st \<longleftrightarrow> (case server_traces st (own_key e rt) of None \<Rightarrow> True
     | Some x \<Rightarrow> \<not> (tpp_req_type x = k_event_type_http_request \<and> tpp_valid x \<noteq> 0 \<and> tpp_response_sent x = 0))"

lemma server_trace_stored:
  assumes "no_conflict e rt st"
    and "server_or_client_trace e cfg rt k_event_type_http_request conn lw tp_p ssl dport sid flags st = (tp_p', st')"
  shows "server_traces st' (own_key e rt) = Some (tp_p\<lparr>tpp_response_sent := 0\<rparr>) \<and> tp_p' = tp_p\<lparr>tpp_response_sent := 0\<rparr> \<and>
    (fst (java_vt_translate_tid rt (task_tid (en_task e))) = False \<longrightarrow> g_traces_ctx_v1_enabled cfg \<noteq> 0 \<longrightarrow>
      traces_ctx_v1 st' (en_pid_tgid e) = Some \<lparr>oc_trace_id = tp_trace_id (tpp_tp tp_p), oc_span_id = tp_span_id (tpp_tp tp_p)\<rparr>)"
proof -
  obtain vt p_key where vt: "java_vt_translate_tid rt (task_tid (en_task e)) = (vt, p_key)" by (rule prod.exhaust)
  then have k: "own_key e rt = \<lparr>trk_extra_id = extra_runtime_id e rt, trk_p_key = p_key\<rparr>" by (simp add: own_key_def)
  have nc: "(case server_traces st \<lparr>trk_extra_id = extra_runtime_id e rt, trk_p_key = p_key\<rparr> of None \<Rightarrow> False
      | Some x \<Rightarrow> tpp_req_type x = tpp_req_type tp_p \<and> tpp_req_type tp_p = k_event_type_http_request \<and>
          tpp_valid x \<noteq> 0 \<and> tpp_response_sent x = 0) = False"
    using assms(1) unfolding no_conflict_def k by (auto split: option.splits)
  show ?thesis
    using assms(2) vt nc unfolding k
    by (cases "server_traces st \<lparr>trk_extra_id = extra_runtime_id e rt, trk_p_key = p_key\<rparr>")
      (auto simp: server_or_client_trace_def Let_def obi_ctx_set_def split: if_splits)
qed

text \<open>
  The lookups of other runtimes know nothing of this connection and thread, so that the search
  comes to the threads.
\<close>

definition plain_thread :: "trace_env \<Rightarrow> runtime_maps \<Rightarrow> pid_connection_info \<Rightarrow> u16 \<Rightarrow> trace_maps \<Rightarrow> bool" where
  "plain_thread e rt p_conn dport st \<longleftrightarrow>
     find_nodejs_parent_trace rt st p_conn dport (en_pid_tgid e) = None \<and>
     find_python_parent_trace e rt st (en_pid_tgid e) = (None, True) \<and>
     find_nginx_parent_trace rt st p_conn dport = None \<and> find_puma_parent_trace rt st (en_pid_tgid e) = None"

lemma thread_walk_here:
  "server_traces st k = Some t \<Longrightarrow> thread_walk (Suc n) parents cfg st None k = (Some (RefServer k), k)"
  by (simp add: look_def parent_trace_matches_def)

lemma find_own_server:
  assumes "plain_thread e rt p_conn dport st" "server_traces st k = Some t"
  shows "find_parent_trace e cfg rt p_conn (en_pid_tgid e) k_lw_thread_none k dport None st = (Some (RefServer k), st)"
proof -
  have no: "\<not> parent_trace_matches c s None x" for c s x by (simp add: parent_trace_matches_def)
  have "find_parent_java_trace cfg rt st k None = (Some (RefServer k), k)"
    unfolding find_parent_java_trace_def numeral_3_eq_3 by (rule thread_walk_here[OF assms(2)])
  then show ?thesis
    using assms(1) by (simp add: find_parent_trace_def find_thread_parent_def plain_thread_def Let_def no)
qed

text \<open>
  C2: A call made while serving joins the served trace. A thread starts serving a request with a valid
  context, with no other open request on it; then the same thread makes a client call, no later than
  the transaction time allows. Whatever else the maps hold, as long as no other runtime's lookup
  claims the call, the call is linked: it gets the request's trace id and flags, and the request's
  span or the manual span of that trace as its parent.
\<close>

theorem call_joins_served_trace:
  assumes "no_conflict e rt st"
    and "server_or_client_trace e cfg rt k_event_type_http_request conn lw tp_p ssl dport0 sid flags st = (tp_p', st1)"
    and "plain_thread e rt p_conn dport st1"
    and "tpp_valid tp_p \<noteq> 0" "valid_trace (tp_trace_id (tpp_tp tp_p))"
    and "should_be_in_same_transaction cfg (tpp_tp tp_p) tp"
  shows "\<exists>status ps st2. find_trace_for_client_request e cfg rt p_conn dport k_lw_thread_none tp st1 =
      (status, tp\<lparr>tp_trace_id := tp_trace_id (tpp_tp tp_p), tp_flags := tp_flags (tpp_tp tp_p), tp_parent_id := ps\<rparr>, st2) \<and>
      status \<noteq> k_parent_status_none \<and>
      (node_manual_ctx_shadow rt (en_pid_tgid e) = None \<longrightarrow> ps = tp_span_id (tpp_tp tp_p))"
proof -
  let ?t = "tp_p\<lparr>tpp_response_sent := 0\<rparr>"
  have k: "trace_key_from_pid_tid e rt = own_key e rt" by (simp add: trace_key_from_pid_tid_def own_key_def)
  have s: "server_traces st1 (own_key e rt) = Some ?t" using server_trace_stored[OF assms(1,2)] by blast
  obtain m ps where m: "nodejs_manual_parent_span_id rt st1 (en_pid_tgid e) (tp_trace_id (tpp_tp tp_p)) (tp_span_id (tpp_tp tp_p)) = (m, ps)"
    by (rule prod.exhaust)
  have "find_trace_for_client_request e cfg rt p_conn dport k_lw_thread_none tp st1 =
     (if m then k_parent_status_live else parent_kind cfg ?t,
      tp\<lparr>tp_trace_id := tp_trace_id (tpp_tp tp_p), tp_flags := tp_flags (tpp_tp tp_p), tp_parent_id := ps\<rparr>, st1)"
    using find_own_server[OF assms(3) s, of cfg] s assms(4-6) m
    by (simp add: find_trace_for_client_request_def k find_trace_for_client_request_with_t_key_def Let_def)
  moreover have "ps = tp_span_id (tpp_tp tp_p)" if "node_manual_ctx_shadow rt (en_pid_tgid e) = None"
    using m that by (simp add: nodejs_manual_parent_span_id_def)
  moreover have "(if m then k_parent_status_live else parent_kind cfg ?t) \<noteq> k_parent_status_none"
    by (simp add: parent_kind_def)
  ultimately show ?thesis by (intro exI conjI impI)
qed

theorem call_joins_served_trace_witness:
  "\<exists>status tp' st2. find_trace_for_client_request sample_env sample_trace_cfg empty_runtime sample_pid_conn 443 k_lw_thread_none
      sample_wire_tp (snd (server_or_client_trace sample_env sample_trace_cfg empty_runtime k_event_type_http_request
        sample_conn 0 sample_tpp 0 80 0 BPF_ANY empty_trace_maps)) = (status, tp', st2) \<and>
     status \<noteq> k_parent_status_none \<and> tp_parent_id tp' = replicate 8 2"
proof -
  obtain p' st1 where s: "server_or_client_trace sample_env sample_trace_cfg empty_runtime k_event_type_http_request
        sample_conn 0 sample_tpp 0 80 0 BPF_ANY empty_trace_maps = (p', st1)" by (rule prod.exhaust)
  have nc: "no_conflict sample_env empty_runtime empty_trace_maps"
    by (simp add: no_conflict_def empty_trace_maps_def)
  have "plain_thread sample_env empty_runtime sample_pid_conn 443 st1"
    by (simp add: plain_thread_def find_nodejs_parent_trace_def find_nginx_parent_trace_def fd_info_for_conn_def
        find_python_parent_trace_def resolve_python_current_task_def find_puma_parent_trace_def empty_runtime_def Let_def)
  moreover have "tpp_valid sample_tpp \<noteq> 0" "valid_trace (tp_trace_id (tpp_tp sample_tpp))"
    "should_be_in_same_transaction sample_trace_cfg (tpp_tp sample_tpp) sample_wire_tp"
    by (simp_all add: sample_tpp_def sample_tp_info_def valid_trace_iff should_be_in_same_transaction_def
        sample_trace_cfg_def sample_wire_tp_def)
  moreover have "node_manual_ctx_shadow empty_runtime (en_pid_tgid sample_env) = None"
    "tp_span_id (tpp_tp sample_tpp) = replicate 8 2"
    by (simp_all add: empty_runtime_def sample_tpp_def sample_tp_info_def)
  ultimately show ?thesis
    using call_joins_served_trace[OF nc s, of sample_pid_conn 443 sample_wire_tp] unfolding s by fastforce
qed

subsection \<open>The published thread context\<close>

text \<open>Where the context of a client stream is kept for the sending side; a request that is no stream is stream 0.\<close>

definition client_egress_key :: "connection_info \<Rightarrow> u32 \<Rightarrow> egress_key" where
  "client_egress_key conn stream =
     sort_egress_key \<lparr>ek_s_port = s_port conn, ek_d_port = d_port conn, ek_stream_id = stream\<rparr>"

lemma client_egress_key_inject [simp]: "client_egress_key conn a = client_egress_key conn b \<longleftrightarrow> a = b"
  by (simp add: client_egress_key_def sort_egress_key_def swap_egress_ports_def)

lemma server_trace_frame:
  assumes "server_or_client_trace e cfg rt k_event_type_http_request conn lw tp_p ssl dport sid flags st = (tp_p', st')"
  shows "trace_map st' = trace_map st" "outgoing_trace_map st' = outgoing_trace_map st"
    "cp_support_connect_info st' = cp_support_connect_info st"
  using assms by (auto simp: server_or_client_trace_def Let_def obi_ctx_set_def split: prod.splits option.splits if_splits)

lemma client_trace_stored:
  assumes "server_or_client_trace e cfg rt type conn lw cli 0 dport sid flags st = (cli', st')"
    and "type \<noteq> k_event_type_http_request" "java_vt_threads rt (task_tid (en_task e)) = None" "g_traces_ctx_v1_enabled cfg \<noteq> 0"
  shows "cli' = cli\<lparr>tpp_pid := pid_from_pid_tgid (en_pid_tgid e)\<rparr>" "trace_map st' = trace_map st"
    "outgoing_trace_map st' = map_update flags (client_egress_key conn sid) cli' (outgoing_trace_map st)"
    "cp_support_connect_info st' = cp_support_connect_info st" "server_traces st' = server_traces st"
    "traces_ctx_v1 st' = (traces_ctx_v1 st)(en_pid_tgid e \<mapsto>
       \<lparr>oc_trace_id = tp_trace_id (tpp_tp cli), oc_span_id = tp_span_id (tpp_tp cli)\<rparr>)"
  using assms by (auto simp: server_or_client_trace_def Let_def java_vt_mounted_def obi_ctx_set_def client_egress_key_def)

text \<open>
  C25: When a client span ends, the thread's published context is the server span again and the client's
  entries are gone. A thread that is not carrying a virtual thread starts serving a request, then
  publishes a client span whose parent is that request, sent in the clear and stored for its connection
  and, under its stream, for the sending side. Deleting the client span restores the request's trace
  and span id under the thread. Of the connection's client entry, the connection's parent hint and the
  entry of stream 0 nothing remains, and every other entry of these three maps is what it was before;
  a client that is no stream leaves nothing at all. The entry of another stream is not removed here:
  an unconditional update stored it, and it stays for the end of the stream to remove.
\<close>

theorem thread_context_restored:
  assumes "no_conflict e rt st" "java_vt_threads rt (task_tid (en_task e)) = None"
    and "g_traces_ctx_v1_enabled cfg \<noteq> 0" "tpp_valid srv \<noteq> 0"
    and "server_or_client_trace e cfg rt k_event_type_http_request conn lw srv ssl dport sid flags st = (srv', st1)"
    and "type \<noteq> k_event_type_http_request"
    and "server_or_client_trace e cfg rt type (pc_conn pid_conn) lw cli 0 dport2 sid2 flags2 st1 = (cli', st2)"
    and "tp_parent_id (tpp_tp cli) = tp_span_id (tpp_tp srv)"
    and "st3 = delete_client_trace_info e cfg rt pid_conn
           (set_trace_info_for_connection (pc_conn pid_conn) TRACE_TYPE_CLIENT cli' st2)"
  shows "traces_ctx_v1 st3 (en_pid_tgid e) =
      Some \<lparr>oc_trace_id = tp_trace_id (tpp_tp srv), oc_span_id = tp_span_id (tpp_tp srv)\<rparr> \<and>
    trace_map st3 = (trace_map st)(trace_key_from_conn (pc_conn pid_conn) TRACE_TYPE_CLIENT := None) \<and>
    cp_support_connect_info st3 = (cp_support_connect_info st)(pid_conn := None) \<and>
    outgoing_trace_map st3 (client_egress_key (pc_conn pid_conn) 0) = None \<and>
    (\<forall>key. key \<notin> {client_egress_key (pc_conn pid_conn) 0, client_egress_key (pc_conn pid_conn) sid2} \<longrightarrow>
      outgoing_trace_map st3 key = outgoing_trace_map st key) \<and>
    (sid2 \<noteq> 0 \<and> flags2 = BPF_ANY \<longrightarrow> outgoing_trace_map st3 (client_egress_key (pc_conn pid_conn) sid2) = Some cli')"
proof -
  have vt: "java_vt_translate_tid rt (task_tid (en_task e)) = (False, task_tid (en_task e))"
    using assms(2) by (simp add: java_vt_translate_tid_def)
  have k: "own_key e rt = \<lparr>trk_extra_id = extra_runtime_id e rt, trk_p_key = task_tid (en_task e)\<rparr>"
    by (simp add: own_key_def vt)
  have s1: "server_traces st1 (own_key e rt) = Some (srv\<lparr>tpp_response_sent := 0\<rparr>)"
    using server_trace_stored[OF assms(1,5)] by blast
  note stored = server_trace_frame[OF assms(5)] client_trace_stored[OF assms(7,6,2,3)]
  show ?thesis
    using s1 assms(3,4,8) vt
    by (simp add: assms(9) stored delete_client_trace_info_def Let_def set_trace_info_for_connection_def obi_ctx_restore_server_def
        obi_ctx_get_def obi_ctx_set_def delete_trace_info_for_connection_def map_del_def map_update_def BPF_ANY_def BPF_NOEXIST_def
        BPF_EXIST_def client_egress_key_def[of _ 0, symmetric] flip: k)
qed

theorem thread_context_restored_witness:
  "let cli = sample_tpp\<lparr>tpp_tp := sample_wire_tp\<lparr>tp_parent_id := replicate 8 2\<rparr>\<rparr>;
       (srv', st1) = server_or_client_trace sample_env sample_trace_cfg empty_runtime k_event_type_http_request
         sample_conn 0 sample_tpp 0 80 0 BPF_ANY empty_trace_maps;
       (cli', st2) = server_or_client_trace sample_env sample_trace_cfg empty_runtime k_event_type_http_client
         (pc_conn sample_pid_conn) 0 cli 0 443 0 BPF_ANY st1;
       st3 = delete_client_trace_info sample_env sample_trace_cfg empty_runtime sample_pid_conn
         (set_trace_info_for_connection (pc_conn sample_pid_conn) TRACE_TYPE_CLIENT cli' st2)
   in traces_ctx_v1 st3 (en_pid_tgid sample_env) = Some \<lparr>oc_trace_id = replicate 16 1, oc_span_id = replicate 8 2\<rparr> \<and>
      outgoing_trace_map st2 (client_egress_key sample_conn 0) = Some cli' \<and>
      trace_map st3 = Map.empty \<and> outgoing_trace_map st3 = Map.empty"
proof -
  let ?cli = "sample_tpp\<lparr>tpp_tp := sample_wire_tp\<lparr>tp_parent_id := replicate 8 2\<rparr>\<rparr>"
  obtain p1 st1 where s: "server_or_client_trace sample_env sample_trace_cfg empty_runtime k_event_type_http_request
        sample_conn 0 sample_tpp 0 80 0 BPF_ANY empty_trace_maps = (p1, st1)" by (rule prod.exhaust)
  obtain c1 st2 where c: "server_or_client_trace sample_env sample_trace_cfg empty_runtime k_event_type_http_client
        (pc_conn sample_pid_conn) 0 ?cli 0 443 0 BPF_ANY st1 = (c1, st2)" by (rule prod.exhaust)
  have h: "no_conflict sample_env empty_runtime empty_trace_maps" "java_vt_threads empty_runtime (task_tid (en_task sample_env)) = None"
    "g_traces_ctx_v1_enabled sample_trace_cfg \<noteq> 0" "tpp_valid sample_tpp \<noteq> 0"
    by (simp_all add: no_conflict_def empty_trace_maps_def empty_runtime_def sample_trace_cfg_def sample_tpp_def)
  have h2: "k_event_type_http_client \<noteq> k_event_type_http_request" "tp_parent_id (tpp_tp ?cli) = tp_span_id (tpp_tp sample_tpp)"
    by (simp_all add: event_types sample_tpp_def sample_tp_info_def)
  have ids: "tp_trace_id (tpp_tp sample_tpp) = replicate 16 1" "tp_span_id (tpp_tp sample_tpp) = replicate 8 2"
    by (simp_all add: sample_tpp_def sample_tp_info_def)
  define st3 where "st3 = delete_client_trace_info sample_env sample_trace_cfg empty_runtime sample_pid_conn
      (set_trace_info_for_connection (pc_conn sample_pid_conn) TRACE_TYPE_CLIENT c1 st2)"
  note restored = thread_context_restored[OF h s h2(1) c h2(2) st3_def, unfolded ids]
  have pc: "pc_conn sample_pid_conn = sample_conn" by (simp add: sample_pid_conn_def)
  have "trace_map st3 = Map.empty" using restored by (simp add: empty_trace_maps_def)
  moreover have "outgoing_trace_map st3 key = None" for key
    using restored by (cases "key = client_egress_key sample_conn 0") (simp_all add: pc empty_trace_maps_def)
  moreover have "outgoing_trace_map st2 (client_egress_key sample_conn 0) = Some c1"
    using client_trace_stored(3)[OF c h2(1) h(2,3)]
    by (simp add: pc map_update_def BPF_ANY_def BPF_NOEXIST_def BPF_EXIST_def)
  ultimately show ?thesis
    unfolding Let_def s prod.case c st3_def[symmetric] using restored by auto
qed

subsection \<open>Go calls made while serving\<close>

lemma server_trace_parent_stored:
  "server_trace_parent e cfg rt g tp found st = (srv, st') \<Longrightarrow> go_trace_map st' (go_addr_key_from_id e g) = Some srv"
  by (auto simp: server_trace_parent_def Let_def split: prod.splits)

lemma goroutine_walk_here: "go_trace_map st k = Some t \<Longrightarrow> goroutine_walk (Suc n) rt st k = ga_addr k"
  by simp

text \<open>
  C26: A Go call made on the goroutine of a server request joins its trace. After a goroutine has started
  serving, however its context was obtained, a client call on that goroutine that is no SQL
  statement's and comes within the transaction time gets the request's trace id and flags, the
  request's span as parent, and a span id of its own of eight bytes.
\<close>

theorem go_call_joins_server:
  assumes "server_trace_parent e cfg rt g tp found st = (srv, st1)"
    and "g \<noteq> 0" "ongoing_sql_queries rt (go_addr_key_from_id e g) = None"
    and "tp_ts srv \<le> en_clock e (clk_pos st1)" "en_clock e (clk_pos st1) - tp_ts srv < max_transaction_time cfg"
  shows "\<exists>cli st2. client_trace_parent e cfg rt g tp0 st1 = (True, cli, st2) \<and>
    tp_trace_id cli = tp_trace_id srv \<and> tp_flags cli = tp_flags srv \<and> tp_parent_id cli = tp_span_id srv \<and>
    tp_ts cli = en_clock e (clk_pos st1) \<and> length (tp_span_id cli) = 8"
proof -
  let ?k = "go_addr_key_from_id e g" and ?st = "st1\<lparr>clk_pos := Suc (clk_pos st1)\<rparr>"
  have s: "go_trace_map ?st ?k = Some srv" using server_trace_parent_stored[OF assms(1)] by simp
  have "goroutine_walk (Suc 5) rt ?st ?k = ga_addr ?k" by (rule goroutine_walk_here[OF s])
  then have "find_parent_goroutine rt ?st ?k = g"
    by (simp add: find_parent_goroutine_def eval_nat_numeral go_addr_key_from_id_def go_addr_key_from_id_and_pid_def)
  then have p: "tp_info_from_parent_go e rt ?st ?k = Some srv"
    using s assms(2) by (simp add: tp_info_from_parent_go_def Let_def)
  obtain span st2 where u: "read_urand e (4 * 2) ?st = (span, st2)" by (rule prod.exhaust)
  let ?cli = "(tp_from_parent (tp0\<lparr>tp_ts := en_clock e (clk_pos st1)\<rparr>) srv)\<lparr>tp_span_id := span\<rparr>"
  have "should_be_in_same_transaction cfg srv (tp0\<lparr>tp_ts := en_clock e (clk_pos st1)\<rparr>)"
    using assms(4,5) by (simp add: should_be_in_same_transaction_def)
  then have "client_trace_parent e cfg rt g tp0 st1 = (True, ?cli, st2)"
    using assms(3) p u by (simp add: client_trace_parent_def Let_def read_clock_def SPAN_ID_SIZE_BYTES_def)
  then show ?thesis
    using read_urand_length[OF u] by (simp add: tp_from_parent_def)
qed

theorem go_call_joins_server_witness:
  "let (srv, st1) = server_trace_parent sample_env sample_trace_cfg empty_runtime 5 sample_tp_info (Some sample_tp_info) empty_trace_maps
   in \<exists>cli st2. client_trace_parent sample_env sample_trace_cfg empty_runtime 5 sample_tp_info st1 = (True, cli, st2) \<and>
        tp_trace_id cli = replicate 16 1"
proof -
  obtain srv st1 where s: "server_trace_parent sample_env sample_trace_cfg empty_runtime 5 sample_tp_info (Some sample_tp_info)
      empty_trace_maps = (srv, st1)" by (rule prod.exhaust)
  have f: "tp_trace_id srv = replicate 16 1" "tp_ts srv = 1001" "clk_pos st1 = 2"
    using s by (auto simp: server_trace_parent_def Let_def read_clock_def read_urand_def sample_env_def empty_trace_maps_def
        sample_remote_child_def sample_remote_child_for_pid_def sampler_for_pid_def empty_runtime_def sample_tp_info_def
        split: prod.splits)
  have "(5 :: u64) \<noteq> 0" "ongoing_sql_queries empty_runtime (go_addr_key_from_id sample_env 5) = None"
    "tp_ts srv \<le> en_clock sample_env (clk_pos st1)"
    "en_clock sample_env (clk_pos st1) - tp_ts srv < max_transaction_time sample_trace_cfg"
    by (simp_all add: f empty_runtime_def sample_env_def sample_trace_cfg_def)
  from go_call_joins_server[OF s this, of sample_tp_info] show ?thesis
    unfolding s Let_def prod.case f(1) by blast
qed

end
