(* ===== verification/Large_Buf.thy ===== *)
theory Large_Buf
  imports Trace_State
begin

section \<open>Ring buffer events and captured payload chunks\<close>

text \<open>
  Models \<open>bpf/common/ringbuf.h\<close>, \<open>bpf/common/ringbuf_record.h\<close>, \<open>bpf/common/ringbuf_metrics.h\<close>,
  \<open>bpf/common/large_buffers.h\<close>, \<open>bpf/common/large_buf_emit.h\<close>, the TCP request and large buffer
  records of \<open>bpf/common/common.h\<close> and the direction helpers of
  \<open>bpf/generictracer/protocol_common.h\<close>. Whether the kernel accepts a record and how many bytes it
  reports as queued are streams indexed by the number of attempts so far. The interface
  \<open>capture_budget\<close> states what the protocol senders promise about the bytes they ship.
\<close>

subsection \<open>The event ring buffer\<close>

definition BPF_RB_NO_WAKEUP :: u64 where "BPF_RB_NO_WAKEUP = 1"
definition BPF_RB_FORCE_WAKEUP :: u64 where "BPF_RB_FORCE_WAKEUP = 2"
definition BPF_RINGBUF_HDR_SZ :: u64 where "BPF_RINGBUF_HDR_SZ = 8"
definition k_ringbuf_record_align :: u64 where "k_ringbuf_record_align = 8"

record ringbuf_write_stats =
  ws_writes :: u64
  ws_failures :: u64

text \<open>
  Records handed to user space with the wake-up flags used, the number of attempts made, and the
  statistics slot (\<open>None\<close> when its lookup fails).
\<close>

record 'e ring_buf =
  rg_out :: "('e \<times> u64) list"
  rg_tries :: nat
  rg_stats :: "ringbuf_write_stats option"

record ring_env =
  rb_ok :: "nat \<Rightarrow> bool"
  rb_avail :: "nat \<Rightarrow> u64"
  wakeup_data_bytes :: u32
  ringbuf_metrics_enabled :: bool

definition ringbuf_record_size :: "u64 \<Rightarrow> u64" where
  "ringbuf_record_size sz =
     (sz + BPF_RINGBUF_HDR_SZ + k_ringbuf_record_align - 1) AND NOT (k_ringbuf_record_align - 1)"

definition wakeup_flags :: "ring_env \<Rightarrow> 'e ring_buf \<Rightarrow> u64 \<Rightarrow> u64" where
  "wakeup_flags re rg pending =
     (if wakeup_data_bytes re = 0 then 0
      else if ucast (wakeup_data_bytes re) \<le> rb_avail re (rg_tries rg) + pending
      then BPF_RB_FORCE_WAKEUP else BPF_RB_NO_WAKEUP)"

definition get_flags :: "ring_env \<Rightarrow> 'e ring_buf \<Rightarrow> u64" where
  "get_flags re rg = wakeup_flags re rg 0"

definition get_output_flags :: "ring_env \<Rightarrow> 'e ring_buf \<Rightarrow> u64 \<Rightarrow> u64" where
  "get_output_flags re rg sz = wakeup_flags re rg (ringbuf_record_size sz)"

definition account_ringbuf_write :: "ring_env \<Rightarrow> bool \<Rightarrow> 'e ring_buf \<Rightarrow> 'e ring_buf" where
  "account_ringbuf_write re failed rg =
     (if \<not> ringbuf_metrics_enabled re then rg
      else case rg_stats rg of None \<Rightarrow> rg
      | Some s \<Rightarrow> rg\<lparr>rg_stats := Some (s\<lparr>ws_writes := ws_writes s + 1,
          ws_failures := ws_failures s + (if failed then 1 else 0)\<rparr>)\<rparr>)"

text \<open>\<open>True\<close> is the return code 0.\<close>

definition events_ringbuf_output :: "ring_env \<Rightarrow> 'e \<Rightarrow> u64 \<Rightarrow> 'e ring_buf \<Rightarrow> bool \<times> 'e ring_buf" where
  "events_ringbuf_output re ev sz rg =
     (let fl = get_output_flags re rg sz;
          ok = rb_ok re (rg_tries rg);
          rg = rg\<lparr>rg_tries := Suc (rg_tries rg),
                  rg_out := rg_out rg @ (if ok then [(ev, fl)] else [])\<rparr>
      in (ok, account_ringbuf_write re (\<not> ok) rg))"

text \<open>A reservation that succeeds is filled by its caller and then submitted.\<close>

definition events_ringbuf_reserve :: "ring_env \<Rightarrow> 'e ring_buf \<Rightarrow> bool \<times> 'e ring_buf" where
  "events_ringbuf_reserve re rg =
     (let ok = rb_ok re (rg_tries rg);
          rg = rg\<lparr>rg_tries := Suc (rg_tries rg)\<rparr>
      in (ok, account_ringbuf_write re (\<not> ok) rg))"

definition bpf_ringbuf_submit :: "'e \<Rightarrow> u64 \<Rightarrow> 'e ring_buf \<Rightarrow> 'e ring_buf" where
  "bpf_ringbuf_submit ev fl rg = rg\<lparr>rg_out := rg_out rg @ [(ev, fl)]\<rparr>"

subsection \<open>Data\<close>

definition PACKET_TYPE_REQUEST :: u8 where "PACKET_TYPE_REQUEST = 1"
definition PACKET_TYPE_RESPONSE :: u8 where "PACKET_TYPE_RESPONSE = 2"
definition k_event_type_tcp_large_buffer :: u8 where "k_event_type_tcp_large_buffer = 12"
definition k_event_type_failed_connect :: u8 where "k_event_type_failed_connect = 15"
definition k_event_source_kprobes :: u8 where "k_event_source_kprobes = 0"
definition k_event_source_lw_thread :: u8 where "k_event_source_lw_thread = 1"
definition k_large_buffer_source_kprobes :: u8 where "k_large_buffer_source_kprobes = 0"
definition k_tcp_max_len :: u32 where "k_tcp_max_len = 256"
definition k_tcp_res_len :: u32 where "k_tcp_res_len = 128"
definition k_large_buf_payload_max_size :: u32 where "k_large_buf_payload_max_size = 2 ^ 14"
definition k_large_buf_max_size :: u32 where "k_large_buf_max_size = 2 ^ 15"
definition k_large_buf_per_emit_max :: u32 where "k_large_buf_per_emit_max = 2 ^ 16"
definition k_large_buf_max_mysql_captured_bytes :: u32 where
  "k_large_buf_max_mysql_captured_bytes = 2 ^ 16"
definition k_large_buf_max_postgres_captured_bytes :: u32 where
  "k_large_buf_max_postgres_captured_bytes = 2 ^ 16"
definition k_large_buf_max_kafka_captured_bytes :: u32 where
  "k_large_buf_max_kafka_captured_bytes = 2 ^ 16"
definition k_large_buf_max_mssql_captured_bytes :: u32 where
  "k_large_buf_max_mssql_captured_bytes = 2 ^ 16"
definition k_large_buf_max_tcp_captured_bytes :: u32 where
  "k_large_buf_max_tcp_captured_bytes = 2 ^ 16"
definition k_large_buf_max_aerospike_captured_bytes :: u32 where
  "k_large_buf_max_aerospike_captured_bytes = 2 ^ 16"

text \<open>The size of a \<open>tcp_large_buffer_t\<close> without its flexible array, and of a pointer.\<close>

definition sizeof_tcp_large_buffer :: u32 where "sizeof_tcp_large_buffer = 96"
definition sizeof_ptr :: u32 where "sizeof_ptr = 8"

datatype large_buf_action = k_large_buf_action_init | k_large_buf_action_append
datatype large_buf_kind = k_large_buf_layer_wire | k_large_buf_layer_app
datatype large_buf_read_mode = k_large_buf_read_kernel | k_large_buf_read_user

record tcp_req =
  tr_flags :: u8
  tr_ssl :: u8
  tr_direction :: u8
  tr_has_large_buffers :: bool
  tr_protocol_type :: protocol_type
  tr_is_server :: bool
  tr_parent_status :: parent_status
  tr_conn_info :: connection_info
  tr_len :: u32
  tr_start_monotime_ns :: u64
  tr_end_monotime_ns :: u64
  tr_extra_id :: u64
  tr_task_tid :: u32
  tr_req_len :: u32
  tr_resp_len :: u32
  tr_lb_req_bytes :: u32
  tr_lb_res_bytes :: u32
  tr_event_source :: u8
  tr_buf :: bytes
  tr_rbuf :: bytes
  tr_pid :: pid_info
  tr_tp :: tp_info

record tcp_large_buffer =
  lb_type :: u8
  lb_packet_type :: u8
  lb_action :: large_buf_action
  lb_direction :: u8
  lb_len :: u32
  lb_conn_info :: connection_info
  lb_kind :: large_buf_kind
  lb_source :: u8
  lb_tp :: tp_info
  lb_buf :: bytes

datatype obi_event = LargeBufferEvent tcp_large_buffer | TcpEvent tcp_req | HttpEvent http_info | Http2Event http2_grpc_request

text \<open>The limits set when the programs are loaded.\<close>

record capture_cfg =
  mysql_max_captured_bytes :: u32
  postgres_max_captured_bytes :: u32
  kafka_max_captured_bytes :: u32
  mssql_max_captured_bytes :: u32
  tcp_max_captured_bytes :: u32
  aerospike_max_captured_bytes :: u32

definition bpf_clamp_umax :: "u32 \<Rightarrow> u32 \<Rightarrow> u32" where
  "bpf_clamp_umax v m = (if v \<le> m then v else m)"

subsection \<open>Chunked emission\<close>

text \<open>
  The loop of \<open>large_buf_emit_chunks\<close> with \<open>n\<close> turns left and \<open>b\<close> turns made. A failed read zeroes
  the destination. The record shipped is the header and the part of the payload array that its
  size covers.
\<close>

primrec emit_chunks_from ::
  "ring_env \<Rightarrow> mem \<Rightarrow> nat \<Rightarrow> nat \<Rightarrow> nat \<Rightarrow> u32 \<Rightarrow> u32 \<Rightarrow> tcp_large_buffer \<Rightarrow> obi_event ring_buf
   \<Rightarrow> u32 \<times> tcp_large_buffer \<times> obi_event ring_buf" where
  "emit_chunks_from re m p 0 b avail consumed lb rg = (consumed, lb, rg)"
| "emit_chunks_from re m p (Suc n) b avail consumed lb rg =
     (let offset = b * unat k_large_buf_payload_max_size;
          read_size = bpf_clamp_umax (min avail k_large_buf_payload_max_size) k_large_buf_payload_max_size;
          lb = lb\<lparr>lb_buf := probe_read_z m (p + offset) (unat read_size) @ drop (unat read_size) (lb_buf lb)\<rparr>
      in case probe_read m (p + offset) (unat read_size) of
        None \<Rightarrow> (consumed, lb, rg)
      | Some _ \<Rightarrow>
          (let lb = lb\<lparr>lb_len := read_size\<rparr>;
               payload_size = bpf_clamp_umax (max read_size sizeof_ptr) k_large_buf_payload_max_size;
               total_size = bpf_clamp_umax (sizeof_tcp_large_buffer + payload_size) k_large_buf_max_size;
               ev = lb\<lparr>lb_buf := take (unat (total_size - sizeof_tcp_large_buffer)) (lb_buf lb)\<rparr>;
               (ok, rg) = events_ringbuf_output re (LargeBufferEvent ev) (ucast total_size) rg
           in if \<not> ok then (consumed, lb, rg)
              else emit_chunks_from re m p n (Suc b) (avail - read_size) (consumed + read_size)
                     (lb\<lparr>lb_action := k_large_buf_action_append\<rparr>) rg))"

definition large_buf_emit_chunks ::
  "ring_env \<Rightarrow> (large_buf_read_mode \<Rightarrow> mem) \<Rightarrow> tcp_large_buffer \<Rightarrow> nat \<Rightarrow> u32 \<Rightarrow> large_buf_read_mode
   \<Rightarrow> obi_event ring_buf \<Rightarrow> u32 \<times> tcp_large_buffer \<times> obi_event ring_buf" where
  "large_buf_emit_chunks re ms lb u_buf available_bytes mode rg =
     (let avail = bpf_clamp_umax available_bytes k_large_buf_per_emit_max;
          niter = avail div k_large_buf_payload_max_size +
                  (if avail mod k_large_buf_payload_max_size > 0 then 1 else 0)
      in emit_chunks_from re (ms mode) u_buf (unat niter) 0 avail 0 lb rg)"

subsection \<open>Protocol state\<close>

text \<open>
  The maps the protocol parsers keep between packets of a connection, the event ring buffer and the
  per-CPU scratch record for large buffers (\<open>None\<close> when its lookup fails). Signed fields are words
  read with \<open>sint\<close> where the code compares them.
\<close>

record mysql_state_data =
  ms_payload_length :: bytes
  ms_sequence_id :: u8

record kafka_state_key =
  kk_conn :: connection_info
  kk_direction :: u8

record kafka_correlation_data =
  kc_correlation_id :: u32
  kc_response_bytes_remaining :: u32

record proto_maps =
  pm_ring :: "obi_event ring_buf"
  tcp_large_buffers :: "tcp_large_buffer option"
  mysql_state :: "connection_info \<rightharpoonup> mysql_state_data"
  kafka_state :: "kafka_state_key \<rightharpoonup> u32"
  kafka_ongoing_requests :: "connection_info \<rightharpoonup> kafka_correlation_data"
  aerospike_state :: "connection_info \<rightharpoonup> u64"
  protocol_cache :: "connection_info \<rightharpoonup> protocol_type"

text \<open>The header fields every sender fills before it ships chunks.\<close>

definition fill_large_buffer ::
  "tcp_req \<Rightarrow> connection_info \<Rightarrow> u8 \<Rightarrow> u8 \<Rightarrow> large_buf_action \<Rightarrow> large_buf_kind \<Rightarrow> tcp_large_buffer \<Rightarrow> tcp_large_buffer" where
  "fill_large_buffer req conn packet_type direction action kind lb =
     lb\<lparr>lb_type := k_event_type_tcp_large_buffer, lb_packet_type := packet_type, lb_action := action,
        lb_kind := kind, lb_direction := direction, lb_conn_info := conn, lb_tp := tr_tp req,
        lb_source := k_large_buffer_source_kprobes\<rparr>"

text \<open>Shipping chunks from the scratch record, and the counters of the request afterwards.\<close>

definition emit_from_scratch ::
  "ring_env \<Rightarrow> (large_buf_read_mode \<Rightarrow> mem) \<Rightarrow> tcp_large_buffer \<Rightarrow> nat \<Rightarrow> u32 \<Rightarrow> proto_maps \<Rightarrow> u32 \<times> proto_maps" where
  "emit_from_scratch re ms lb u_buf avail st =
     (let (c, lb', rg') = large_buf_emit_chunks re ms lb u_buf avail k_large_buf_read_kernel (pm_ring st)
      in (c, st\<lparr>pm_ring := rg', tcp_large_buffers := Some lb'\<rparr>))"

definition bytes_sent :: "u8 \<Rightarrow> tcp_req \<Rightarrow> u32" where
  "bytes_sent packet_type req =
     (if packet_type = PACKET_TYPE_REQUEST then tr_lb_req_bytes req else tr_lb_res_bytes req)"

definition add_consumed :: "u8 \<Rightarrow> u32 \<Rightarrow> tcp_req \<Rightarrow> tcp_req" where
  "add_consumed packet_type c req =
     (let req = (if packet_type = PACKET_TYPE_REQUEST
                 then req\<lparr>tr_lb_req_bytes := tr_lb_req_bytes req + c\<rparr>
                 else req\<lparr>tr_lb_res_bytes := tr_lb_res_bytes req + c\<rparr>)
      in if c > 0 then req\<lparr>tr_has_large_buffers := True\<rparr> else req)"

subsection \<open>Direction helpers\<close>

type_synonym listening_ports = "u16 \<times> u32 \<rightharpoonup> bool"

definition is_listening :: "listening_ports \<Rightarrow> u16 \<Rightarrow> u32 \<Rightarrow> bool" where
  "is_listening lp port netns = (case lp (port, netns) of None \<Rightarrow> False | Some b \<Rightarrow> b)"

definition infer_packet_type :: "u8 \<Rightarrow> bool \<Rightarrow> u8" where
  "infer_packet_type direction is_server =
     (if (direction = TCP_RECV \<and> is_server) \<or> (direction = TCP_SEND \<and> \<not> is_server)
      then PACKET_TYPE_REQUEST else PACKET_TYPE_RESPONSE)"

definition request_type_by_direction :: "u8 \<Rightarrow> u8 \<Rightarrow> u8" where
  "request_type_by_direction direction packet_type =
     (if packet_type = PACKET_TYPE_RESPONSE
      then (if direction = TCP_RECV then k_event_type_http_client else k_event_type_http_request)
      else (if direction = TCP_RECV then k_event_type_http_request else k_event_type_http_client))"

definition event_source :: "u64 \<Rightarrow> u8" where
  "event_source lw_thread = (if lw_thread \<noteq> k_lw_thread_none then k_event_source_lw_thread else k_event_source_kprobes)"


subsection \<open>What a run of chunks ships\<close>

text \<open>The payload bytes of an event that user space reads.\<close>

fun chunk_data :: "obi_event \<Rightarrow> bytes" where
  "chunk_data (LargeBufferEvent lb) = take (unat (lb_len lb)) (lb_buf lb)"
| "chunk_data (TcpEvent r) = []"
| "chunk_data (HttpEvent i) = []"
| "chunk_data (Http2Event r) = []"

text \<open>The fields of a chunk that do not change from one chunk of a run to the next.\<close>

definition lb_hdr where
  "lb_hdr lb = (lb_type lb, lb_packet_type lb, lb_direction lb, lb_conn_info lb, lb_kind lb, lb_source lb, lb_tp lb)"

text \<open>An event that carries the header of \<open>lb\<close> with the given action.\<close>

fun chunk_of :: "tcp_large_buffer \<Rightarrow> large_buf_action \<Rightarrow> obi_event \<Rightarrow> bool" where
  "chunk_of lb a (LargeBufferEvent ev) \<longleftrightarrow>
     lb_hdr ev = lb_hdr lb \<and> lb_action ev = a \<and>
     0 < lb_len ev \<and> lb_len ev \<le> k_large_buf_payload_max_size \<and> unat (lb_len ev) \<le> length (lb_buf ev)"
| "chunk_of lb a (TcpEvent r) \<longleftrightarrow> False"
| "chunk_of lb a (HttpEvent i) \<longleftrightarrow> False"
| "chunk_of lb a (Http2Event r) \<longleftrightarrow> False"

definition shipped :: "'e ring_buf \<Rightarrow> 'e list" where
  "shipped rg = map fst (rg_out rg)"

lemma account_fields [simp]:
  "rg_out (account_ringbuf_write re f rg) = rg_out rg" "rg_tries (account_ringbuf_write re f rg) = rg_tries rg"
  by (simp_all add: account_ringbuf_write_def split: option.split)

lemma output_cases:
  "events_ringbuf_output re ev sz rg = (ok, rg') \<Longrightarrow>
     ok = rb_ok re (rg_tries rg) \<and> rg_tries rg' = Suc (rg_tries rg) \<and>
     shipped rg' = shipped rg @ (if ok then [ev] else [])"
  by (auto simp: events_ringbuf_output_def shipped_def Let_def)

text \<open>The sizes of one turn.\<close>

lemma turn_sizes:
  fixes avail :: u32
  defines "rs \<equiv> bpf_clamp_umax (min avail k_large_buf_payload_max_size) k_large_buf_payload_max_size"
  shows "unat rs = min (unat avail) 16384"
    and "unat rs \<le> unat (bpf_clamp_umax (sizeof_tcp_large_buffer +
            bpf_clamp_umax (max rs sizeof_ptr) k_large_buf_payload_max_size) k_large_buf_max_size
          - sizeof_tcp_large_buffer)"
proof -
  have rs: "rs = min avail 16384"
    by (simp add: rs_def bpf_clamp_umax_def k_large_buf_payload_max_size_def)
  then have le: "rs \<le> 16384" by simp
  show "unat rs = min (unat avail) 16384"
    by (simp add: rs min_def word_le_nat_alt)
  have "bpf_clamp_umax (max rs sizeof_ptr) k_large_buf_payload_max_size = max rs 8"
    using le by (simp add: bpf_clamp_umax_def k_large_buf_payload_max_size_def sizeof_ptr_def)
  moreover have "96 + max rs 8 \<le> 32768"
    using le by (simp add: word_le_nat_alt max_def unat_word_ariths)
  ultimately show "unat rs \<le> unat (bpf_clamp_umax (sizeof_tcp_large_buffer +
            bpf_clamp_umax (max rs sizeof_ptr) k_large_buf_payload_max_size) k_large_buf_max_size
          - sizeof_tcp_large_buffer)"
    by (simp add: sizeof_tcp_large_buffer_def bpf_clamp_umax_def k_large_buf_max_size_def max_def word_le_nat_alt)
qed

text \<open>
  The number of turns is the number of payload-sized pieces that cover the available bytes, so a
  turn that moves less than a full piece is the last one.
\<close>

lemma emit_from_spec:
  "\<lbrakk>emit_chunks_from re m p n b avail c lb rg = (c', lb', rg'); n = (unat avail + 16383) div 16384;
    unat c + unat avail < 2 ^ 32\<rbrakk> \<Longrightarrow>
   \<exists>evs. shipped rg' = shipped rg @ evs \<and> unat c \<le> unat c' \<and> unat c' \<le> unat c + unat avail \<and>
     probe_read m (p + b * 16384) (unat c' - unat c) = Some (concat (map chunk_data evs)) \<and>
     (\<forall>i < length evs. chunk_of lb (if i = 0 then lb_action lb else k_large_buf_action_append) (evs ! i)) \<and>
     ((\<forall>i. rb_ok re i) \<and> probe_read m (p + b * 16384) (unat avail) \<noteq> None \<longrightarrow> unat c' = unat c + unat avail)"
proof (induction n arbitrary: b avail c lb rg)
  case 0
  then have "unat avail = 0" by simp
  with 0 show ?case by (auto intro: exI[of _ "[]"])
next
  case (Suc n)
  define rs where "rs = bpf_clamp_umax (min avail k_large_buf_payload_max_size) k_large_buf_payload_max_size"
  note sz = turn_sizes[of avail, folded rs_def]
  have av: "0 < unat avail" using Suc.prems(2) by (cases "unat avail = 0") simp_all
  have K: "unat k_large_buf_payload_max_size = 16384" by (simp add: k_large_buf_payload_max_size_def)
  have split: "probe_read m (p + b * 16384) (unat avail) \<noteq> None \<Longrightarrow>
      probe_read m (p + b * 16384) (unat rs) \<noteq> None \<and>
      probe_read m (p + b * 16384 + unat rs) (unat avail - unat rs) \<noteq> None"
    using probe_read_append[of m "p + b * 16384" "unat rs" "unat avail - unat rs"] sz(1)
    by (auto split: option.splits)
  show ?case
  proof (cases "probe_read m (p + b * 16384) (unat rs)")
    case None
    then show ?thesis using Suc.prems(1) split by (auto simp: rs_def[symmetric] K Let_def intro: exI[of _ "[]"])
  next
    case (Some bs)
    have lbs: "length bs = unat rs" using Some by (rule probe_read_length)
    define tot where "tot = bpf_clamp_umax (sizeof_tcp_large_buffer +
            bpf_clamp_umax (max rs sizeof_ptr) k_large_buf_payload_max_size) k_large_buf_max_size"
    define lb1 where "lb1 = lb\<lparr>lb_buf := bs @ drop (unat rs) (lb_buf lb), lb_len := rs\<rparr>"
    define ev where "ev = lb1\<lparr>lb_buf := take (unat (tot - sizeof_tcp_large_buffer)) (lb_buf lb1)\<rparr>"
    obtain ok rg1 where o: "events_ringbuf_output re (LargeBufferEvent ev) (ucast tot) rg = (ok, rg1)"
      by (rule prod.exhaust)
    note oc = output_cases[OF o]
    have ed: "chunk_data (LargeBufferEvent ev) = bs"
      using sz(2) lbs by (simp add: ev_def lb1_def tot_def[symmetric] min_def)
    have eh: "chunk_of lb (lb_action lb) (LargeBufferEvent ev)"
      using sz av lbs by (simp add: ev_def lb1_def lb_hdr_def tot_def[symmetric] K word_le_nat_alt word_less_nat_alt)
    show ?thesis
    proof (cases ok)
      case False
      then have "c' = c" "rg' = rg1"
        using Suc.prems(1) Some o
        by (simp_all add: rs_def[symmetric] K Let_def probe_read_z_def lb1_def ev_def tot_def)
      then show ?thesis using oc False by (auto intro: exI[of _ "[]"])
    next
      case True
      have step: "emit_chunks_from re m p n (Suc b) (avail - rs) (c + rs)
          (lb1\<lparr>lb_action := k_large_buf_action_append\<rparr>) rg1 = (c', lb', rg')"
        using Suc.prems(1) Some o True
        by (simp add: rs_def[symmetric] K Let_def probe_read_z_def lb1_def ev_def tot_def)
      have ua: "unat (avail - rs) = unat avail - unat rs"
        using sz(1) by (simp add: unat_sub word_le_nat_alt)
      have uc: "unat (c + rs) = unat c + unat rs"
        using Suc.prems(3) sz(1) by (simp add: unat_word_ariths)
      have n: "n = (unat (avail - rs) + 16383) div 16384"
        using Suc.prems(2) sz(1) unfolding ua by (simp add: min_def split: if_splits)
      have lim: "unat (c + rs) + unat (avail - rs) < 2 ^ 32"
        using Suc.prems(3) sz(1) unfolding ua uc by simp
      obtain evs where evs: "shipped rg' = shipped rg1 @ evs" "unat (c + rs) \<le> unat c'"
        "unat c' \<le> unat (c + rs) + unat (avail - rs)"
        "probe_read m (p + Suc b * 16384) (unat c' - unat (c + rs)) = Some (concat (map chunk_data evs))"
        "\<forall>i < length evs. chunk_of (lb1\<lparr>lb_action := k_large_buf_action_append\<rparr>)
           (if i = 0 then lb_action (lb1\<lparr>lb_action := k_large_buf_action_append\<rparr>) else k_large_buf_action_append) (evs ! i)"
        "(\<forall>i. rb_ok re i) \<and> probe_read m (p + Suc b * 16384) (unat (avail - rs)) \<noteq> None \<longrightarrow>
           unat c' = unat (c + rs) + unat (avail - rs)"
        using Suc.IH[OF step n lim] by blast
      have pos: "unat (avail - rs) = 0 \<or> unat rs = 16384" using sz(1) unfolding ua by (simp add: min_def)
      have rd: "probe_read m (p + b * 16384) (unat c' - unat c) = Some (bs @ concat (map chunk_data evs))"
      proof -
        have e: "unat c' - unat c = unat rs + (unat c' - unat (c + rs))" using evs(2) uc by simp
        have "unat c' - unat (c + rs) = 0 \<or> unat rs = 16384" using pos evs(3) by auto
        then have "probe_read m (p + b * 16384 + unat rs) (unat c' - unat (c + rs))
            = Some (concat (map chunk_data evs))"
          using evs(4) by (auto simp: ac_simps)
        then show ?thesis unfolding e probe_read_append by (simp add: Some)
      qed
      have ch: "chunk_of lb (if i = 0 then lb_action lb else k_large_buf_action_append)
          ((LargeBufferEvent ev # evs) ! i)" if "i < Suc (length evs)" for i
      proof (cases i)
        case 0
        then show ?thesis using eh by simp
      next
        case (Suc j)
        with that evs(5) have "chunk_of (lb1\<lparr>lb_action := k_large_buf_action_append\<rparr>)
            k_large_buf_action_append (evs ! j)" by (auto split: if_splits)
        then show ?thesis using Suc by (cases "evs ! j") (simp_all add: lb1_def lb_hdr_def)
      qed
      have full: "(\<forall>i. rb_ok re i) \<and> probe_read m (p + b * 16384) (unat avail) \<noteq> None \<longrightarrow>
          unat c' = unat c + unat avail"
        using evs(6) split pos sz(1) unfolding ua uc by (auto simp: ac_simps)
      have sh: "shipped rg' = shipped rg @ (LargeBufferEvent ev # evs)" using evs(1) oc True by simp
      have bd: "unat c \<le> unat c'" "unat c' \<le> unat c + unat avail"
        using evs(2,3) sz(1) unfolding ua uc by simp_all
      have "concat (map chunk_data (LargeBufferEvent ev # evs)) = bs @ concat (map chunk_data evs)"
        unfolding list.map concat.simps ed ..
      then show ?thesis using sh bd rd ch full
        by (intro exI[of _ "LargeBufferEvent ev # evs"] conjI) (simp_all only: list.size, simp_all)
    qed
  qed
qed


lemma ceil_div_nat: "(n + 16383) div 16384 = n div 16384 + (if n mod 16384 > 0 then 1 else (0::nat))"
proof -
  define q r where "q = n div 16384" and "r = n mod 16384"
  have n: "n = 16384 * q + r" and r: "r < 16384" by (simp_all add: q_def r_def)
  have "(16384 * q + r + 16383) div 16384 = q + (if r > 0 then 1 else 0)"
    using r by (intro div_nat_eqI) auto
  then show ?thesis by (simp add: n[symmetric] q_def[symmetric] r_def[symmetric])
qed

lemma emit_spec:
  assumes "large_buf_emit_chunks re ms lb u_buf avail mode rg = (c, lb', rg')"
  shows "\<exists>evs. shipped rg' = shipped rg @ evs \<and> unat c \<le> min (unat avail) 65536 \<and>
     probe_read (ms mode) u_buf (unat c) = Some (concat (map chunk_data evs)) \<and>
     (\<forall>i < length evs. chunk_of lb (if i = 0 then lb_action lb else k_large_buf_action_append) (evs ! i)) \<and>
     ((\<forall>i. rb_ok re i) \<and> probe_read (ms mode) u_buf (min (unat avail) 65536) \<noteq> None \<longrightarrow>
        unat c = min (unat avail) 65536)"
proof -
  define av where "av = bpf_clamp_umax avail k_large_buf_per_emit_max"
  have uav: "unat av = min (unat avail) 65536"
    by (simp add: av_def bpf_clamp_umax_def k_large_buf_per_emit_max_def word_le_nat_alt min_def)
  then have le: "unat av \<le> 65536" by simp
  define niter where "niter = av div k_large_buf_payload_max_size +
      (if av mod k_large_buf_payload_max_size > 0 then 1 else 0)"
  have "unat niter = (unat av + 16383) div 16384"
  proof -
    have d: "unat (av div 16384) = unat av div 16384" "unat (av mod 16384) = unat av mod 16384"
      by (simp_all add: unat_div unat_mod)
    have "unat av div 16384 + 1 < 2 ^ 32" using le by simp
    then have "unat niter = unat av div 16384 + (if unat av mod 16384 > 0 then 1 else 0)"
      by (simp add: niter_def k_large_buf_payload_max_size_def word_less_nat_alt unat_word_ariths)
    also have "\<dots> = (unat av + 16383) div 16384" by (simp add: ceil_div_nat)
    finally show ?thesis .
  qed
  moreover have "emit_chunks_from re (ms mode) u_buf (unat niter) 0 av 0 lb rg = (c, lb', rg')"
    using assms by (simp add: large_buf_emit_chunks_def av_def niter_def Let_def)
  ultimately show ?thesis
    using emit_from_spec[of re "ms mode" u_buf "unat niter" 0 av 0 lb rg c lb' rg'] le uav by auto
qed

text \<open>
  The receiver keeps one payload per request side: an initial chunk replaces what it has, an
  appended one extends it.
\<close>

fun receive_chunk :: "obi_event \<Rightarrow> bytes \<Rightarrow> bytes" where
  "receive_chunk (LargeBufferEvent lb) acc =
     (case lb_action lb of k_large_buf_action_init \<Rightarrow> [] | k_large_buf_action_append \<Rightarrow> acc)
     @ chunk_data (LargeBufferEvent lb)"
| "receive_chunk (TcpEvent r) acc = acc"
| "receive_chunk (HttpEvent i) acc = acc"
| "receive_chunk (Http2Event r) acc = acc"

lemma receive_appended:
  "\<forall>ev \<in> set evs. chunk_of lb k_large_buf_action_append ev \<Longrightarrow>
     fold receive_chunk evs acc = acc @ concat (map chunk_data evs)"
proof (induction evs arbitrary: acc)
  case Nil
  then show ?case by simp
next
  case (Cons ev evs)
  then obtain x where x: "ev = LargeBufferEvent x" "lb_action x = k_large_buf_action_append"
    by (cases ev) auto
  have "fold receive_chunk evs (acc @ chunk_data ev) = (acc @ chunk_data ev) @ concat (map chunk_data evs)"
    using Cons by simp
  then show ?case using x by simp
qed

lemma receive_run:
  assumes "\<forall>i < length evs. chunk_of lb (if i = 0 then lb_action lb else k_large_buf_action_append) (evs ! i)"
  shows "fold receive_chunk evs acc =
    (if evs \<noteq> [] \<and> lb_action lb = k_large_buf_action_init then [] else acc) @ concat (map chunk_data evs)"
proof (cases evs)
  case Nil
  then show ?thesis by simp
next
  case (Cons ev rest)
  have hd: "chunk_of lb (lb_action lb) ev" using assms Cons by force
  have "chunk_of lb k_large_buf_action_append (rest ! i)" if "i < length rest" for i
    using assms[rule_format, of "Suc i"] that Cons by simp
  then have "\<forall>e \<in> set rest. chunk_of lb k_large_buf_action_append e"
    by (auto simp: in_set_conv_nth)
  note tl = receive_appended[OF this]
  from hd obtain x where "ev = LargeBufferEvent x" "lb_action x = lb_action lb" by (cases ev) auto
  then show ?thesis using Cons tl by (cases "lb_action lb") simp_all
qed

text \<open>
  C7: A run of chunks ships a prefix of the buffer, at most 64 KiB and at most the bytes asked for:
  putting the chunks together as their actions say gives exactly the bytes at the buffer's start,
  as many as reported. Each chunk carries the header given and between 1 byte and 16 KiB. When the
  buffer can be read and the ring buffer accepts every record, nothing is left out.
\<close>

theorem large_buf_reassembled:
  assumes "large_buf_emit_chunks re ms lb u_buf avail mode rg = (c, lb', rg')"
  shows "\<exists>evs bs. shipped rg' = shipped rg @ evs \<and> probe_read (ms mode) u_buf (unat c) = Some bs \<and>
     fold receive_chunk evs acc =
       (if evs \<noteq> [] \<and> lb_action lb = k_large_buf_action_init then [] else acc) @ bs \<and>
     (\<forall>ev \<in> set evs. chunk_of lb (lb_action lb) ev \<or> chunk_of lb k_large_buf_action_append ev) \<and>
     unat c \<le> min (unat avail) 65536 \<and>
     ((\<forall>i. rb_ok re i) \<and> probe_read (ms mode) u_buf (min (unat avail) 65536) \<noteq> None \<longrightarrow>
        unat c = min (unat avail) 65536)"
proof -
  obtain evs where evs: "shipped rg' = shipped rg @ evs" "unat c \<le> min (unat avail) 65536"
    "probe_read (ms mode) u_buf (unat c) = Some (concat (map chunk_data evs))"
    "\<forall>i < length evs. chunk_of lb (if i = 0 then lb_action lb else k_large_buf_action_append) (evs ! i)"
    "(\<forall>i. rb_ok re i) \<and> probe_read (ms mode) u_buf (min (unat avail) 65536) \<noteq> None \<longrightarrow>
       unat c = min (unat avail) 65536"
    using emit_spec[OF assms] by blast
  have "chunk_of lb (lb_action lb) ev \<or> chunk_of lb k_large_buf_action_append ev" if ev: "ev \<in> set evs" for ev
  proof -
    obtain i where "i < length evs" "ev = evs ! i" using ev by (auto simp: in_set_conv_nth)
    then show ?thesis using evs(4) by (cases "i = 0") auto
  qed
  then show ?thesis using evs receive_run[OF evs(4), of acc] by blast
qed

definition sample_ring_env :: ring_env where
  "sample_ring_env = \<lparr>rb_ok = (\<lambda>_. True), rb_avail = (\<lambda>_. 0), wakeup_data_bytes = 0, ringbuf_metrics_enabled = False\<rparr>"

definition empty_ring :: "'e ring_buf" where
  "empty_ring = \<lparr>rg_out = [], rg_tries = 0, rg_stats = None\<rparr>"

definition sample_lb :: tcp_large_buffer where
  "sample_lb = \<lparr>lb_type = 0, lb_packet_type = 1, lb_action = k_large_buf_action_init, lb_direction = 0,
     lb_len = 0, lb_conn_info = sample_conn, lb_kind = k_large_buf_layer_app, lb_source = 0,
     lb_tp = sample_tp_info, lb_buf = replicate 32672 0\<rparr>"

theorem large_buf_reassembled_witness:
  "\<exists>c lb' rg'. large_buf_emit_chunks sample_ring_env (\<lambda>_. mem_of 0 [7, 8, 9]) sample_lb 0 3
       k_large_buf_read_kernel empty_ring = (c, lb', rg') \<and> c = 3 \<and>
     fold receive_chunk (shipped rg') [1] = [7, 8, 9]"
proof -
  obtain c lb' rg' where e: "large_buf_emit_chunks sample_ring_env (\<lambda>_. mem_of 0 [7, 8, 9]) sample_lb 0 3
       k_large_buf_read_kernel empty_ring = (c, lb', rg')" by (rule prod_cases3)
  have r: "probe_read (mem_of 0 [7, 8, 9]) 0 3 = Some [7, 8, 9]"
    using probe_read_mem_of[of 0 3 "[7, 8, 9]" 0] by simp
  have u: "unat (3 :: u32) = 3" by simp
  from large_buf_reassembled[OF e, of "[1]"] obtain evs bs where
    x: "shipped rg' = evs" "probe_read (mem_of 0 [7, 8, 9]) 0 (unat c) = Some bs" "unat c = 3"
      "fold receive_chunk evs [1] = (if evs \<noteq> [] then [] else [1]) @ bs"
    by (auto simp: r sample_ring_env_def empty_ring_def shipped_def sample_lb_def)
  then have bs: "bs = [7, 8, 9]" using r by simp
  moreover have "evs \<noteq> []" using x(4) bs by auto
  moreover have "c = 3" using x(3) u by (metis word_unat_eq_iff)
  ultimately show ?thesis using e x by auto
qed

subsection \<open>Capture budgets\<close>

text \<open>Payload bytes shipped for the request side (\<open>True\<close>) or the response side.\<close>

fun on_side :: "bool \<Rightarrow> obi_event \<Rightarrow> bool" where
  "on_side s (LargeBufferEvent lb) \<longleftrightarrow> s = (lb_packet_type lb = PACKET_TYPE_REQUEST)"
| "on_side s (TcpEvent r) \<longleftrightarrow> False"
| "on_side s (HttpEvent i) \<longleftrightarrow> False"
| "on_side s (Http2Event r) \<longleftrightarrow> False"

definition side_bytes :: "bool \<Rightarrow> obi_event list \<Rightarrow> nat" where
  "side_bytes s evs = sum_list (map (\<lambda>ev. length (chunk_data ev)) (filter (on_side s) evs))"

definition side_captured :: "bool \<Rightarrow> tcp_req \<Rightarrow> nat" where
  "side_captured s req = unat (if s then tr_lb_req_bytes req else tr_lb_res_bytes req)"

lemma side_bytes_simps [simp]:
  "side_bytes s [] = 0" "side_bytes s (xs @ ys) = side_bytes s xs + side_bytes s ys"
  by (simp_all add: side_bytes_def)

text \<open>
  A sender handles one packet of a request: it may ship chunks and update the counters of the
  request. It promises that a counter within the limit stays within it and that what it ships is
  paid for by the counter of that side.
\<close>

locale capture_budget =
  fixes send :: "'i \<Rightarrow> tcp_req \<times> proto_maps \<Rightarrow> tcp_req \<times> proto_maps"
    and limit :: nat
  assumes send_pays:
    "\<lbrakk>send i (r, st) = (r', st'); side_captured s r \<le> limit\<rbrakk> \<Longrightarrow>
       side_captured s r' \<le> limit \<and>
       (\<exists>evs. shipped (pm_ring st') = shipped (pm_ring st) @ evs \<and>
          side_captured s r + side_bytes s evs \<le> side_captured s r')"
begin

lemma run_pays:
  "\<lbrakk>fold send is (r, st) = (r', st'); side_captured s r \<le> limit\<rbrakk> \<Longrightarrow>
     side_captured s r' \<le> limit \<and>
     (\<exists>evs. shipped (pm_ring st') = shipped (pm_ring st) @ evs \<and>
        side_captured s r + side_bytes s evs \<le> side_captured s r')"
proof (induction "is" arbitrary: r st)
  case Nil
  then show ?case by auto
next
  case (Cons i "is")
  obtain r1 st1 where e: "send i (r, st) = (r1, st1)" by (rule prod.exhaust)
  obtain ev1 where 1: "side_captured s r1 \<le> limit" "shipped (pm_ring st1) = shipped (pm_ring st) @ ev1"
    "side_captured s r + side_bytes s ev1 \<le> side_captured s r1"
    using send_pays[OF e Cons.prems(2)] by blast
  have "fold send is (r1, st1) = (r', st')" using Cons.prems(1) e by simp
  from Cons.IH[OF this 1(1)] obtain ev2 where "side_captured s r' \<le> limit"
    "shipped (pm_ring st') = shipped (pm_ring st1) @ ev2"
    "side_captured s r1 + side_bytes s ev2 \<le> side_captured s r'" by blast
  with 1 show ?case by (intro conjI exI[of _ "ev1 @ ev2"]) simp_all
qed

end

text \<open>What one emission from the scratch record contributes.\<close>

lemma filter_chunks:
  "\<forall>i < length evs. chunk_of lb (a i) (evs ! i) \<Longrightarrow>
     filter (on_side s) evs = (if s = (lb_packet_type lb = PACKET_TYPE_REQUEST) then evs else [])"
proof -
  assume a: "\<forall>i < length evs. chunk_of lb (a i) (evs ! i)"
  have "on_side s ev \<longleftrightarrow> s = (lb_packet_type lb = PACKET_TYPE_REQUEST)" if ev: "ev \<in> set evs" for ev
  proof -
    obtain i where "i < length evs" "ev = evs ! i" using ev by (auto simp: in_set_conv_nth)
    with a have "chunk_of lb (a i) ev" by simp
    then show ?thesis by (cases ev) (auto simp: lb_hdr_def)
  qed
  then show ?thesis by (auto simp: filter_id_conv filter_empty_conv)
qed

lemma emit_from_scratch_pays:
  assumes "emit_from_scratch re ms lb u_buf avail st = (c, st')"
  shows "unat c \<le> unat avail \<and> st' = st\<lparr>pm_ring := pm_ring st', tcp_large_buffers := tcp_large_buffers st'\<rparr> \<and>
    (\<exists>evs. shipped (pm_ring st') = shipped (pm_ring st) @ evs \<and>
      side_bytes s evs = (if s = (lb_packet_type lb = PACKET_TYPE_REQUEST) then unat c else 0))"
proof -
  obtain lb' rg' where e: "large_buf_emit_chunks re ms lb u_buf avail k_large_buf_read_kernel (pm_ring st) = (c, lb', rg')"
    and st': "st' = st\<lparr>pm_ring := rg', tcp_large_buffers := Some lb'\<rparr>"
    using assms by (auto simp: emit_from_scratch_def split: prod.splits)
  obtain evs where evs: "shipped rg' = shipped (pm_ring st) @ evs" "unat c \<le> min (unat avail) 65536"
    "probe_read (ms k_large_buf_read_kernel) u_buf (unat c) = Some (concat (map chunk_data evs))"
    "\<forall>i < length evs. chunk_of lb (if i = 0 then lb_action lb else k_large_buf_action_append) (evs ! i)"
    using emit_spec[OF e] by blast
  have "length (concat (map chunk_data evs)) = unat c" using probe_read_length[OF evs(3)] .
  then have "side_bytes s evs = (if s = (lb_packet_type lb = PACKET_TYPE_REQUEST) then unat c else 0)"
    unfolding side_bytes_def filter_chunks[OF evs(4)] by (simp add: length_concat comp_def)
  then show ?thesis using evs(1,2) st' by auto
qed

lemma add_consumed_captured:
  assumes "unat c + unat (bytes_sent packet_type req) < 2 ^ 32"
  shows "side_captured s (add_consumed packet_type c req) =
    side_captured s req + (if s = (packet_type = PACKET_TYPE_REQUEST) then unat c else 0)"
  using assms by (auto simp: side_captured_def add_consumed_def bytes_sent_def Let_def unat_word_ariths)


text \<open>
  The common core of the senders: \<open>pre\<close> bytes already consumed by this call and chunks for what the
  budget leaves.
\<close>

lemma ship_pays:
  fixes limit pre avail :: u32
  assumes e: "emit_from_scratch re ms lb u_buf avail st = (c, st')"
    and lb: "lb_packet_type lb = packet_type"
    and room: "unat (bytes_sent packet_type r) \<le> unat limit \<Longrightarrow>
       unat avail + unat pre + unat (bytes_sent packet_type r) \<le> unat limit"
    and le: "side_captured s r \<le> unat limit"
  shows "side_captured s (add_consumed packet_type (pre + c) r) \<le> unat limit \<and>
    (\<exists>evs. shipped (pm_ring st') = shipped (pm_ring st) @ evs \<and>
       side_captured s r + (if s = (packet_type = PACKET_TYPE_REQUEST) then unat pre else 0) + side_bytes s evs
         \<le> side_captured s (add_consumed packet_type (pre + c) r))"
proof (cases "s = (packet_type = PACKET_TYPE_REQUEST)")
  case True
  then have sent: "side_captured s r = unat (bytes_sent packet_type r)"
    by (simp add: side_captured_def bytes_sent_def)
  note p = emit_from_scratch_pays[OF e, of s]
  have "unat pre + unat c + unat (bytes_sent packet_type r) \<le> unat limit" using room le sent p by simp
  also have "\<dots> < 2 ^ 32" by simp
  finally have tot: "unat pre + unat c + unat (bytes_sent packet_type r) < 2 ^ 32" .
  then have uc: "unat (pre + c) = unat pre + unat c" by (simp add: unat_word_ariths)
  from tot have "unat (pre + c) + unat (bytes_sent packet_type r) < 2 ^ 32" by (simp add: uc)
  from add_consumed_captured[OF this, of s] True
  have "side_captured s (add_consumed packet_type (pre + c) r) = side_captured s r + (unat pre + unat c)"
    by (simp add: uc)
  then show ?thesis using p room le sent True lb by auto
next
  case False
  then have "side_captured s (add_consumed packet_type (pre + c) r) = side_captured s r"
    by (auto simp: side_captured_def add_consumed_def Let_def)
  then show ?thesis using emit_from_scratch_pays[OF e, of s] False le lb by auto
qed

lemma clamped_room:
  fixes limit sent n k :: u32
  assumes "unat sent \<le> unat limit"
  shows "unat (min n (bpf_clamp_umax (limit - sent) k)) + unat sent \<le> unat limit"
proof -
  have "min n (bpf_clamp_umax (limit - sent) k) \<le> limit - sent"
    by (auto simp: bpf_clamp_umax_def min_def)
  then have "unat (min n (bpf_clamp_umax (limit - sent) k)) \<le> unat (limit - sent)"
    by (simp add: word_le_nat_alt)
  also have "\<dots> = unat limit - unat sent" using assms by (simp add: unat_sub word_le_nat_alt)
  finally show ?thesis using assms by simp
qed

lemma fill_packet_type [simp]: "lb_packet_type (fill_large_buffer r c pt d a k lb) = pt"
  by (simp add: fill_large_buffer_def)

end
