(* ===== verification/Sql_Protocols.thy ===== *)
theory Sql_Protocols
  imports Large_Buf
begin

section \<open>Database protocols: SQL text, MySQL, PostgreSQL and MSSQL\<close>

text \<open>
  Models \<open>bpf/common/sql.h\<close>, \<open>bpf/generictracer/protocol_mysql.h\<close>,
  \<open>bpf/generictracer/protocol_postgres.h\<close> and \<open>bpf/generictracer/protocol_mssql.h\<close>: the recognition
  of a connection from one packet, the state kept for a header that arrives on its own, the end of
  an MSSQL response and the shipping of payloads. The interface \<open>protocol_detector\<close> states what the
  classifiers promise about the protocol cache; it is interpreted for each of them.
\<close>

subsection \<open>SQL text\<close>

definition k_max_query_offset :: nat where "k_max_query_offset = 8"
definition k_max_sql_op_len :: nat where "k_max_sql_op_len = 6"

definition FOREACH_OP :: "bytes list" where
  "FOREACH_OP = map ascii [''WITH'', ''ALTER'', ''SELECT'', ''INSERT'', ''UPDATE'', ''DELETE'', ''CREATE'']"

fun CHECK_OP :: "bytes list \<Rightarrow> bytes \<Rightarrow> bool option" where
  "CHECK_OP [] stmt = Some False"
| "CHECK_OP (op # ops) stmt = do {
     r \<leftarrow> stricmp stmt op (length op);
     if r then Some True else CHECK_OP ops stmt }"

definition is_sql_query_stmt :: "mem \<Rightarrow> nat \<Rightarrow> bool" where
  "is_sql_query_stmt m data =
     (case probe_read m data k_max_sql_op_len of
        None \<Rightarrow> False
      | Some stmt \<Rightarrow> (if stmt ! 0 = 0 then False else CHECK_OP FOREACH_OP stmt = Some True))"

text \<open>The loop with \<open>n\<close> turns left; \<open>-1\<close> is no query.\<close>

primrec find_sql_query_from :: "mem \<Rightarrow> nat \<Rightarrow> nat \<Rightarrow> nat \<Rightarrow> int" where
  "find_sql_query_from m data 0 i = -1"
| "find_sql_query_from m data (Suc n) i =
     (if is_sql_query_stmt m (data + i) then int i else find_sql_query_from m data n (Suc i))"

definition find_sql_query :: "mem \<Rightarrow> nat \<Rightarrow> int" where
  "find_sql_query m data = find_sql_query_from m data k_max_query_offset 0"

subsection \<open>MySQL\<close>

definition k_mysql_hdr_size :: nat where "k_mysql_hdr_size = 5"
definition k_mysql_hdr_command_id_size :: nat where "k_mysql_hdr_command_id_size = 1"
definition k_mysql_hdr_without_command_size :: nat where "k_mysql_hdr_without_command_size = 4"
definition k_mysql_com_query :: u8 where "k_mysql_com_query = 0x3"
definition k_mysql_com_stmt_prepare :: u8 where "k_mysql_com_stmt_prepare = 0x16"
definition k_mysql_com_stmt_execute :: u8 where "k_mysql_com_stmt_execute = 0x17"
definition k_mysql_payload_length_max :: u32 where "k_mysql_payload_length_max = 2 ^ 13"

lemmas mysql_consts = k_mysql_hdr_size_def k_mysql_hdr_command_id_size_def
  k_mysql_hdr_without_command_size_def k_mysql_com_query_def k_mysql_com_stmt_prepare_def
  k_mysql_com_stmt_execute_def k_mysql_payload_length_max_def

record mysql_hdr =
  mh_payload_length :: bytes
  mh_sequence_id :: u8
  mh_command_id :: u8
  mh_hdr_arrived :: bool

definition mysql_payload_length :: "bytes \<Rightarrow> u32" where
  "mysql_payload_length pl = ucast (pl ! 0) OR push_bit 8 (ucast (pl ! 1)) OR push_bit 16 (ucast (pl ! 2))"

text \<open>\<open>True\<close> is the return code -1: the packet was stored and is to be dropped.\<close>

definition mysql_store_state_data ::
  "connection_info \<Rightarrow> mem \<Rightarrow> nat \<Rightarrow> u64 \<Rightarrow> proto_maps \<Rightarrow> bool \<times> proto_maps" where
  "mysql_store_state_data conn m data data_len st =
     (if data_len \<noteq> of_nat k_mysql_hdr_without_command_size then (False, st)
      else let b = probe_read_z m data k_mysql_hdr_without_command_size
           in (True, st\<lparr>mysql_state := (mysql_state st)(conn \<mapsto>
                 \<lparr>ms_payload_length = take 3 b, ms_sequence_id = b ! 3\<rparr>)\<rparr>))"

definition mysql_parse_fixup_header ::
  "connection_info \<Rightarrow> mem \<Rightarrow> nat \<Rightarrow> u64 \<Rightarrow> proto_maps \<Rightarrow> mysql_hdr option" where
  "mysql_parse_fixup_header conn m data data_len st =
     (let b = probe_read_z m data k_mysql_hdr_size;
          hdr = \<lparr>mh_payload_length = take 3 b, mh_sequence_id = b ! 3, mh_command_id = b ! 4,
                 mh_hdr_arrived = False\<rparr>
      in if (ucast (mysql_payload_length (mh_payload_length hdr)) :: u64)
              = data_len - of_nat k_mysql_hdr_without_command_size
         then Some hdr
         else case mysql_state st conn of
           None \<Rightarrow> None
         | Some sd \<Rightarrow> Some \<lparr>mh_payload_length = ms_payload_length sd, mh_sequence_id = ms_sequence_id sd,
             mh_command_id = probe_read_z m data k_mysql_hdr_command_id_size ! 0, mh_hdr_arrived = True\<rparr>)"

definition data_offset :: "mysql_hdr \<Rightarrow> nat" where
  "data_offset hdr = (if mh_hdr_arrived hdr then k_mysql_hdr_size - k_mysql_hdr_without_command_size
                      else k_mysql_hdr_size)"

definition is_mysql ::
  "connection_info \<Rightarrow> mem \<Rightarrow> nat \<Rightarrow> u32 \<Rightarrow> protocol_type \<Rightarrow> proto_maps \<Rightarrow> bool \<times> protocol_type \<times> proto_maps" where
  "is_mysql conn m data data_len pt st =
     (if pt \<noteq> k_protocol_type_mysql \<and> pt \<noteq> k_protocol_type_unknown then (False, pt, st)
      else let (stored, st) = mysql_store_state_data conn m data (ucast data_len) st in
      if stored then (False, pt, st)
      else case mysql_parse_fixup_header conn m data (ucast data_len) st of
        None \<Rightarrow> (False, pt, st)
      | Some hdr \<Rightarrow>
          let payload_len = mysql_payload_length (mh_payload_length hdr);
              accepted = (k_protocol_type_mysql, st\<lparr>protocol_cache := (protocol_cache st)(conn \<mapsto> k_protocol_type_mysql)\<rparr>)
          in if payload_len > k_mysql_payload_length_max then (False, pt, st)
             else if mh_command_id hdr = k_mysql_com_query \<or> mh_command_id hdr = k_mysql_com_stmt_prepare
             then (if find_sql_query m (data + data_offset hdr) = -1 then (False, pt, st) else (True, accepted))
             else if mh_command_id hdr = k_mysql_com_stmt_execute
             then (if pt = k_protocol_type_mysql then (True, accepted) else (False, pt, st))
             else if pt = k_protocol_type_mysql \<and>
                    ((mh_sequence_id hdr = 1 \<and> \<not> mh_hdr_arrived hdr) \<or> mh_sequence_id hdr > 1)
             then (True, accepted) else (False, pt, st))"

text \<open>
  A stored header is shipped first, as a record of its own. The code reads it through the pointer of
  the lookup after the entry was deleted; the model uses the value looked up. Whether the ring
  buffer took that record is not checked.
\<close>

definition ship_prefix ::
  "ring_env \<Rightarrow> bytes \<Rightarrow> tcp_large_buffer \<Rightarrow> proto_maps \<Rightarrow> tcp_large_buffer \<times> proto_maps" where
  "ship_prefix re pfx lb st =
     (let lb = lb\<lparr>lb_buf := pfx @ drop (length pfx) (lb_buf lb), lb_len := 4\<rparr>;
          (ok, rg) = events_ringbuf_output re (LargeBufferEvent (lb\<lparr>lb_buf := take (unat sizeof_ptr) (lb_buf lb)\<rparr>))
             (ucast (sizeof_tcp_large_buffer + sizeof_ptr)) (pm_ring st)
      in (lb\<lparr>lb_action := k_large_buf_action_append\<rparr>, st\<lparr>pm_ring := rg\<rparr>))"

definition mysql_send_large_buffer ::
  "ring_env \<Rightarrow> capture_cfg \<Rightarrow> (large_buf_read_mode \<Rightarrow> mem) \<Rightarrow> pid_connection_info \<Rightarrow> nat \<Rightarrow> u32 \<Rightarrow> u8 \<Rightarrow> u8
   \<Rightarrow> large_buf_action \<Rightarrow> tcp_req \<Rightarrow> proto_maps \<Rightarrow> int \<times> tcp_req \<times> proto_maps" where
  "mysql_send_large_buffer re cfg ms pid_conn u_buf bytes_len packet_type direction action req st =
     (let sent = bytes_sent packet_type req;
          conn = pc_conn pid_conn
      in if mysql_max_captured_bytes cfg = 0 \<or> sent \<ge> mysql_max_captured_bytes cfg \<or> bytes_len = 0
         then (0, req, st)
         else let (stored, st) = mysql_store_state_data conn (ms k_large_buf_read_kernel) u_buf (ucast bytes_len) st in
         if stored then (-1, req, st)
         else case tcp_large_buffers st of
           None \<Rightarrow> (0, req, st)
         | Some lb \<Rightarrow>
             let lb = fill_large_buffer req conn packet_type direction action k_large_buf_layer_app lb;
                 st = st\<lparr>tcp_large_buffers := Some lb\<rparr>;
                 max_available = mysql_max_captured_bytes cfg - sent;
                 rest = (\<lambda>lb max_available consumed st.
                   let max_available = bpf_clamp_umax max_available k_large_buf_max_mysql_captured_bytes;
                       (c, st) = emit_from_scratch re ms lb u_buf (min bytes_len max_available) st
                   in (0, add_consumed packet_type (consumed + c) req, st))
             in case mysql_state st conn of
                  None \<Rightarrow> rest lb max_available 0 st
                | Some sd \<Rightarrow>
                    let st = st\<lparr>mysql_state := map_del conn (mysql_state st)\<rparr>
                    in if max_available < of_nat k_mysql_hdr_without_command_size then (0, req, st)
                       else let (lb, st) = ship_prefix re (ms_payload_length sd @ [ms_sequence_id sd]) lb st
                            in rest lb (max_available - of_nat k_mysql_hdr_without_command_size)
                                 (of_nat k_mysql_hdr_without_command_size) st)"

subsection \<open>PostgreSQL\<close>

definition k_pg_hdr_size :: nat where "k_pg_hdr_size = 5"
definition k_pg_messages_in_packet_max :: nat where "k_pg_messages_in_packet_max = 10"
definition k_pg_msg_bind :: u8 where "k_pg_msg_bind = 0x42"
definition k_pg_msg_execute :: u8 where "k_pg_msg_execute = 0x45"
definition k_pg_msg_parse :: u8 where "k_pg_msg_parse = 0x50"
definition k_pg_msg_query :: u8 where "k_pg_msg_query = 0x51"

record postgres_hdr =
  ph_message_len :: u32
  ph_message_type :: u8

definition postgres_parse_hdr :: "mem \<Rightarrow> nat \<Rightarrow> postgres_hdr" where
  "postgres_parse_hdr m data =
     (let h = probe_read_z m data k_pg_hdr_size
      in \<lparr>ph_message_len = be32 (drop 1 h), ph_message_type = h ! 0\<rparr>)"

definition pg_known_command :: "u8 \<Rightarrow> bool" where
  "pg_known_command t \<longleftrightarrow> t \<in> {k_pg_msg_query, k_pg_msg_parse, k_pg_msg_bind, k_pg_msg_execute}"

text \<open>The loop with \<open>n\<close> turns left: whether a known command was seen, and whether a length was malformed.\<close>

primrec pg_scan :: "mem \<Rightarrow> nat \<Rightarrow> u64 \<Rightarrow> nat \<Rightarrow> u64 \<Rightarrow> bool \<Rightarrow> bool \<times> bool" where
  "pg_scan m data data_len 0 message_size known = (known, False)"
| "pg_scan m data data_len (Suc n) message_size known =
     (if message_size + of_nat k_pg_hdr_size > data_len then (known, False)
      else let hdr = postgres_parse_hdr m (data + unat message_size);
               full = (ucast (ph_message_len hdr) :: u64) + 1
           in if ph_message_len hdr < 4 then (known, True)
              else if message_size + full > data_len then (known, False)
              else pg_scan m data data_len n (message_size + full)
                     (known \<or> pg_known_command (ph_message_type hdr)))"

definition is_postgres ::
  "connection_info \<Rightarrow> mem \<Rightarrow> nat \<Rightarrow> u32 \<Rightarrow> protocol_type \<Rightarrow> proto_maps \<Rightarrow> bool \<times> protocol_type \<times> proto_maps" where
  "is_postgres conn m data data_len pt st =
     (if pt \<noteq> k_protocol_type_postgres \<and> pt \<noteq> k_protocol_type_unknown then (False, pt, st)
      else if data_len < of_nat k_pg_hdr_size then (False, pt, st)
      else let (known, malformed) = pg_scan m data (ucast data_len) k_pg_messages_in_packet_max 0 False
           in if malformed \<or> \<not> known then (False, pt, st)
              else (True, k_protocol_type_postgres,
                    st\<lparr>protocol_cache := (protocol_cache st)(conn \<mapsto> k_protocol_type_postgres)\<rparr>))"

definition postgres_send_large_buffer ::
  "ring_env \<Rightarrow> capture_cfg \<Rightarrow> (large_buf_read_mode \<Rightarrow> mem) \<Rightarrow> nat \<Rightarrow> u32 \<Rightarrow> u8 \<Rightarrow> u8
   \<Rightarrow> large_buf_action \<Rightarrow> tcp_req \<Rightarrow> proto_maps \<Rightarrow> int \<times> tcp_req \<times> proto_maps" where
  "postgres_send_large_buffer re cfg ms u_buf bytes_len packet_type direction action req st =
     (let sent = bytes_sent packet_type req
      in if postgres_max_captured_bytes cfg = 0 \<or> sent \<ge> postgres_max_captured_bytes cfg \<or> bytes_len = 0
         then (0, req, st)
         else case tcp_large_buffers st of
           None \<Rightarrow> (0, req, st)
         | Some lb \<Rightarrow>
             let lb = fill_large_buffer req (tr_conn_info req) packet_type direction action k_large_buf_layer_app lb;
                 max_available = bpf_clamp_umax (postgres_max_captured_bytes cfg - sent)
                   k_large_buf_max_postgres_captured_bytes;
                 (c, st) = emit_from_scratch re ms lb u_buf (min bytes_len max_available) st
             in (0, add_consumed packet_type c req, st))"

subsection \<open>MSSQL\<close>

definition k_mssql_hdr_size :: nat where "k_mssql_hdr_size = 8"
definition k_mssql_messages_in_packet_max :: nat where "k_mssql_messages_in_packet_max = 10"
definition k_mssql_status_eom :: u8 where "k_mssql_status_eom = 0x01"
definition k_mssql_msg_sql_batch :: u8 where "k_mssql_msg_sql_batch = 0x01"
definition k_mssql_msg_rpc :: u8 where "k_mssql_msg_rpc = 0x03"
definition k_mssql_msg_response :: u8 where "k_mssql_msg_response = 0x04"
definition k_mssql_msg_login7 :: u8 where "k_mssql_msg_login7 = 0x10"
definition k_mssql_msg_prelogin :: u8 where "k_mssql_msg_prelogin = 0x12"

record mssql_hdr =
  mq_type :: u8
  mq_status :: u8
  mq_length :: u16
  mq_spid :: u16
  mq_packet_id :: u8
  mq_window :: u8

text \<open>The header laid over eight bytes, with its two big-endian fields swapped.\<close>

definition mssql_hdr_of :: "bytes \<Rightarrow> mssql_hdr" where
  "mssql_hdr_of b = \<lparr>mq_type = b ! 0, mq_status = b ! 1, mq_length = be16 (take 2 (drop 2 b)),
     mq_spid = be16 (take 2 (drop 4 b)), mq_packet_id = b ! 6, mq_window = b ! 7\<rparr>"

definition mssql_parse_hdr :: "mem \<Rightarrow> nat \<Rightarrow> mssql_hdr" where
  "mssql_parse_hdr m data = mssql_hdr_of (probe_read_z m data k_mssql_hdr_size)"

definition mssql_known_type :: "u8 \<Rightarrow> bool" where
  "mssql_known_type t \<longleftrightarrow> t \<in> {k_mssql_msg_sql_batch, k_mssql_msg_rpc, k_mssql_msg_response,
     k_mssql_msg_login7, k_mssql_msg_prelogin}"

text \<open>The loop of the classifier: \<open>None\<close> is its early return, otherwise the offset reached.\<close>

primrec mssql_scan :: "mem \<Rightarrow> nat \<Rightarrow> u64 \<Rightarrow> nat \<Rightarrow> u64 \<Rightarrow> bool \<Rightarrow> (u64 \<times> bool) option" where
  "mssql_scan m data data_len 0 offset known = Some (offset, known)"
| "mssql_scan m data data_len (Suc n) offset known =
     (if offset + of_nat k_mssql_hdr_size > data_len then Some (offset, known)
      else let hdr = mssql_parse_hdr m (data + unat offset);
               len = (ucast (mq_length hdr) :: u64)
           in if len < of_nat k_mssql_hdr_size \<or> len > data_len - offset then None
              else mssql_scan m data data_len n (offset + len) (known \<or> mssql_known_type (mq_type hdr)))"

definition is_mssql ::
  "connection_info \<Rightarrow> mem \<Rightarrow> nat \<Rightarrow> u32 \<Rightarrow> protocol_type \<Rightarrow> proto_maps \<Rightarrow> bool \<times> protocol_type \<times> proto_maps" where
  "is_mssql conn m data data_len pt st =
     (if pt \<noteq> k_protocol_type_mssql \<and> pt \<noteq> k_protocol_type_unknown then (False, pt, st)
      else if data_len < of_nat k_mssql_hdr_size then (False, pt, st)
      else case mssql_scan m data (ucast data_len) k_mssql_messages_in_packet_max 0 False of
        None \<Rightarrow> (False, pt, st)
      | Some (offset, known) \<Rightarrow>
          (if offset \<noteq> ucast data_len \<or> \<not> known then (False, pt, st)
           else (True, k_protocol_type_mssql,
                 st\<lparr>protocol_cache := (protocol_cache st)(conn \<mapsto> k_protocol_type_mssql)\<rparr>)))"

text \<open>The scan for complete packets of a response: whether one was found and whether one ends the message.\<close>

primrec mssql_eom_scan :: "mem \<Rightarrow> nat \<Rightarrow> u32 \<Rightarrow> nat \<Rightarrow> u32 \<Rightarrow> bool \<Rightarrow> bool \<Rightarrow> bool \<times> bool" where
  "mssql_eom_scan m u_buf bytes_len 0 offset found eom = (found, eom)"
| "mssql_eom_scan m u_buf bytes_len (Suc n) offset found eom =
     (if offset + of_nat k_mssql_hdr_size > bytes_len then (found, eom)
      else let hdr = mssql_parse_hdr m (u_buf + unat offset);
               len = (ucast (mq_length hdr) :: u32)
           in if len < of_nat k_mssql_hdr_size \<or> offset + len > bytes_len then (found, eom)
              else mssql_eom_scan m u_buf bytes_len n (offset + len) True
                     (eom \<or> mq_status hdr AND k_mssql_status_eom \<noteq> 0))"

definition mssql_response_eom :: "mem \<Rightarrow> nat \<Rightarrow> u32 \<Rightarrow> tcp_req \<Rightarrow> int \<times> tcp_req" where
  "mssql_response_eom m u_buf bytes_len req =
     (let req = (if tr_resp_len req = 0 \<and> bytes_len \<ge> of_nat k_mssql_hdr_size
                 then req\<lparr>tr_rbuf := probe_read_z m u_buf k_mssql_hdr_size @ drop k_mssql_hdr_size (tr_rbuf req)\<rparr>
                 else req);
          req = req\<lparr>tr_resp_len := tr_resp_len req + bytes_len\<rparr>;
          (found, eom) = mssql_eom_scan m u_buf bytes_len k_mssql_messages_in_packet_max 0 False False
      in if eom then (0, req)
         else if found then (-1, req)
         else if tr_resp_len req < of_nat k_mssql_hdr_size then (-1, req)
         else let first = mssql_hdr_of (take k_mssql_hdr_size (tr_rbuf req));
                  len = (ucast (mq_length first) :: u32)
              in if len \<ge> of_nat k_mssql_hdr_size \<and> tr_resp_len req - bytes_len < len \<and>
                    (tr_resp_len req < len \<or> mq_status first AND k_mssql_status_eom = 0)
                 then (-1, req) else (0, req))"

definition mssql_send_large_buffer ::
  "ring_env \<Rightarrow> capture_cfg \<Rightarrow> (large_buf_read_mode \<Rightarrow> mem) \<Rightarrow> nat \<Rightarrow> u32 \<Rightarrow> u8 \<Rightarrow> u8
   \<Rightarrow> large_buf_action \<Rightarrow> tcp_req \<Rightarrow> proto_maps \<Rightarrow> tcp_req \<times> proto_maps" where
  "mssql_send_large_buffer re cfg ms u_buf bytes_len packet_type direction action req st =
     (let sent = bytes_sent packet_type req
      in if mssql_max_captured_bytes cfg > 0 \<and> sent < mssql_max_captured_bytes cfg \<and> bytes_len > 0
         then case tcp_large_buffers st of
           None \<Rightarrow> (req, st)
         | Some lb \<Rightarrow>
             let lb = fill_large_buffer req (tr_conn_info req) packet_type direction action k_large_buf_layer_app lb;
                 max_available = bpf_clamp_umax (mssql_max_captured_bytes cfg - sent)
                   k_large_buf_max_mssql_captured_bytes;
                 (c, st) = emit_from_scratch re ms lb u_buf (min bytes_len max_available) st
             in (add_consumed packet_type c req, st)
         else (req, st))"

subsection \<open>Budgets of the senders\<close>

text \<open>What a sender's call that changes nothing, or ships within its limit, leaves.\<close>

definition paid :: "u32 \<Rightarrow> bool \<Rightarrow> tcp_req \<Rightarrow> proto_maps \<Rightarrow> tcp_req \<Rightarrow> proto_maps \<Rightarrow> bool" where
  "paid limit s r st r' st' \<longleftrightarrow> side_captured s r' \<le> unat limit \<and>
     (\<exists>evs. shipped (pm_ring st') = shipped (pm_ring st) @ evs \<and>
        side_captured s r + side_bytes s evs \<le> side_captured s r')"

lemma paid_same:
  "side_captured s r \<le> unat limit \<Longrightarrow> pm_ring st' = pm_ring st \<Longrightarrow> paid limit s r st r st'"
  by (simp add: paid_def)

lemma paid_ship:
  assumes x: "emit_from_scratch re ms (fill_large_buffer r conn packet_type d a k lb) u_buf
       (min n (bpf_clamp_umax (limit - bytes_sent packet_type r) cap)) st = (c, st')"
    and le: "side_captured s r \<le> unat limit"
  shows "paid limit s r st (add_consumed packet_type c r) st'"
  using ship_pays[OF x fill_packet_type _ le, of 0, unfolded unat_0 add_0_right, OF clamped_room]
  by (simp add: paid_def)

lemma postgres_pays:
  assumes e: "postgres_send_large_buffer re cfg ms u_buf n packet_type d a r st = (v, r', st')"
    and le: "side_captured s r \<le> unat (postgres_max_captured_bytes cfg)"
  shows "paid (postgres_max_captured_bytes cfg) s r st r' st'"
proof (cases "postgres_max_captured_bytes cfg = 0 \<or> bytes_sent packet_type r \<ge> postgres_max_captured_bytes cfg
    \<or> n = 0 \<or> tcp_large_buffers st = None")
  case True
  then have "r' = r" "st' = st" using e by (auto simp: postgres_send_large_buffer_def Let_def split: if_splits)
  then show ?thesis using paid_same[OF le] by simp
next
  case False
  then obtain lb where lb: "tcp_large_buffers st = Some lb" by auto
  obtain c st1 where x: "emit_from_scratch re ms (fill_large_buffer r (tr_conn_info r) packet_type d a k_large_buf_layer_app lb)
       u_buf (min n (bpf_clamp_umax (postgres_max_captured_bytes cfg - bytes_sent packet_type r)
       k_large_buf_max_postgres_captured_bytes)) st = (c, st1)" by (rule prod.exhaust)
  then have "r' = add_consumed packet_type c r" "st' = st1"
    using e False lb by (simp_all add: postgres_send_large_buffer_def Let_def)
  then show ?thesis using paid_ship[OF x le] by simp
qed

lemma mssql_pays:
  assumes e: "mssql_send_large_buffer re cfg ms u_buf n packet_type d a r st = (r', st')"
    and le: "side_captured s r \<le> unat (mssql_max_captured_bytes cfg)"
  shows "paid (mssql_max_captured_bytes cfg) s r st r' st'"
proof (cases "mssql_max_captured_bytes cfg > 0 \<and> bytes_sent packet_type r < mssql_max_captured_bytes cfg
    \<and> n > 0 \<and> tcp_large_buffers st \<noteq> None")
  case False
  then have "r' = r" "st' = st" using e by (auto simp: mssql_send_large_buffer_def Let_def split: if_splits)
  then show ?thesis using paid_same[OF le] by simp
next
  case True
  then obtain lb where lb: "tcp_large_buffers st = Some lb" by auto
  obtain c st1 where x: "emit_from_scratch re ms (fill_large_buffer r (tr_conn_info r) packet_type d a k_large_buf_layer_app lb)
       u_buf (min n (bpf_clamp_umax (mssql_max_captured_bytes cfg - bytes_sent packet_type r)
       k_large_buf_max_mssql_captured_bytes)) st = (c, st1)" by (rule prod.exhaust)
  then have "r' = add_consumed packet_type c r" "st' = st1"
    using e True lb by (simp_all add: mssql_send_large_buffer_def Let_def)
  then show ?thesis using paid_ship[OF x le] by simp
qed

text \<open>A stored four-byte header shipped ahead of the packet counts as four bytes, taken or not.\<close>

lemma ship_prefix_pays:
  assumes "ship_prefix re pfx lb st = (lb1, st1)"
  shows "lb_packet_type lb1 = lb_packet_type lb \<and> st1 = st\<lparr>pm_ring := pm_ring st1\<rparr> \<and>
    (\<exists>evs. shipped (pm_ring st1) = shipped (pm_ring st) @ evs \<and>
      side_bytes s evs \<le> (if s = (lb_packet_type lb = PACKET_TYPE_REQUEST) then 4 else 0))"
proof -
  define lb0 where "lb0 = lb\<lparr>lb_buf := pfx @ drop (length pfx) (lb_buf lb), lb_len := 4\<rparr>"
  define ev where "ev = LargeBufferEvent (lb0\<lparr>lb_buf := take (unat sizeof_ptr) (lb_buf lb0)\<rparr>)"
  obtain ok rg where o: "events_ringbuf_output re ev (ucast (sizeof_tcp_large_buffer + sizeof_ptr)) (pm_ring st) = (ok, rg)"
    by (rule prod.exhaust)
  have r: "lb1 = lb0\<lparr>lb_action := k_large_buf_action_append\<rparr>" "st1 = st\<lparr>pm_ring := rg\<rparr>"
    using assms o by (simp_all add: ship_prefix_def Let_def lb0_def ev_def)
  have "side_bytes s [ev] \<le> (if s = (lb_packet_type lb = PACKET_TYPE_REQUEST) then 4 else 0)"
    by (simp add: side_bytes_def ev_def lb0_def sizeof_ptr_def del: take_append)
  then have "side_bytes s (if ok then [ev] else []) \<le> (if s = (lb_packet_type lb = PACKET_TYPE_REQUEST) then 4 else 0)"
    by (cases ok) (simp_all only: if_True if_False side_bytes_simps le0)
  then show ?thesis using output_cases[OF o] r by (auto simp: lb0_def)
qed

lemma paid_prefix_ship:
  fixes limit :: u32
  assumes p: "ship_prefix re pfx (fill_large_buffer r conn packet_type d a k lb) st = (lb1, st1)"
    and x: "emit_from_scratch re ms lb1 u_buf
       (min n (bpf_clamp_umax (limit - bytes_sent packet_type r - 4) cap)) st1 = (c, st')"
    and room: "bytes_sent packet_type r < limit" "\<not> limit - bytes_sent packet_type r < 4"
    and le: "side_captured s r \<le> unat limit"
  shows "paid limit s r st (add_consumed packet_type (4 + c) r) st'"
proof -
  note q = ship_prefix_pays[OF p, of s, simplified]
  have lb1: "lb_packet_type lb1 = packet_type" using q by blast
  have d: "unat (limit - bytes_sent packet_type r) = unat limit - unat (bytes_sent packet_type r)"
    using room(1) by (simp add: unat_sub word_less_nat_alt word_le_nat_alt)
  have four: "4 \<le> unat limit - unat (bytes_sent packet_type r)"
    using room(2) by (simp add: word_less_nat_alt d[symmetric])
  have "unat (limit - bytes_sent packet_type r - 4) = unat limit - unat (bytes_sent packet_type r) - 4"
    using room(2) by (simp add: unat_sub word_le_nat_alt word_less_nat_alt d)
  then have "unat (min n (bpf_clamp_umax (limit - bytes_sent packet_type r - 4) cap))
      \<le> unat limit - unat (bytes_sent packet_type r) - 4"
    by (auto simp: bpf_clamp_umax_def min_def word_le_nat_alt)
  then have "unat (min n (bpf_clamp_umax (limit - bytes_sent packet_type r - 4) cap)) + unat (4 :: u32)
      + unat (bytes_sent packet_type r) \<le> unat limit"
    using four by simp
  note y = ship_pays[OF x lb1 this le]
  obtain ev1 ev2 where "shipped (pm_ring st1) = shipped (pm_ring st) @ ev1"
    "side_bytes s ev1 \<le> (if s = (packet_type = PACKET_TYPE_REQUEST) then 4 else 0)"
    "shipped (pm_ring st') = shipped (pm_ring st1) @ ev2"
    "side_captured s r + (if s = (packet_type = PACKET_TYPE_REQUEST) then unat (4 :: u32) else 0) + side_bytes s ev2
       \<le> side_captured s (add_consumed packet_type (4 + c) r)"
    using q y by blast
  then show ?thesis unfolding paid_def using y
    by (intro conjI exI[of _ "ev1 @ ev2"]) (auto split: if_splits)
qed

lemma mysql_store_ring: "mysql_store_state_data conn m u n st = (b, st1) \<Longrightarrow>
    pm_ring st1 = pm_ring st \<and> (\<not> b \<longrightarrow> st1 = st)"
  by (auto simp: mysql_store_state_data_def Let_def split: if_splits)

lemma mysql_pays:
  assumes e: "mysql_send_large_buffer re cfg ms pc u_buf n packet_type d a r st = (v, r', st')"
    and le: "side_captured s r \<le> unat (mysql_max_captured_bytes cfg)"
  shows "paid (mysql_max_captured_bytes cfg) s r st r' st'"
proof (cases "mysql_max_captured_bytes cfg = 0 \<or> bytes_sent packet_type r \<ge> mysql_max_captured_bytes cfg \<or> n = 0")
  case True
  then have "r' = r" "st' = st" using e by (auto simp: mysql_send_large_buffer_def Let_def)
  then show ?thesis using paid_same[OF le] by simp
next
  case guard: False
  let ?conn = "pc_conn pc"
  obtain b st1 where b: "mysql_store_state_data ?conn (ms k_large_buf_read_kernel) u_buf (ucast n) st = (b, st1)"
    by (rule prod.exhaust)
  note sr = mysql_store_ring[OF b]
  show ?thesis
  proof (cases "b \<or> tcp_large_buffers st = None")
    case True
    then have "r' = r \<and> pm_ring st' = pm_ring st"
      using e guard b sr by (cases b) (auto simp: mysql_send_large_buffer_def Let_def)
    then show ?thesis using paid_same[OF le] by simp
  next
    case False
    then obtain lb where lb: "tcp_large_buffers st = Some lb" and nb: "\<not> b" by auto
    define lb0 where "lb0 = fill_large_buffer r ?conn packet_type d a k_large_buf_layer_app lb"
    define st2 where "st2 = st\<lparr>tcp_large_buffers := Some lb0\<rparr>"
    show ?thesis
    proof (cases "mysql_state st ?conn")
      case None
      obtain c st3 where x: "emit_from_scratch re ms lb0 u_buf (min n (bpf_clamp_umax
          (mysql_max_captured_bytes cfg - bytes_sent packet_type r) k_large_buf_max_mysql_captured_bytes)) st2 = (c, st3)"
        by (rule prod.exhaust)
      have "r' = add_consumed packet_type c r" "st' = st3"
        using e guard b nb sr lb None x by (simp_all add: mysql_send_large_buffer_def Let_def lb0_def st2_def)
      then show ?thesis using paid_ship[OF x[unfolded lb0_def] le] by (simp add: paid_def st2_def)
    next
      case (Some sd)
      define st3 where "st3 = st2\<lparr>mysql_state := map_del ?conn (mysql_state st2)\<rparr>"
      show ?thesis
      proof (cases "mysql_max_captured_bytes cfg - bytes_sent packet_type r < 4")
        case True
        then have "r' = r \<and> pm_ring st' = pm_ring st"
          using e guard b nb sr lb Some by (auto simp: mysql_send_large_buffer_def Let_def mysql_consts)
        then show ?thesis using paid_same[OF le] by simp
      next
        case False
        obtain lb1 st4 where p: "ship_prefix re (ms_payload_length sd @ [ms_sequence_id sd]) lb0 st3 = (lb1, st4)"
          by (rule prod.exhaust)
        obtain c st5 where x: "emit_from_scratch re ms lb1 u_buf (min n (bpf_clamp_umax
            (mysql_max_captured_bytes cfg - bytes_sent packet_type r - 4) k_large_buf_max_mysql_captured_bytes)) st4 = (c, st5)"
          by (rule prod.exhaust)
        have "r' = add_consumed packet_type (4 + c) r" "st' = st5"
          using e guard b nb sr lb Some False p x
          by (simp_all add: mysql_send_large_buffer_def Let_def mysql_consts lb0_def st2_def st3_def)
        moreover have "bytes_sent packet_type r < mysql_max_captured_bytes cfg" using guard by (simp add: not_le)
        ultimately show ?thesis using paid_prefix_ship[OF p[unfolded lb0_def] x _ False le]
          by (simp add: paid_def st2_def st3_def)
      qed
    qed
  qed
qed

lemma snd_pairD: "snd x = (a, b) \<Longrightarrow> \<exists>v. x = (v, a, b)"
  by (cases x) simp

interpretation mysql_budget: capture_budget
  "\<lambda>(ms, pc, u_buf, n, packet_type, d, a) (r, st). snd (mysql_send_large_buffer re cfg ms pc u_buf n packet_type d a r st)"
  "unat (mysql_max_captured_bytes cfg)"
  by unfold_locales (auto simp: paid_def dest!: snd_pairD mysql_pays split: prod.splits)

interpretation postgres_budget: capture_budget
  "\<lambda>(ms, u_buf, n, packet_type, d, a) (r, st). snd (postgres_send_large_buffer re cfg ms u_buf n packet_type d a r st)"
  "unat (postgres_max_captured_bytes cfg)"
  by unfold_locales (auto simp: paid_def dest!: snd_pairD postgres_pays split: prod.splits)

interpretation mssql_budget: capture_budget
  "\<lambda>(ms, u_buf, n, packet_type, d, a) (r, st). mssql_send_large_buffer re cfg ms u_buf n packet_type d a r st"
  "unat (mssql_max_captured_bytes cfg)"
  by unfold_locales (auto simp: paid_def dest!: mssql_pays split: prod.splits)

subsection \<open>What the classifiers promise\<close>

text \<open>
  A classifier leaves a connection of another protocol alone; when it accepts, the connection's type
  is its own and the cache says so; when it rejects, neither the type nor the cache changes.
\<close>

locale protocol_detector =
  fixes detect :: "'i \<Rightarrow> connection_info \<Rightarrow> protocol_type \<Rightarrow> proto_maps \<Rightarrow> bool \<times> protocol_type \<times> proto_maps"
    and own :: protocol_type
  assumes foreign: "pt \<noteq> own \<Longrightarrow> pt \<noteq> k_protocol_type_unknown \<Longrightarrow> detect i conn pt st = (False, pt, st)"
    and accepts: "detect i conn pt st = (True, pt', st') \<Longrightarrow> pt' = own \<and>
      (protocol_cache st' = (protocol_cache st)(conn \<mapsto> own) \<or> pt = own \<and> st' = st)"
    and rejects: "detect i conn pt st = (False, pt', st') \<Longrightarrow> pt' = pt \<and> protocol_cache st' = protocol_cache st"
    and known: "own \<noteq> k_protocol_type_unknown"
begin

text \<open>The type handed to a classifier agrees with the cache when it is the cached one, or unknown.\<close>

lemma keeps_classified:
  assumes T: "T \<noteq> k_protocol_type_unknown" and c: "protocol_cache st conn = Some T"
  shows "case detect i conn T st of (r, pt', st') \<Rightarrow> pt' = T \<and> protocol_cache st' conn = Some T"
proof -
  obtain r pt' st' where e: "detect i conn T st = (r, pt', st')" by (rule prod_cases3)
  show ?thesis
  proof (cases "T = own")
    case True
    then show ?thesis using e c accepts[of i conn T st pt' st'] rejects[of i conn T st pt' st'] by (cases r) auto
  next
    case False
    then show ?thesis using T c foreign[of T i conn st] by simp
  qed
qed

lemma other_connections:
  assumes "c \<noteq> conn"
  shows "case detect i conn pt st of (r, pt', st') \<Rightarrow> protocol_cache st' c = protocol_cache st c"
proof -
  obtain r pt' st' where e: "detect i conn pt st = (r, pt', st')" by (rule prod_cases3)
  then show ?thesis
    using assms accepts[of i conn pt st pt' st'] rejects[of i conn pt st pt' st'] by (cases r) auto
qed

lemma type_after:
  "detect i conn pt st = (r, pt', st') \<Longrightarrow> pt' = (if r then own else pt)"
  using accepts[of i conn pt st pt' st'] rejects[of i conn pt st pt' st'] by (cases r) auto

end

lemma mysql_store_cache: "mysql_store_state_data conn m u n st = (b, st1) \<Longrightarrow> protocol_cache st1 = protocol_cache st"
  by (auto simp: mysql_store_state_data_def Let_def split: if_splits)

interpretation mysql: protocol_detector "\<lambda>(m, data, n) conn. is_mysql conn m data n" k_protocol_type_mysql
  by unfold_locales
    (auto simp: is_mysql_def Let_def dest!: mysql_store_cache split: prod.splits if_splits option.splits)

interpretation postgres: protocol_detector "\<lambda>(m, data, n) conn. is_postgres conn m data n" k_protocol_type_postgres
  by unfold_locales (auto simp: is_postgres_def Let_def split: prod.splits if_splits)

interpretation mssql: protocol_detector "\<lambda>(m, data, n) conn. is_mssql conn m data n" k_protocol_type_mssql
  by unfold_locales (auto simp: is_mssql_def Let_def split: prod.splits if_splits option.splits)

subsection \<open>Packets and messages in one segment\<close>

text \<open>A TDS packet: a header of eight bytes whose big-endian length field covers the whole packet.\<close>

definition tds_packet :: "bytes \<Rightarrow> bool" where
  "tds_packet p \<longleftrightarrow> 8 \<le> length p \<and> be_nat (take 2 (drop 2 p)) = length p"

text \<open>The segment is a sequence of at most \<open>n\<close> packets, one of them of a known type unless one was seen before.\<close>

definition tds_tiles :: "nat \<Rightarrow> bool \<Rightarrow> bytes \<Rightarrow> bool" where
  "tds_tiles n known bs \<longleftrightarrow> (\<exists>ps. length ps \<le> n \<and> concat ps = bs \<and> (\<forall>p \<in> set ps. tds_packet p) \<and>
     (known \<or> (\<exists>p \<in> set ps. mssql_known_type (p ! 0))))"

lemma tds_tiles_short: "length bs < 8 \<Longrightarrow> tds_tiles n known bs \<longleftrightarrow> bs = [] \<and> known"
proof -
  assume l: "length bs < 8"
  have "ps = []" if "concat ps = bs" "\<forall>p \<in> set ps. tds_packet p" for ps
    using that l by (cases ps) (auto simp: tds_packet_def)
  then show ?thesis
  proof (intro iffI)
    assume "tds_tiles n known bs"
    then obtain ps where "concat ps = bs" "\<forall>p \<in> set ps. tds_packet p"
      "known \<or> (\<exists>p \<in> set ps. mssql_known_type (p ! 0))" by (auto simp: tds_tiles_def)
    moreover from this have "ps = []" using \<open>\<And>ps. concat ps = bs \<Longrightarrow> \<forall>p \<in> set ps. tds_packet p \<Longrightarrow> ps = []\<close> by blast
    ultimately show "bs = [] \<and> known" by simp
  next
    assume "bs = [] \<and> known"
    then show "tds_tiles n known bs" by (auto simp: tds_tiles_def intro!: exI[of _ "[]"])
  qed
qed

lemma tds_tiles_step:
  assumes l: "8 \<le> length bs"
  defines "k \<equiv> be_nat (take 2 (drop 2 bs))"
  shows "tds_tiles (Suc n) known bs \<longleftrightarrow> 8 \<le> k \<and> k \<le> length bs \<and>
           tds_tiles n (known \<or> mssql_known_type (bs ! 0)) (drop k bs)"
proof
  assume "tds_tiles (Suc n) known bs"
  then obtain ps where ps: "length ps \<le> Suc n" "concat ps = bs" "\<forall>p \<in> set ps. tds_packet p"
    "known \<or> (\<exists>p \<in> set ps. mssql_known_type (p ! 0))" by (auto simp: tds_tiles_def)
  then obtain p rest where p: "ps = p # rest" using l by (cases ps) auto
  have tp: "8 \<le> length p" "be_nat (take 2 (drop 2 p)) = length p" using ps(3) p by (auto simp: tds_packet_def)
  have bs: "bs = p @ concat rest" using ps(2) p by simp
  have "k = length p" using tp by (simp add: k_def bs)
  moreover have "bs ! 0 = p ! 0" using tp by (auto simp: bs nth_append)
  ultimately show "8 \<le> k \<and> k \<le> length bs \<and> tds_tiles n (known \<or> mssql_known_type (bs ! 0)) (drop k bs)"
    using ps p tp bs by (auto simp: tds_tiles_def intro!: exI[of _ rest])
next
  assume r: "8 \<le> k \<and> k \<le> length bs \<and> tds_tiles n (known \<or> mssql_known_type (bs ! 0)) (drop k bs)"
  then obtain ps where ps: "length ps \<le> n" "concat ps = drop k bs" "\<forall>p \<in> set ps. tds_packet p"
    "(known \<or> mssql_known_type (bs ! 0)) \<or> (\<exists>p \<in> set ps. mssql_known_type (p ! 0))" by (auto simp: tds_tiles_def)
  have "tds_packet (take k bs)" using r by (simp add: tds_packet_def k_def take_drop min_def)
  moreover have "take k bs ! 0 = bs ! 0" using r by simp
  ultimately show "tds_tiles (Suc n) known bs"
    unfolding tds_tiles_def using ps r by (intro exI[of _ "take k bs # ps"]) auto
qed

lemma mssql_scan_spec:
  fixes dl offset :: u64
  assumes "probe_read m data (unat dl) = Some bs" and "unat dl < 2 ^ 32" and "unat offset \<le> unat dl"
  shows "(case mssql_scan m data dl n offset known of None \<Rightarrow> False | Some (o', k) \<Rightarrow> o' = dl \<and> k)
     \<longleftrightarrow> tds_tiles n known (drop (unat offset) bs)"
  using assms(3)
proof (induction n arbitrary: offset known)
  have lbs: "length bs = unat dl" using probe_read_length[OF assms(1)] .
  case 0
  then show ?case using lbs by (auto simp: tds_tiles_def word_unat_eq_iff)
next
  have lbs: "length bs = unat dl" using probe_read_length[OF assms(1)] .
  case (Suc n)
  have u8: "unat (offset + 8) = unat offset + 8"
    using Suc.prems assms(2) by (simp add: unat_word_ariths)
  show ?case
  proof (cases "unat dl < unat offset + 8")
    case True
    then have "mssql_scan m data dl (Suc n) offset known = Some (offset, known)"
      by (simp add: k_mssql_hdr_size_def word_less_nat_alt u8)
    then show ?thesis using True lbs Suc.prems by (auto simp: tds_tiles_short word_unat_eq_iff)
  next
    case False
    define b where "b = drop (unat offset) bs"
    have lb: "length b = unat dl - unat offset" "8 \<le> length b" using lbs False by (auto simp: b_def)
    have rd: "probe_read_z m (data + unat offset) 8 = take 8 b"
      using probe_read_sub[OF assms(1), of "unat offset" 8] False by (simp add: probe_read_z_def b_def)
    define h where "h = mssql_parse_hdr m (data + unat offset)"
    have hf: "mq_length h = be16 (take 2 (drop 2 b))" "mq_type h = b ! 0"
      using lb by (simp_all add: h_def mssql_parse_hdr_def mssql_hdr_of_def k_mssql_hdr_size_def rd take_drop)
    define k where "k = be_nat (take 2 (drop 2 b))"
    have ul: "unat (mq_length h) = k"
      using lb by (simp add: hf k_def unat_be_word)
    have ud: "unat (dl - offset) = unat dl - unat offset"
      using Suc.prems by (simp add: unat_sub word_le_nat_alt)
    have sc: "mssql_scan m data dl (Suc n) offset known =
      (if k < 8 \<or> length b < k then None
       else mssql_scan m data dl n (offset + ucast (mq_length h)) (known \<or> mssql_known_type (b ! 0)))"
      using False by (simp add: k_mssql_hdr_size_def word_less_nat_alt u8 Let_def h_def[symmetric] ul ud lb(1) hf(2))
    show ?thesis
    proof (cases "k < 8 \<or> length b < k")
      case True
      then show ?thesis unfolding sc b_def[symmetric] using tds_tiles_step[OF lb(2), of n known, folded k_def]
        by auto
    next
      case k: False
      have le: "unat offset + k \<le> unat dl" using k lb(1) Suc.prems by linarith
      then have uo: "unat (offset + ucast (mq_length h)) = unat offset + k"
        using assms(2) by (simp add: unat_word_ariths ul)
      with le have "unat (offset + ucast (mq_length h)) \<le> unat dl" by simp
      from Suc.IH[OF this, of "known \<or> mssql_known_type (b ! 0)"]
      have "(case mssql_scan m data dl n (offset + ucast (mq_length h)) (known \<or> mssql_known_type (b ! 0)) of
            None \<Rightarrow> False | Some (o', k) \<Rightarrow> o' = dl \<and> k)
          \<longleftrightarrow> tds_tiles n (known \<or> mssql_known_type (b ! 0)) (drop k b)"
        unfolding uo by (simp add: b_def add.commute)
      then show ?thesis
        unfolding sc b_def[symmetric] using k tds_tiles_step[OF lb(2), of n known, folded k_def] by simp
    qed
  qed
qed

text \<open>
  C17: A segment of at least eight bytes on a connection that is unclassified or known to be MSSQL is
  accepted as MSSQL exactly when it is a sequence of at most ten TDS packets, each as long as its
  header says, at least one of them of a known type; acceptance is remembered in the protocol cache.
\<close>

theorem is_mssql_spec:
  assumes "probe_read m data (unat n) = Some bs" and "pt \<in> {k_protocol_type_mssql, k_protocol_type_unknown}"
  shows "is_mssql conn m data n pt st =
    (if \<exists>ps. length ps \<le> 10 \<and> concat ps = bs \<and> (\<forall>p \<in> set ps. tds_packet p) \<and>
          (\<exists>p \<in> set ps. mssql_known_type (p ! 0))
     then (True, k_protocol_type_mssql, st\<lparr>protocol_cache := (protocol_cache st)(conn \<mapsto> k_protocol_type_mssql)\<rparr>)
     else (False, pt, st))"
proof -
  have lbs: "length bs = unat n" using probe_read_length[OF assms(1)] .
  have t: "(\<exists>ps. length ps \<le> 10 \<and> concat ps = bs \<and> (\<forall>p \<in> set ps. tds_packet p) \<and>
      (\<exists>p \<in> set ps. mssql_known_type (p ! 0))) \<longleftrightarrow> tds_tiles 10 False bs" by (simp add: tds_tiles_def)
  show ?thesis
  proof (cases "unat n < 8")
    case True
    then show ?thesis unfolding t using assms(2) lbs
      by (auto simp: is_mssql_def k_mssql_hdr_size_def word_less_nat_alt tds_tiles_short)
  next
    case False
    have "(case mssql_scan m data (ucast n) 10 0 False of None \<Rightarrow> False | Some (o', k) \<Rightarrow> o' = ucast n \<and> k)
        \<longleftrightarrow> tds_tiles 10 False bs"
      using mssql_scan_spec[of m data "ucast n" bs 0 10 False] assms(1) by simp
    then show ?thesis unfolding t using assms(2) False
      by (auto simp: is_mssql_def k_mssql_hdr_size_def k_mssql_messages_in_packet_max_def word_less_nat_alt
          split: option.splits prod.splits if_splits)
  qed
qed

definition empty_proto :: proto_maps where
  "empty_proto = \<lparr>pm_ring = empty_ring, tcp_large_buffers = Some sample_lb, mysql_state = Map.empty,
     kafka_state = Map.empty, kafka_ongoing_requests = Map.empty, aerospike_state = Map.empty,
     protocol_cache = Map.empty\<rparr>"

theorem is_mssql_spec_witness:
  "fst (is_mssql sample_conn (mem_of 0 [1, 1, 0, 9, 0, 0, 0, 0, 65]) 0 9 k_protocol_type_unknown empty_proto)"
proof -
  have r: "probe_read (mem_of 0 [1, 1, 0, 9, 0, 0, 0, 0, 65]) 0 (unat (9 :: u32)) = Some [1, 1, 0, 9, 0, 0, 0, 0, 65]"
    using probe_read_mem_of[of 0 9 "[1, 1, 0, 9, 0, 0, 0, 0, 65]" 0] by simp
  have "tds_packet [1, 1, 0, 9, 0, 0, 0, 0, 65]" by (simp add: tds_packet_def be_nat_def)
  moreover have "mssql_known_type 1" by (simp add: mssql_known_type_def k_mssql_msg_sql_batch_def)
  ultimately have "\<exists>ps. length ps \<le> 10 \<and> concat ps = [1, 1, 0, 9, 0, 0, 0, 0, 65] \<and>
      (\<forall>p \<in> set ps. tds_packet p) \<and> (\<exists>p \<in> set ps. mssql_known_type (p ! 0))"
    by (intro exI[of _ "[[1, 1, 0, 9, 0, 0, 0, 0, 65]]"]) simp
  then show ?thesis using is_mssql_spec[OF r, of k_protocol_type_unknown sample_conn empty_proto] by simp
qed

text \<open>
  A PostgreSQL frontend message: a type byte and a big-endian length that counts itself and what
  follows it. The rest of a segment is incomplete when no whole message starts there.
\<close>

definition pg_message :: "bytes \<Rightarrow> bool" where
  "pg_message p \<longleftrightarrow> 5 \<le> length p \<and> be_nat (take 4 (drop 1 p)) + 1 = length p"

definition pg_incomplete :: "bytes \<Rightarrow> bool" where
  "pg_incomplete t \<longleftrightarrow> length t < 5 \<or>
     4 \<le> be_nat (take 4 (drop 1 t)) \<and> length t < be_nat (take 4 (drop 1 t)) + 1"

definition pg_segment :: "nat \<Rightarrow> bool \<Rightarrow> bytes \<Rightarrow> bool" where
  "pg_segment n known bs \<longleftrightarrow> (\<exists>ms t. length ms \<le> n \<and> concat ms @ t = bs \<and> (\<forall>p \<in> set ms. pg_message p) \<and>
     (known \<or> (\<exists>p \<in> set ms. pg_known_command (p ! 0))) \<and> (length ms = n \<or> pg_incomplete t))"

lemma pg_head:
  assumes "pg_message p"
  shows "be_nat (take 4 (drop 1 (p @ q))) + 1 = length p \<and> (p @ q) ! 0 = p ! 0 \<and> \<not> pg_incomplete (p @ q)"
  using assms by (auto simp: pg_message_def pg_incomplete_def nth_append)

lemma pg_segment_end:
  assumes "n = 0 \<or> pg_incomplete bs"
  shows "pg_segment n known bs \<longleftrightarrow> known"
proof
  assume "pg_segment n known bs"
  then obtain ms t where ms: "length ms \<le> n" "concat ms @ t = bs" "\<forall>p \<in> set ms. pg_message p"
    "known \<or> (\<exists>p \<in> set ms. pg_known_command (p ! 0))" by (auto simp: pg_segment_def)
  have "ms = []"
  proof (cases ms)
    case (Cons p rest)
    then have "pg_message p" "bs = p @ (concat rest @ t)" using ms by auto
    then show ?thesis using assms ms(1) Cons pg_head[of p "concat rest @ t"] by auto
  qed simp
  then show known using ms(4) by simp
next
  assume known
  then show "pg_segment n known bs" using assms by (auto simp: pg_segment_def intro!: exI[of _ "[]"] exI[of _ bs])
qed

lemma pg_segment_step:
  assumes l: "5 \<le> length bs"
  defines "k \<equiv> be_nat (take 4 (drop 1 bs)) + 1"
  assumes k: "5 \<le> k" "k \<le> length bs"
  shows "pg_segment (Suc n) known bs \<longleftrightarrow> pg_segment n (known \<or> pg_known_command (bs ! 0)) (drop k bs)"
proof
  assume "pg_segment (Suc n) known bs"
  then obtain ms t where ms: "length ms \<le> Suc n" "concat ms @ t = bs" "\<forall>p \<in> set ms. pg_message p"
    "known \<or> (\<exists>p \<in> set ms. pg_known_command (p ! 0))" "length ms = Suc n \<or> pg_incomplete t"
    by (auto simp: pg_segment_def)
  have "ms \<noteq> []" using ms(2,5) k l by (auto simp: pg_incomplete_def k_def)
  then obtain p rest where p: "ms = p # rest" by (cases ms) auto
  have bs: "bs = p @ (concat rest @ t)" using ms(2) p by simp
  have "pg_message p" using ms(3) p by simp
  from pg_head[OF this, of "concat rest @ t"] have kp: "k = length p" and hd: "bs ! 0 = p ! 0"
    unfolding k_def bs[symmetric] by simp_all
  have d: "concat rest @ t = drop k bs" unfolding bs kp by simp
  have "length rest \<le> n" "\<forall>p \<in> set rest. pg_message p" "length rest = n \<or> pg_incomplete t"
    "(known \<or> pg_known_command (bs ! 0)) \<or> (\<exists>p \<in> set rest. pg_known_command (p ! 0))"
    using ms(1,3,4,5) unfolding p hd by auto
  with d show "pg_segment n (known \<or> pg_known_command (bs ! 0)) (drop k bs)"
    unfolding pg_segment_def by blast
next
  assume "pg_segment n (known \<or> pg_known_command (bs ! 0)) (drop k bs)"
  then obtain ms t where ms: "length ms \<le> n" "concat ms @ t = drop k bs" "\<forall>p \<in> set ms. pg_message p"
    "(known \<or> pg_known_command (bs ! 0)) \<or> (\<exists>p \<in> set ms. pg_known_command (p ! 0))" "length ms = n \<or> pg_incomplete t"
    by (auto simp: pg_segment_def)
  have "take 4 (drop 1 (take k bs)) = take 4 (drop 1 bs)" using k by (simp add: drop_take min_def)
  then have "pg_message (take k bs)"
    unfolding pg_message_def using k by (simp only: length_take k_def[symmetric]) simp
  moreover have "take k bs ! 0 = bs ! 0" using k by simp
  ultimately show "pg_segment (Suc n) known bs"
    unfolding pg_segment_def using ms
    by (intro exI[of _ "take k bs # ms"] exI[of _ t]) (auto simp: append_take_drop_id)
qed

lemma pg_scan_spec:
  fixes dl offset :: u64
  assumes "probe_read m data (unat dl) = Some bs" and "unat dl < 2 ^ 32" and "unat offset \<le> unat dl"
  shows "pg_scan m data dl n offset known = (True, False) \<longleftrightarrow> pg_segment n known (drop (unat offset) bs)"
  using assms(3)
proof (induction n arbitrary: offset known)
  case 0
  then show ?case by (simp add: pg_segment_end)
next
  have lbs: "length bs = unat dl" using probe_read_length[OF assms(1)] .
  case (Suc n)
  have u5: "unat (offset + 5) = unat offset + 5"
    using Suc.prems assms(2) by (simp add: unat_word_ariths)
  define b where "b = drop (unat offset) bs"
  have lb: "length b = unat dl - unat offset" using lbs by (simp add: b_def)
  show ?case
  proof (cases "unat dl < unat offset + 5")
    case True
    then have "length b < 5" using lb by linarith
    then have "pg_incomplete b" by (simp add: pg_incomplete_def)
    moreover have "pg_scan m data dl (Suc n) offset known = (known, False)"
      using True by (simp add: k_pg_hdr_size_def word_less_nat_alt u5)
    ultimately show ?thesis by (simp add: pg_segment_end b_def)
  next
    case False
    then have lb5: "5 \<le> length b" using lb by simp
    have rd: "probe_read_z m (data + unat offset) 5 = take 5 b"
      using probe_read_sub[OF assms(1), of "unat offset" 5] False by (simp add: probe_read_z_def b_def)
    define h where "h = postgres_parse_hdr m (data + unat offset)"
    define L where "L = be_nat (take 4 (drop 1 b))"
    have hf: "unat (ph_message_len h) = L" "ph_message_type h = b ! 0"
      using lb5 by (simp_all add: h_def postgres_parse_hdr_def k_pg_hdr_size_def rd take_drop L_def unat_be_word)
    have L: "L < 2 ^ 32" using hf(1) unat_u32_less[of "ph_message_len h"] by simp
    have uf: "unat ((ucast (ph_message_len h) :: u64) + 1) = L + 1"
      using L by (simp add: unat_word_ariths hf(1))
    have uo: "unat (offset + (ucast (ph_message_len h) + 1)) = unat offset + (L + 1)"
      using L Suc.prems assms(2) by (simp only: unat_word_ariths(1)[of offset] uf) simp
    have sc: "pg_scan m data dl (Suc n) offset known =
      (if L < 4 then (known, True) else if length b < L + 1 then (known, False)
       else pg_scan m data dl n (offset + (ucast (ph_message_len h) + 1)) (known \<or> pg_known_command (b ! 0)))"
      using False Suc.prems
      by (simp add: k_pg_hdr_size_def word_less_nat_alt u5 Let_def h_def[symmetric] hf uo lb less_diff_conv2)
    consider "L < 4" | "4 \<le> L" "length b < L + 1" | "4 \<le> L" "L + 1 \<le> length b" by linarith
    then show ?thesis
    proof cases
      case 1
      have "\<not> pg_segment (Suc n) known b"
      proof
        assume "pg_segment (Suc n) known b"
        then obtain ms t where ms: "concat ms @ t = b" "\<forall>p \<in> set ms. pg_message p"
          "length ms = Suc n \<or> pg_incomplete t" by (auto simp: pg_segment_def)
        show False
        proof (cases ms)
          case Nil
          then show ?thesis using ms 1 lb5 by (simp add: pg_incomplete_def L_def)
        next
          case (Cons p rest)
          then have "pg_message p" "p @ (concat rest @ t) = b" using ms by simp_all
          then show ?thesis using 1 pg_head[of p "concat rest @ t"] by (simp add: pg_message_def L_def)
        qed
      qed
      then show ?thesis unfolding sc b_def[symmetric] using 1 by simp
    next
      case 2
      then have "pg_incomplete b" by (simp add: pg_incomplete_def L_def)
      then show ?thesis unfolding sc b_def[symmetric] using 2 by (simp add: pg_segment_end)
    next
      case 3
      have "unat (offset + (ucast (ph_message_len h) + 1)) \<le> unat dl" using 3 lb uo Suc.prems by simp
      from Suc.IH[OF this, of "known \<or> pg_known_command (b ! 0)"]
      have "pg_scan m data dl n (offset + (ucast (ph_message_len h) + 1)) (known \<or> pg_known_command (b ! 0)) = (True, False)
          \<longleftrightarrow> pg_segment n (known \<or> pg_known_command (b ! 0)) (drop (L + 1) b)"
        unfolding uo by (simp add: b_def add.commute)
      then show ?thesis
        unfolding sc b_def[symmetric] using 3 pg_segment_step[OF lb5, of n known, folded L_def] by simp
    qed
  qed
qed

text \<open>
  C18: A readable segment on a connection that is unclassified or known to be PostgreSQL is accepted
  exactly when it starts with well-formed frontend messages, at least one of them a query, parse,
  bind or execute, followed by nothing or by a message that continues in a later segment; after ten
  messages the rest is not looked at. A malformed length inside the first ten messages rejects the
  segment.
\<close>

theorem is_postgres_spec:
  assumes "probe_read m data (unat n) = Some bs" and "pt \<in> {k_protocol_type_postgres, k_protocol_type_unknown}"
  shows "is_postgres conn m data n pt st =
    (if \<exists>ms t. length ms \<le> 10 \<and> concat ms @ t = bs \<and> (\<forall>p \<in> set ms. pg_message p) \<and>
          (\<exists>p \<in> set ms. pg_known_command (p ! 0)) \<and> (length ms = 10 \<or> pg_incomplete t)
     then (True, k_protocol_type_postgres, st\<lparr>protocol_cache := (protocol_cache st)(conn \<mapsto> k_protocol_type_postgres)\<rparr>)
     else (False, pt, st))"
proof -
  have lbs: "length bs = unat n" using probe_read_length[OF assms(1)] .
  have t: "(\<exists>ms t. length ms \<le> 10 \<and> concat ms @ t = bs \<and> (\<forall>p \<in> set ms. pg_message p) \<and>
          (\<exists>p \<in> set ms. pg_known_command (p ! 0)) \<and> (length ms = 10 \<or> pg_incomplete t)) \<longleftrightarrow> pg_segment 10 False bs"
    by (simp add: pg_segment_def)
  have s: "pg_scan m data (ucast n) 10 0 False = (True, False) \<longleftrightarrow> pg_segment 10 False bs"
    using pg_scan_spec[of m data "ucast n" bs 0 10 False] assms(1) by simp
  have short: "unat n < 5 \<Longrightarrow> \<not> pg_segment 10 False bs" using lbs by (simp add: pg_segment_end pg_incomplete_def)
  obtain k mal where km: "pg_scan m data (ucast n) 10 0 False = (k, mal)" by (rule prod.exhaust)
  show ?thesis unfolding t using assms(2) s short km
    by (auto simp: is_postgres_def k_pg_hdr_size_def k_pg_messages_in_packet_max_def word_less_nat_alt)
qed

theorem is_postgres_spec_witness:
  "fst (is_postgres sample_conn (mem_of 0 [0x51, 0, 0, 0, 6, 65, 0, 0x58, 0]) 0 9 k_protocol_type_unknown empty_proto)"
proof -
  have r: "probe_read (mem_of 0 [0x51, 0, 0, 0, 6, 65, 0, 0x58, 0]) 0 (unat (9 :: u32)) = Some [0x51, 0, 0, 0, 6, 65, 0, 0x58, 0]"
    using probe_read_mem_of[of 0 9 "[0x51, 0, 0, 0, 6, 65, 0, 0x58, 0]" 0] by simp
  have "pg_message [0x51, 0, 0, 0, 6, 65, 0]" "pg_incomplete [0x58, 0]" "pg_known_command 0x51"
    by (simp_all add: pg_message_def pg_incomplete_def be_nat_def pg_known_command_def k_pg_msg_query_def)
  then have "\<exists>ms t. length ms \<le> 10 \<and> concat ms @ t = [0x51, 0, 0, 0, 6, 65, 0, 0x58, 0] \<and>
      (\<forall>p \<in> set ms. pg_message p) \<and> (\<exists>p \<in> set ms. pg_known_command (p ! 0)) \<and> (length ms = 10 \<or> pg_incomplete t)"
    by (intro exI[of _ "[[0x51, 0, 0, 0, 6, 65, 0]]"] exI[of _ "[0x58, 0]"]) simp
  then show ?thesis using is_postgres_spec[OF r, of k_protocol_type_unknown sample_conn empty_proto] by simp
qed

subsection \<open>A MySQL header that arrives on its own\<close>

lemma payload_high: "drop_bit 16 (mysql_payload_length pl) = ucast (pl ! 2)"
proof (rule bit_word_eqI)
  fix i assume "i < LENGTH(32)"
  have "\<not> bit (pl ! 0) (16 + i)" "\<not> bit (pl ! 1) (8 + i)" by (auto dest: bit_imp_le_length)
  then show "bit (drop_bit 16 (mysql_payload_length pl)) i \<longleftrightarrow> bit (ucast (pl ! 2) :: u32) i"
    by (auto simp: mysql_payload_length_def bit_simps dest: bit_imp_le_length)
qed

lemma payload_bound: "unat (mysql_payload_length pl) < 2 ^ 24"
proof -
  have "unat (drop_bit 16 (mysql_payload_length pl)) = unat (pl ! 2)" by (simp add: payload_high)
  then have "unat (mysql_payload_length pl) div 65536 < 256"
    using unat_bound[of "pl ! 2"] by (simp add: drop_bit_eq_div unat_div)
  then show ?thesis by (simp add: div_less_iff_less_mult)
qed

lemma find_sql_query_from_same:
  "(\<And>i. k \<le> i \<Longrightarrow> i < k + n \<Longrightarrow> probe_read m (a + i) 6 = probe_read m' (a' + i) 6) \<Longrightarrow>
     find_sql_query_from m a n k = find_sql_query_from m' a' n k"
proof (induction n arbitrary: k)
  case (Suc n)
  have "is_sql_query_stmt m (a + k) = is_sql_query_stmt m' (a' + k)"
    using Suc.prems[of k] by (simp add: is_sql_query_stmt_def k_max_sql_op_len_def)
  then show ?case using Suc.IH[of "Suc k"] Suc.prems by simp
qed simp

lemma find_sql_query_same:
  assumes "\<And>x. x < 13 \<Longrightarrow> m (a + x) = m' (a' + x)"
  shows "find_sql_query m a = find_sql_query m' a'"
  unfolding find_sql_query_def
proof (rule find_sql_query_from_same)
  fix i assume "i < 0 + k_max_query_offset"
  then show "probe_read m (a + i) 6 = probe_read m' (a' + i) 6"
    using assms[of "i + _"] by (intro probe_read_shift) (simp add: k_max_query_offset_def add.assoc)
qed

text \<open>The parse of the whole packet, and of the rest of a packet whose header was stored before.\<close>

lemma mysql_parse_whole:
  assumes w: "probe_read m p (4 + length rest) = Some (pre @ rest)" and l: "length pre = 4" "1 \<le> length rest"
    and len: "unat (mysql_payload_length (take 3 pre)) = length rest"
  shows "mysql_parse_fixup_header conn m p (of_nat (4 + length rest)) st =
    Some \<lparr>mh_payload_length = take 3 pre, mh_sequence_id = pre ! 3, mh_command_id = rest ! 0, mh_hdr_arrived = False\<rparr>"
proof -
  have b: "probe_read_z m p 5 = take 5 (pre @ rest)"
    using probe_read_sub[OF w, of 0 5] l by (simp add: probe_read_z_def)
  have f: "take 3 (pre @ rest) = take 3 pre" "take 5 (pre @ rest) ! 3 = pre ! 3"
    "take 5 (pre @ rest) ! 4 = rest ! 0"
    using l by (simp_all add: nth_append)
  have "(ucast (mysql_payload_length (take 3 pre)) :: u64) = of_nat (length rest)"
    using len by (metis unat_ucast_32_64 of_nat_unat ucast_id)
  then show ?thesis
    by (simp add: mysql_parse_fixup_header_def mysql_consts Let_def b f del: take_append)
qed

text \<open>The rest is no packet of its own: read as one, its first three bytes do not say how long it is.\<close>

definition no_packet :: "bytes \<Rightarrow> bool" where
  "no_packet rest \<longleftrightarrow> length rest \<noteq> 4 \<and> (4 < length rest \<longrightarrow> 4 + unat (mysql_payload_length (take 3 rest)) \<noteq> length rest)"

lemma no_packet_length:
  assumes r: "probe_read m q (length rest) = Some rest" and n: "no_packet rest" "length rest < 2 ^ 24"
  shows "(ucast (mysql_payload_length (take 3 (probe_read_z m q 5))) :: u64) \<noteq> of_nat (length rest) - 4"
proof
  define v k where "v = mysql_payload_length (take 3 (probe_read_z m q 5))" and "k = length rest"
  assume "(ucast (mysql_payload_length (take 3 (probe_read_z m q 5))) :: u64) = of_nat (length rest) - 4"
  then have "(of_nat k :: u64) - 4 = ucast v" by (simp only: v_def k_def)
  then have "(of_nat k :: u64) = ucast v + 4" by (simp only: diff_eq_eq)
  then have e: "(of_nat k :: u64) = of_nat (unat v + 4)" by (simp only: of_nat_add of_nat_unat of_nat_numeral)
  have "(2 :: nat) ^ 24 + 4 \<le> 2 ^ LENGTH(64)" by simp
  moreover have "unat v < 2 ^ 24" unfolding v_def by (rule payload_bound)
  moreover have "k < 2 ^ 24" unfolding k_def by (rule n(2))
  ultimately have "k < 2 ^ LENGTH(64)" "unat v + 4 < 2 ^ LENGTH(64)" by linarith+
  from iffD1[OF of_nat_inject_word[OF this] e] have k: "k = unat v + 4" .
  have "probe_read m q 5 = Some (take 5 rest)" if "4 < k"
    using probe_read_sub[OF r, of 0 5] that unfolding k_def by simp
  then have "probe_read_z m q 5 = take 5 rest" if "4 < k" using that unfolding probe_read_z_def by (simp only: option.case)
  then have "v = mysql_payload_length (take 3 rest)" if "4 < k" using that unfolding v_def by simp
  moreover have "k \<noteq> 4" "4 < k \<longrightarrow> 4 + unat (mysql_payload_length (take 3 rest)) \<noteq> k"
    using n(1) unfolding no_packet_def k_def by blast+
  ultimately show False using k by (cases "4 < k") simp_all
qed

lemma mysql_parse_rest:
  assumes r: "probe_read m q (length rest) = Some rest" and n: "no_packet rest" "1 \<le> length rest" "length rest < 2 ^ 24"
    and st: "mysql_state st conn = Some sd"
  shows "mysql_parse_fixup_header conn m q (of_nat (length rest)) st =
    Some \<lparr>mh_payload_length = ms_payload_length sd, mh_sequence_id = ms_sequence_id sd,
      mh_command_id = rest ! 0, mh_hdr_arrived = True\<rparr>"
proof -
  have "probe_read_z m q 1 = take 1 rest"
    using probe_read_sub[OF r, of 0 1] n(2) by (simp add: probe_read_z_def)
  then have "probe_read_z m q 1 ! 0 = rest ! 0" using n(2) by (simp only:) simp
  then show ?thesis using no_packet_length[OF r n(1,3)] st
    by (simp add: mysql_parse_fixup_header_def mysql_consts Let_def)
qed

text \<open>The verdict on a packet, from its length, command, sequence id and what its text says.\<close>

definition mysql_command_accepted :: "protocol_type \<Rightarrow> nat \<Rightarrow> u8 \<Rightarrow> bool \<Rightarrow> bool \<Rightarrow> bool" where
  "mysql_command_accepted pt len cmd sql reply \<longleftrightarrow> len \<le> 8192 \<and>
     (if cmd = 0x03 \<or> cmd = 0x16 then sql else if cmd = 0x17 then pt = k_protocol_type_mysql
      else pt = k_protocol_type_mysql \<and> reply)"

lemma is_mysql_parsed:
  assumes "pt \<in> {k_protocol_type_mysql, k_protocol_type_unknown}" "k < 2 ^ 25" "k \<noteq> 4"
    and "mysql_parse_fixup_header conn m data (of_nat k) st = Some hdr"
    and "ok = mysql_command_accepted pt (unat (mysql_payload_length (mh_payload_length hdr))) (mh_command_id hdr)
      (find_sql_query m (data + data_offset hdr) \<noteq> -1) (1 < mh_sequence_id hdr \<or> mh_sequence_id hdr = 1 \<and> \<not> mh_hdr_arrived hdr)"
  shows "is_mysql conn m data (of_nat k) pt st =
    (ok, if ok then (k_protocol_type_mysql, st\<lparr>protocol_cache := (protocol_cache st)(conn \<mapsto> k_protocol_type_mysql)\<rparr>) else (pt, st))"
proof -
  have u: "(ucast (of_nat k :: u32) :: u64) = of_nat k" using assms(2) by (simp add: word_unat_eq_iff unat_of_nat)
  have n4: "(of_nat k :: u64) \<noteq> of_nat k_mysql_hdr_without_command_size"
    using assms(2,3) by (simp add: word_unat_eq_iff unat_of_nat k_mysql_hdr_without_command_size_def)
  have p: "pt \<noteq> k_protocol_type_mysql \<and> pt \<noteq> k_protocol_type_unknown \<longleftrightarrow> False" using assms(1) by auto
  have max: "k_mysql_payload_length_max < w \<longleftrightarrow> \<not> unat w \<le> 8192" for w
    by (simp add: word_less_nat_alt k_mysql_payload_length_max_def not_le)
  show ?thesis
    using assms(4) unfolding is_mysql_def u mysql_store_state_data_def p max
    by (simp add: n4 Let_def assms(5) mysql_command_accepted_def k_mysql_com_query_def
        k_mysql_com_stmt_prepare_def k_mysql_com_stmt_execute_def)
qed

text \<open>
  C30: A MySQL packet whose four header bytes arrive on their own is judged like the same packet in one
  segment. The packet is any whose length field is its length, of at least one byte, on a connection
  that is unclassified or already MySQL. The lone header is only remembered. Over the rest, which must
  not be four bytes long nor read as a packet of its own, a query or prepare command is accepted
  exactly when the packet has at most 8192 bytes and an SQL statement starts in its first bytes, an
  execute command on a MySQL connection only, both as for the whole packet; the type and the cache
  follow the verdict. Any other command is taken for a reply of a MySQL connection: the split one from
  sequence id 2 on, the whole one already from sequence id 1. Where the packet is so short that the
  search for a statement reads behind it, the memory behind it is the same in both cases.
\<close>

theorem mysql_split_header:
  assumes whole: "probe_read m p (4 + length rest) = Some (pre @ rest)"
    and header: "probe_read mh h 4 = Some pre" and tail: "probe_read mr q (length rest) = Some rest"
    and behind: "\<And>x. length rest \<le> x \<Longrightarrow> x < 14 \<Longrightarrow> mr (q + x) = m (p + 4 + x)"
    and len: "unat (mysql_payload_length (take 3 pre)) = length rest" "1 \<le> length rest" and single: "no_packet rest"
    and pt: "pt \<in> {k_protocol_type_mysql, k_protocol_type_unknown}"
    and r0: "is_mysql conn mh h 4 pt st = (v0, pt0, st0)"
    and r1: "is_mysql conn mr q (of_nat (length rest)) pt0 st0 = (v1, pt1, st1)"
    and r2: "is_mysql conn m p (of_nat (4 + length rest)) pt st = (v2, pt2, st2)"
  shows "\<not> v0 \<and> pt0 = pt \<and> protocol_cache st0 = protocol_cache st \<and>
    v1 = mysql_command_accepted pt (length rest) (rest ! 0) (find_sql_query m (p + 5) \<noteq> -1) (1 < pre ! 3) \<and>
    v2 = mysql_command_accepted pt (length rest) (rest ! 0) (find_sql_query m (p + 5) \<noteq> -1) (1 \<le> pre ! 3) \<and>
    (rest ! 0 \<in> {0x03, 0x16, 0x17} \<or> pre ! 3 \<noteq> 1 \<longrightarrow>
       v1 = v2 \<and> pt1 = pt2 \<and> protocol_cache st1 = protocol_cache st2) \<and>
    pt1 = (if v1 then k_protocol_type_mysql else pt) \<and>
    protocol_cache st1 = (if v1 then (protocol_cache st)(conn \<mapsto> k_protocol_type_mysql) else protocol_cache st)"
proof -
  have l: "length pre = 4" using probe_read_length[OF header] .
  have small: "length rest < 2 ^ 24" using payload_bound[of "take 3 pre"] len(1) by simp
  define sd where "sd = \<lparr>ms_payload_length = take 3 pre, ms_sequence_id = pre ! 3\<rparr>"
  have z0: "v0 = False" "pt0 = pt" "st0 = st\<lparr>mysql_state := (mysql_state st)(conn \<mapsto> sd)\<rparr>"
    using r0 header pt by (auto simp: is_mysql_def mysql_store_state_data_def mysql_consts Let_def probe_read_z_def sd_def)
  have sd: "mysql_state st0 conn = Some sd" by (simp add: z0)
  have same: "find_sql_query mr (q + 1) = find_sql_query m (p + 5)"
  proof (rule find_sql_query_same)
    fix x :: nat assume x: "x < 13"
    show "mr (q + 1 + x) = m (p + 5 + x)"
    proof (cases "1 + x < length rest")
      case True
      then show ?thesis
        using probe_read_nth[OF tail, of "1 + x"] probe_read_nth[OF whole, of "5 + x"] l
        by (simp add: nth_append add.assoc)
    next
      case False
      then show ?thesis using behind[of "1 + x"] x by (simp add: add.commute add.left_commute)
    qed
  qed
  have nl: "length rest \<noteq> 4" using single by (simp add: no_packet_def)
  note c1 = is_mysql_parsed[OF pt _ nl mysql_parse_rest[OF tail single len(2) small sd] refl]
  note c2 = is_mysql_parsed[OF pt _ _ mysql_parse_whole[OF whole l len(2,1)] refl]
  define N where "N = 4 + length rest"
  have N: "N < 2 ^ 25" "N \<noteq> 4" using small len(2) unfolding N_def by auto
  have one: "1 < (s :: u8) \<or> s = 1 \<longleftrightarrow> 1 \<le> s" for s by auto
  have v: "(v1, pt1, st1) = (let ok = mysql_command_accepted pt (length rest) (rest ! 0) (find_sql_query m (p + 5) \<noteq> -1) (1 < pre ! 3)
      in (ok, if ok then (k_protocol_type_mysql, st0\<lparr>protocol_cache := (protocol_cache st0)(conn \<mapsto> k_protocol_type_mysql)\<rparr>) else (pt, st0)))"
    using r1 c1 small len(1) by (simp add: z0(2) data_offset_def mysql_consts sd_def same[simplified] Let_def)
  have w: "(v2, pt2, st2) = (let ok = mysql_command_accepted pt (length rest) (rest ! 0) (find_sql_query m (p + 5) \<noteq> -1) (1 \<le> pre ! 3)
      in (ok, if ok then (k_protocol_type_mysql, st\<lparr>protocol_cache := (protocol_cache st)(conn \<mapsto> k_protocol_type_mysql)\<rparr>) else (pt, st)))"
    using r2[folded N_def] c2[folded N_def, OF N] len(1) by (auto simp: data_offset_def mysql_consts Let_def one split: if_splits)
  have eq: "mysql_command_accepted pt (length rest) (rest ! 0) s (1 < pre ! 3) =
      mysql_command_accepted pt (length rest) (rest ! 0) s (1 \<le> pre ! 3)"
    if "rest ! 0 \<in> {0x03, 0x16, 0x17} \<or> pre ! 3 \<noteq> 1" for s
    using that by (auto simp: mysql_command_accepted_def one[symmetric])
  show ?thesis
    using v w z0 eq by (auto simp: Let_def split: if_splits)
qed

text \<open>The query \<open>SELECT 1\<close> in both arrivals.\<close>

definition sample_sql :: bytes where
  "sample_sql = 3 # ascii ''SELECT 1''"

lemma sample_sql_found: "find_sql_query (mem_of 0 ([9, 0, 0, 0] @ sample_sql)) 5 = 0"
proof -
  have "probe_read (mem_of 0 ([9, 0, 0, 0] @ sample_sql)) 5 6 = Some (ascii ''SELECT'')"
    using probe_read_mem_of[of 5 6 "[9, 0, 0, 0] @ sample_sql" 0] by (simp add: sample_sql_def ascii_def)
  then have "is_sql_query_stmt (mem_of 0 ([9, 0, 0, 0] @ sample_sql)) 5"
    unfolding is_sql_query_stmt_def k_max_sql_op_len_def by code_simp
  then show ?thesis by (simp add: find_sql_query_def k_max_query_offset_def eval_nat_numeral)
qed

theorem mysql_split_header_witness:
  "\<exists>st0 st1 st2. is_mysql sample_conn (mem_of 0 [9, 0, 0, 0]) 0 4 k_protocol_type_unknown empty_proto =
       (False, k_protocol_type_unknown, st0) \<and>
     is_mysql sample_conn (mem_of 0 sample_sql) 0 9 k_protocol_type_unknown st0 = (True, k_protocol_type_mysql, st1) \<and>
     is_mysql sample_conn (mem_of 0 ([9, 0, 0, 0] @ sample_sql)) 0 13 k_protocol_type_unknown empty_proto =
       (True, k_protocol_type_mysql, st2) \<and>
     protocol_cache st1 sample_conn = Some k_protocol_type_mysql \<and> protocol_cache st1 = protocol_cache st2"
proof -
  let ?whole = "mem_of 0 ([9, 0, 0, 0] @ sample_sql)"
  have l: "length sample_sql = 9" by (simp add: sample_sql_def ascii_def)
  have w: "probe_read ?whole 0 (4 + length sample_sql) = Some ([9, 0, 0, 0] @ sample_sql)"
    using probe_read_mem_of[of 0 13 "[9, 0, 0, 0] @ sample_sql" 0] by (simp add: l)
  have h: "probe_read (mem_of 0 [9, 0, 0, 0]) 0 4 = Some [9, 0, 0, 0]"
    using probe_read_mem_of[of 0 4 "[9, 0, 0, 0]" 0] by simp
  have t: "probe_read (mem_of 0 sample_sql) 0 (length sample_sql) = Some sample_sql"
    using probe_read_mem_of[of 0 9 sample_sql 0] by (simp add: l)
  have b: "mem_of 0 sample_sql (0 + x) = ?whole (0 + 4 + x)" if "length sample_sql \<le> x" "x < 14" for x
    using that by (simp add: mem_of_def)
  have p: "unat (mysql_payload_length (take 3 [9, 0, 0, 0])) = length sample_sql" "1 \<le> length sample_sql"
    by (simp_all add: mysql_payload_length_def l)
  have n: "no_packet sample_sql"
    unfolding no_packet_def l by (simp add: sample_sql_def ascii_def mysql_payload_length_def)
  have u: "k_protocol_type_unknown \<in> {k_protocol_type_mysql, k_protocol_type_unknown}" by simp
  obtain v0 pt0 st0 where r0: "is_mysql sample_conn (mem_of 0 [9, 0, 0, 0]) 0 4 k_protocol_type_unknown empty_proto = (v0, pt0, st0)"
    by (rule prod_cases3)
  obtain v1 pt1 st1 where r1: "is_mysql sample_conn (mem_of 0 sample_sql) 0 (of_nat (length sample_sql)) pt0 st0 = (v1, pt1, st1)"
    by (rule prod_cases3)
  obtain v2 pt2 st2 where r2: "is_mysql sample_conn ?whole 0 (of_nat (4 + length sample_sql))
      k_protocol_type_unknown empty_proto = (v2, pt2, st2)" by (rule prod_cases3)
  have ok: "mysql_command_accepted k_protocol_type_unknown (length sample_sql) (sample_sql ! 0) (find_sql_query ?whole (0 + 5) \<noteq> -1) r" for r
    using sample_sql_found by (simp add: mysql_command_accepted_def l) (simp add: sample_sql_def)
  have q: "sample_sql ! 0 \<in> {0x03, 0x16, 0x17}" by (simp add: sample_sql_def)
  note same = mysql_split_header[OF w h t b p n u r0 r1 r2]
  have "\<not> v0" "pt0 = k_protocol_type_unknown" using same by blast+
  moreover have v: "v1" "v2" using same ok by blast+
  moreover have "pt1 = (if v1 then k_protocol_type_mysql else k_protocol_type_unknown)"
    "protocol_cache st1 = (if v1 then (protocol_cache empty_proto)(sample_conn \<mapsto> k_protocol_type_mysql) else protocol_cache empty_proto)"
    using same by blast+
  moreover have "pt1 = pt2" "protocol_cache st1 = protocol_cache st2" using same q by blast+
  ultimately show ?thesis using r0 r1 r2 by (simp add: l)
qed

end
