(* ===== verification/Rpc_Protocols.thy ===== *)
theory Rpc_Protocols
  imports Sql_Protocols
begin

section \<open>Kafka, Aerospike and Sun RPC\<close>

text \<open>
  Models \<open>bpf/generictracer/protocol_kafka.h\<close>, \<open>bpf/generictracer/protocol_aerospike.h\<close> and
  \<open>bpf/generictracer/protocol_sunrpc.h\<close>: recognition of requests and responses, the correlation of
  Kafka responses with requests, and the capture of responses that arrive in several pieces. Signed
  32-bit and 64-bit fields are words read with \<open>sint\<close> where the code compares them.
\<close>

subsection \<open>Kafka\<close>

definition k_kafka_hdr_message_size :: nat where "k_kafka_hdr_message_size = 4"
definition k_kafka_hdr_request_api_key :: nat where "k_kafka_hdr_request_api_key = 2"
definition k_kafka_hdr_request_api_version :: nat where "k_kafka_hdr_request_api_version = 2"
definition k_kafka_hdr_correlation_id :: nat where "k_kafka_hdr_correlation_id = 4"
definition k_kafka_request_header_fields_without_message_size :: nat where
  "k_kafka_request_header_fields_without_message_size =
     k_kafka_hdr_request_api_key + k_kafka_hdr_request_api_version + k_kafka_hdr_correlation_id"
definition k_kafka_min_response_message_size_value :: int where "k_kafka_min_response_message_size_value = 4"
definition k_kafka_api_key_metadata :: u16 where "k_kafka_api_key_metadata = 3"
definition k_kafka_min_metadata_api_version :: int where "k_kafka_min_metadata_api_version = 10"
definition k_kafka_max_metadata_api_version :: int where "k_kafka_max_metadata_api_version = 13"
definition k_kafka_message_size_max :: int where "k_kafka_message_size_max = 2 ^ 13"

lemmas kafka_consts = k_kafka_hdr_message_size_def k_kafka_hdr_request_api_key_def
  k_kafka_hdr_request_api_version_def k_kafka_hdr_correlation_id_def
  k_kafka_request_header_fields_without_message_size_def k_kafka_min_response_message_size_value_def
  k_kafka_api_key_metadata_def k_kafka_min_metadata_api_version_def k_kafka_max_metadata_api_version_def
  k_kafka_message_size_max_def

record kafka_request_hdr =
  kr_message_size :: u32
  kr_request_api_key :: u16
  kr_request_api_version :: u16
  kr_correlation_id :: u32

record kafka_response_hdr =
  ks_message_size :: u32
  ks_correlation_id :: u32

definition kafka_read_message_size :: "mem \<Rightarrow> nat \<Rightarrow> u64 \<Rightarrow> u32" where
  "kafka_read_message_size m data data_len =
     (if data_len < of_nat k_kafka_hdr_message_size then -1
      else let message_size = be32 (probe_read_z m data k_kafka_hdr_message_size)
           in if sint message_size < k_kafka_min_response_message_size_value \<or>
                 sint message_size > k_kafka_message_size_max then 0 else message_size)"

text \<open>\<open>True\<close> is the return code -1: the packet was stored and is to be dropped.\<close>

definition kafka_store_state_data ::
  "connection_info \<Rightarrow> mem \<Rightarrow> nat \<Rightarrow> u64 \<Rightarrow> u8 \<Rightarrow> proto_maps \<Rightarrow> bool \<times> proto_maps" where
  "kafka_store_state_data conn m data data_len direction st =
     (if data_len \<noteq> of_nat k_kafka_hdr_message_size then (False, st)
      else let message_size = kafka_read_message_size m data data_len
           in if message_size = -1 then (False, st)
              else (True, st\<lparr>kafka_state := (kafka_state st)
                     (\<lparr>kk_conn = conn, kk_direction = direction\<rparr> \<mapsto> message_size)\<rparr>))"

text \<open>The fields after the size, when they are those of a metadata request.\<close>

definition kafka_check_request_header_fields_without_message_size ::
  "u32 \<Rightarrow> mem \<Rightarrow> nat \<Rightarrow> u64 \<Rightarrow> kafka_request_hdr option" where
  "kafka_check_request_header_fields_without_message_size message_size m data data_len =
     (if data_len < of_nat k_kafka_request_header_fields_without_message_size then None
      else let api_key = be16 (probe_read_z m data k_kafka_hdr_request_api_key);
               off = k_kafka_hdr_request_api_key;
               version = be16 (probe_read_z m (data + off) k_kafka_hdr_request_api_version);
               off = off + k_kafka_hdr_request_api_version;
               correlation_id = be32 (probe_read_z m (data + off) k_kafka_hdr_correlation_id)
           in if api_key \<noteq> k_kafka_api_key_metadata then None
              else if sint version < k_kafka_min_metadata_api_version \<or>
                      sint version > k_kafka_max_metadata_api_version then None
              else if sint correlation_id < 0 then None
              else Some \<lparr>kr_message_size = message_size, kr_request_api_key = api_key,
                     kr_request_api_version = version, kr_correlation_id = correlation_id\<rparr>)"

definition kafka_parse_fixup_request_header ::
  "connection_info \<Rightarrow> mem \<Rightarrow> nat \<Rightarrow> u64 \<Rightarrow> u8 \<Rightarrow> proto_maps \<Rightarrow> kafka_request_hdr option" where
  "kafka_parse_fixup_request_header conn m data data_len direction st =
     (let message_size = kafka_read_message_size m data data_len
      in if message_size = -1 then None
         else if (scast message_size :: u64) = data_len - of_nat k_kafka_hdr_message_size
         then kafka_check_request_header_fields_without_message_size message_size m
                (data + k_kafka_hdr_message_size) (data_len - of_nat k_kafka_hdr_message_size)
         else case kafka_state st \<lparr>kk_conn = conn, kk_direction = direction\<rparr> of
           None \<Rightarrow> None
         | Some sd \<Rightarrow> (if (scast sd :: u64) = data_len
             then kafka_check_request_header_fields_without_message_size sd m data data_len else None))"

definition kafka_check_response_header_correlation_id :: "u32 \<Rightarrow> mem \<Rightarrow> nat \<Rightarrow> kafka_response_hdr option" where
  "kafka_check_response_header_correlation_id message_size m data =
     (let correlation_id = be32 (probe_read_z m data k_kafka_hdr_correlation_id)
      in if sint correlation_id < 0 then None
         else Some \<lparr>ks_message_size = message_size, ks_correlation_id = correlation_id\<rparr>)"

definition kafka_parse_fixup_response_header ::
  "connection_info \<Rightarrow> mem \<Rightarrow> nat \<Rightarrow> u64 \<Rightarrow> u8 \<Rightarrow> proto_maps \<Rightarrow> kafka_response_hdr option" where
  "kafka_parse_fixup_response_header conn m data data_len direction st =
     (let message_size = kafka_read_message_size m data data_len
      in if message_size = -1 then None
         else if (scast message_size :: u64) = data_len - of_nat k_kafka_hdr_message_size
         then kafka_check_response_header_correlation_id message_size m (data + k_kafka_hdr_message_size)
         else case kafka_state st \<lparr>kk_conn = conn, kk_direction = direction\<rparr> of
           None \<Rightarrow> None
         | Some sd \<Rightarrow> (if (scast sd :: u64) = data_len
             then kafka_check_response_header_correlation_id sd m data else None))"

text \<open>The size stored from a lone header when the rest of the message is exactly this packet.\<close>

definition kafka_msg_size_from_state :: "u32 option \<Rightarrow> u32 \<Rightarrow> bool" where
  "kafka_msg_size_from_state sd bytes_len =
     (case sd of None \<Rightarrow> False | Some message_size \<Rightarrow> sint message_size > 0 \<and> message_size = bytes_len)"

definition kafka_read_response_correlation_id :: "u32 option \<Rightarrow> mem \<Rightarrow> nat \<Rightarrow> u32 \<Rightarrow> u32" where
  "kafka_read_response_correlation_id sd m u_buf bytes_len =
     (let off = (if kafka_msg_size_from_state sd bytes_len then 0 else k_kafka_hdr_message_size)
      in if bytes_len < of_nat (off + k_kafka_hdr_correlation_id) then -1
         else case probe_read m (u_buf + off) k_kafka_hdr_correlation_id of
           None \<Rightarrow> -1 | Some b \<Rightarrow> be32 b)"

definition be_bytes32 :: "u32 \<Rightarrow> bytes" where
  "be_bytes32 w = [ucast (drop_bit 24 w), ucast (drop_bit 16 w), ucast (drop_bit 8 w), ucast w]"

text \<open>The bytes a response takes on the wire, read from its first chunk.\<close>

definition kafka_response_total :: "u32 option \<Rightarrow> mem \<Rightarrow> nat \<Rightarrow> u32 \<Rightarrow> u32" where
  "kafka_response_total sd m u_buf bytes_len =
     (let message_size =
            (if kafka_msg_size_from_state sd bytes_len then the sd
             else if bytes_len \<ge> of_nat k_kafka_hdr_message_size
             then be32 (probe_read_z m u_buf k_kafka_hdr_message_size) else 0)
      in if sint message_size > 0 then message_size + of_nat k_kafka_hdr_message_size else 0)"

text \<open>From the clamp of the available bytes on: the chunks, the counters and what is still missing.\<close>

definition kafka_capture_rest ::
  "ring_env \<Rightarrow> capture_cfg \<Rightarrow> (large_buf_read_mode \<Rightarrow> mem) \<Rightarrow> connection_info \<Rightarrow> nat \<Rightarrow> u32
   \<Rightarrow> bool \<Rightarrow> u32 \<Rightarrow> tcp_large_buffer \<Rightarrow> u32 \<Rightarrow> u32 \<Rightarrow> tcp_req \<Rightarrow> proto_maps \<Rightarrow> int \<times> tcp_req \<times> proto_maps" where
  "kafka_capture_rest re cfg ms conn u_buf bytes_len in_progress response_total lb max_available consumed req st =
     (let max_available = bpf_clamp_umax max_available k_large_buf_max_kafka_captured_bytes;
          (c, st) = emit_from_scratch re ms lb u_buf (min bytes_len max_available) st;
          consumed = consumed + c;
          req = add_consumed PACKET_TYPE_RESPONSE consumed req;
          corr = kafka_ongoing_requests st conn;
          remaining = (if \<not> in_progress then response_total - tr_lb_res_bytes req
             else (case corr of None \<Rightarrow> 0 | Some k \<Rightarrow> kc_response_bytes_remaining k) - consumed);
          remaining = (if tr_lb_res_bytes req \<ge> kafka_max_captured_bytes cfg then 0 else remaining)
      in if sint remaining > 0
         then (-1, req, (case corr of None \<Rightarrow> st
            | Some k \<Rightarrow> st\<lparr>kafka_ongoing_requests := (kafka_ongoing_requests st)
                (conn \<mapsto> k\<lparr>kc_response_bytes_remaining := remaining\<rparr>)\<rparr>))
         else (0, req, st\<lparr>kafka_ongoing_requests := map_del conn (kafka_ongoing_requests st)\<rparr>))"

definition kafka_send_large_buffer ::
  "ring_env \<Rightarrow> capture_cfg \<Rightarrow> (large_buf_read_mode \<Rightarrow> mem) \<Rightarrow> pid_connection_info \<Rightarrow> nat \<Rightarrow> u32 \<Rightarrow> u8
   \<Rightarrow> large_buf_action \<Rightarrow> tcp_req \<Rightarrow> proto_maps \<Rightarrow> int \<times> tcp_req \<times> proto_maps" where
  "kafka_send_large_buffer re cfg ms pid_conn u_buf bytes_len direction action req st =
     (let conn = pc_conn pid_conn; m = ms k_large_buf_read_kernel; limit = kafka_max_captured_bytes cfg
      in if limit = 0 \<or> tr_lb_res_bytes req \<ge> limit \<or> bytes_len = 0 then (0, req, st)
         else let (stored, st) = kafka_store_state_data conn m u_buf (ucast bytes_len) direction st in
         if stored then (-1, req, st)
         else let corr = kafka_ongoing_requests st conn;
                  in_progress = (tr_lb_res_bytes req > 0) in
         if corr = None \<and> \<not> in_progress then (0, req, st)
         else let key = \<lparr>kk_conn = conn, kk_direction = direction\<rparr>;
                  sd = kafka_state st key in
         if \<not> in_progress \<and> (case corr of None \<Rightarrow> True
              | Some k \<Rightarrow> kafka_read_response_correlation_id sd m u_buf bytes_len \<noteq> kc_correlation_id k)
         then (0, req, st)
         else let response_total = (if in_progress then 0 else kafka_response_total sd m u_buf bytes_len)
         in case tcp_large_buffers st of
           None \<Rightarrow> (0, req, st)
         | Some lb \<Rightarrow>
             let lb = fill_large_buffer req conn PACKET_TYPE_RESPONSE direction action k_large_buf_layer_app lb;
                 st = st\<lparr>tcp_large_buffers := Some lb\<rparr>;
                 max_available = limit - tr_lb_res_bytes req
             in if kafka_msg_size_from_state sd bytes_len
                then let st = st\<lparr>kafka_state := map_del key (kafka_state st)\<rparr>
                     in if max_available < of_nat k_kafka_hdr_message_size then (0, req, st)
                        else let (lb, st) = ship_prefix re (be_bytes32 (the sd)) lb st
                             in kafka_capture_rest re cfg ms conn u_buf bytes_len in_progress response_total lb
                                  (max_available - of_nat k_kafka_hdr_message_size)
                                  (of_nat k_kafka_hdr_message_size) req st
                else kafka_capture_rest re cfg ms conn u_buf bytes_len in_progress response_total lb max_available 0 req st)"

definition is_kafka ::
  "connection_info \<Rightarrow> mem \<Rightarrow> nat \<Rightarrow> u32 \<Rightarrow> protocol_type \<Rightarrow> u8 \<Rightarrow> proto_maps \<Rightarrow> bool \<times> protocol_type \<times> proto_maps" where
  "is_kafka conn m data data_len pt direction st =
     (if pt \<noteq> k_protocol_type_kafka \<and> pt \<noteq> k_protocol_type_unknown then (False, pt, st)
      else let (stored, st) = kafka_store_state_data conn m data (ucast data_len) direction st;
               accept = (\<lambda>st. (True, k_protocol_type_kafka,
                  st\<lparr>protocol_cache := (protocol_cache st)(conn \<mapsto> k_protocol_type_kafka)\<rparr>)) in
      if stored then (False, pt, st)
      else case kafka_parse_fixup_request_header conn m data (ucast data_len) direction st of
        Some hdr \<Rightarrow> accept (st\<lparr>kafka_ongoing_requests := (kafka_ongoing_requests st)(conn \<mapsto>
            \<lparr>kc_correlation_id = kr_correlation_id hdr, kc_response_bytes_remaining = 0\<rparr>)\<rparr>)
      | None \<Rightarrow>
          (case kafka_parse_fixup_response_header conn m data (ucast data_len) direction st of
             None \<Rightarrow> (False, pt, st)
           | Some hdr \<Rightarrow>
               (case kafka_ongoing_requests st conn of
                  None \<Rightarrow> (False, pt, st)
                | Some k \<Rightarrow> (if ks_correlation_id hdr \<noteq> kc_correlation_id k then (False, pt, st) else accept st))))"

subsection \<open>Aerospike\<close>

definition k_aerospike_proto_header_len :: nat where "k_aerospike_proto_header_len = 8"
definition k_aerospike_proto_version :: u8 where "k_aerospike_proto_version = 2"
definition k_aerospike_msg_type_as_msg :: u8 where "k_aerospike_msg_type_as_msg = 3"
definition k_aerospike_as_msg_header_len :: nat where "k_aerospike_as_msg_header_len = 22"
definition k_aerospike_max_body_len :: u64 where "k_aerospike_max_body_len = 128 * 1024 * 1024"

definition aerospike_body_len :: "bytes \<Rightarrow> u64" where
  "aerospike_body_len hdr = be64 (take 6 (drop 2 hdr))"

definition is_aerospike ::
  "connection_info \<Rightarrow> mem \<Rightarrow> nat \<Rightarrow> u32 \<Rightarrow> protocol_type \<Rightarrow> proto_maps \<Rightarrow> bool \<times> protocol_type \<times> proto_maps" where
  "is_aerospike conn m data data_len pt st =
     (if pt = k_protocol_type_aerospike then (True, pt, st)
      else if pt \<noteq> k_protocol_type_unknown then (False, pt, st)
      else if data_len < of_nat (k_aerospike_proto_header_len + k_aerospike_as_msg_header_len) then (False, pt, st)
      else case probe_read m data (k_aerospike_proto_header_len + 1) of
        None \<Rightarrow> (False, pt, st)
      | Some hdr \<Rightarrow>
          (if hdr ! 0 \<noteq> k_aerospike_proto_version \<or> hdr ! 1 \<noteq> k_aerospike_msg_type_as_msg \<or>
              hdr ! 8 \<noteq> of_nat k_aerospike_as_msg_header_len then (False, pt, st)
           else if aerospike_body_len hdr < of_nat k_aerospike_as_msg_header_len \<or>
                   aerospike_body_len hdr > k_aerospike_max_body_len then (False, pt, st)
           else (True, k_protocol_type_aerospike,
                 st\<lparr>protocol_cache := (protocol_cache st)(conn \<mapsto> k_protocol_type_aerospike)\<rparr>)))"

definition aerospike_emit_chunks ::
  "ring_env \<Rightarrow> capture_cfg \<Rightarrow> (large_buf_read_mode \<Rightarrow> mem) \<Rightarrow> tcp_req \<Rightarrow> pid_connection_info \<Rightarrow> nat \<Rightarrow> u32 \<Rightarrow> u8 \<Rightarrow> u8
   \<Rightarrow> large_buf_action \<Rightarrow> u32 \<Rightarrow> proto_maps \<Rightarrow> u32 \<times> proto_maps" where
  "aerospike_emit_chunks re cfg ms req pid_conn u_buf bytes_len packet_type direction action sent st =
     (case tcp_large_buffers st of
        None \<Rightarrow> (0, st)
      | Some lb \<Rightarrow>
          let lb = fill_large_buffer req (pc_conn pid_conn) packet_type direction action k_large_buf_layer_app lb;
              max_available = bpf_clamp_umax (aerospike_max_captured_bytes cfg - sent)
                k_large_buf_max_aerospike_captured_bytes
          in emit_from_scratch re ms lb u_buf (min bytes_len max_available) st)"

definition aerospike_send_large_buffer ::
  "ring_env \<Rightarrow> capture_cfg \<Rightarrow> (large_buf_read_mode \<Rightarrow> mem) \<Rightarrow> pid_connection_info \<Rightarrow> nat \<Rightarrow> u32 \<Rightarrow> u8 \<Rightarrow> u8
   \<Rightarrow> large_buf_action \<Rightarrow> tcp_req \<Rightarrow> proto_maps \<Rightarrow> int \<times> tcp_req \<times> proto_maps" where
  "aerospike_send_large_buffer re cfg ms pid_conn u_buf bytes_len packet_type direction action req st =
     (let limit = aerospike_max_captured_bytes cfg; conn = pc_conn pid_conn
      in if limit = 0 \<or> bytes_len = 0 then (0, req, st)
         else if packet_type = PACKET_TYPE_REQUEST
         then (if tr_lb_req_bytes req \<ge> limit then (0, req, st)
               else let (c, st) = aerospike_emit_chunks re cfg ms req pid_conn u_buf bytes_len packet_type
                          direction action (tr_lb_req_bytes req) st
                    in (0, add_consumed PACKET_TYPE_REQUEST c req, st))
         else if tr_end_monotime_ns req \<noteq> 0 then (0, req, st)
         else case
           (if tr_lb_res_bytes req = 0
            then (if bytes_len < of_nat k_aerospike_proto_header_len then None
                  else case probe_read (ms k_large_buf_read_kernel) u_buf k_aerospike_proto_header_len of
                    None \<Rightarrow> None
                  | Some hdr \<Rightarrow> (if hdr ! 0 \<noteq> k_aerospike_proto_version then None
                      else Some (of_nat k_aerospike_proto_header_len + aerospike_body_len hdr)))
            else aerospike_state st conn) of
           None \<Rightarrow> (0, req, st)
         | Some remaining \<Rightarrow>
             let (c, st) = aerospike_emit_chunks re cfg ms req pid_conn u_buf bytes_len packet_type
                   direction action (tr_lb_res_bytes req) st;
                 req = add_consumed PACKET_TYPE_RESPONSE c req;
                 remaining = remaining - ucast bytes_len
             in if sint remaining > 0 \<and> tr_lb_res_bytes req < limit
                then (-1, req, st\<lparr>aerospike_state := (aerospike_state st)(conn \<mapsto> remaining)\<rparr>)
                else (0, req, st\<lparr>aerospike_state := map_del conn (aerospike_state st)\<rparr>))"

subsection \<open>Sun RPC\<close>

definition k_sunrpc_rm_last_frag :: u32 where "k_sunrpc_rm_last_frag = 0x80000000"
definition k_sunrpc_rm_frag_len_mask :: u32 where "k_sunrpc_rm_frag_len_mask = 0x7fffffff"
definition k_sunrpc_max_record :: u32 where "k_sunrpc_max_record = 2 ^ 20"
definition k_sunrpc_min_record :: u32 where "k_sunrpc_min_record = 20"
definition k_sunrpc_rpc_version :: u32 where "k_sunrpc_rpc_version = 2"
definition k_sunrpc_msg_call :: u32 where "k_sunrpc_msg_call = 0"
definition k_sunrpc_msg_reply :: u32 where "k_sunrpc_msg_reply = 1"
definition k_sunrpc_reply_accepted :: u32 where "k_sunrpc_reply_accepted = 0"
definition k_sunrpc_reply_denied :: u32 where "k_sunrpc_reply_denied = 1"
definition k_sunrpc_reject_rpc_mismatch :: u32 where "k_sunrpc_reject_rpc_mismatch = 0"
definition k_sunrpc_reject_auth_error :: u32 where "k_sunrpc_reject_auth_error = 1"
definition k_sunrpc_max_auth_stat :: u32 where "k_sunrpc_max_auth_stat = 13"
definition k_sunrpc_auth_null :: u32 where "k_sunrpc_auth_null = 0"
definition k_sunrpc_auth_unix :: u32 where "k_sunrpc_auth_unix = 1"
definition k_sunrpc_auth_short :: u32 where "k_sunrpc_auth_short = 2"
definition k_sunrpc_auth_des :: u32 where "k_sunrpc_auth_des = 3"
definition k_sunrpc_auth_kerb :: u32 where "k_sunrpc_auth_kerb = 4"
definition k_sunrpc_auth_rsa :: u32 where "k_sunrpc_auth_rsa = 5"
definition k_sunrpc_auth_rpcsec_gss :: u32 where "k_sunrpc_auth_rpcsec_gss = 6"

lemmas sunrpc_consts = k_sunrpc_rm_last_frag_def k_sunrpc_rm_frag_len_mask_def k_sunrpc_max_record_def
  k_sunrpc_min_record_def k_sunrpc_rpc_version_def k_sunrpc_msg_call_def k_sunrpc_msg_reply_def
  k_sunrpc_reply_accepted_def k_sunrpc_reply_denied_def k_sunrpc_reject_rpc_mismatch_def
  k_sunrpc_reject_auth_error_def k_sunrpc_max_auth_stat_def
lemmas sunrpc_flavors = k_sunrpc_auth_null_def k_sunrpc_auth_unix_def k_sunrpc_auth_short_def
  k_sunrpc_auth_des_def k_sunrpc_auth_kerb_def k_sunrpc_auth_rsa_def k_sunrpc_auth_rpcsec_gss_def

definition sunrpc_read_u32_be :: "mem \<Rightarrow> nat \<Rightarrow> u32" where
  "sunrpc_read_u32_be m p = be32 (probe_read_z m p 4)"

definition sunrpc_valid_program :: "u32 \<Rightarrow> bool" where
  "sunrpc_valid_program prog \<longleftrightarrow>
     (prog \<ge> 100000 \<and> prog \<le> 101000) \<or> (prog \<ge> 0x20000000 \<and> prog \<le> 0x2fffffff)"

definition sunrpc_valid_auth_flavor :: "u32 \<Rightarrow> bool" where
  "sunrpc_valid_auth_flavor flavor \<longleftrightarrow> flavor \<in> {k_sunrpc_auth_null, k_sunrpc_auth_unix, k_sunrpc_auth_short,
     k_sunrpc_auth_des, k_sunrpc_auth_kerb, k_sunrpc_auth_rsa, k_sunrpc_auth_rpcsec_gss}"

text \<open>The advanced offset, or \<open>None\<close> for the return code -1.\<close>

definition sunrpc_skip_opaque_auth :: "mem \<Rightarrow> nat \<Rightarrow> u32 \<Rightarrow> u32 \<Rightarrow> u32 option" where
  "sunrpc_skip_opaque_auth m data data_len off =
     (if off > data_len \<or> data_len - off < 8 then None
      else let flavor = sunrpc_read_u32_be m (data + unat off);
               len = sunrpc_read_u32_be m (data + unat off + 4);
               remaining = data_len - off - 8;
               padded = (len + 3) AND NOT 3
           in if \<not> sunrpc_valid_auth_flavor flavor then None
              else if len > remaining then None
              else if padded > remaining then None
              else Some (off + (8 + padded)))"

definition sunrpc_parse_call_msg :: "mem \<Rightarrow> nat \<Rightarrow> u32 \<Rightarrow> bool" where
  "sunrpc_parse_call_msg m rpc rpc_len =
     (if rpc_len < 32 then False
      else if sunrpc_read_u32_be m (rpc + 4) \<noteq> k_sunrpc_msg_call then False
      else if sunrpc_read_u32_be m (rpc + 8) \<noteq> k_sunrpc_rpc_version then False
      else let prog = sunrpc_read_u32_be m (rpc + 12);
               vers = sunrpc_read_u32_be m (rpc + 16);
               proc = sunrpc_read_u32_be m (rpc + 20)
           in if \<not> sunrpc_valid_program prog \<or> vers = 0 \<or> proc > 0xffff then False
              else case sunrpc_skip_opaque_auth m rpc rpc_len 24 of
                None \<Rightarrow> False
              | Some off \<Rightarrow> sunrpc_skip_opaque_auth m rpc rpc_len off \<noteq> None)"

definition sunrpc_validate_rejected_reply :: "mem \<Rightarrow> nat \<Rightarrow> u32 \<Rightarrow> bool" where
  "sunrpc_validate_rejected_reply m body body_len =
     (if body_len < 4 then False
      else let reject_stat = sunrpc_read_u32_be m body
           in if reject_stat = k_sunrpc_reject_rpc_mismatch then body_len \<ge> 12
              else if reject_stat = k_sunrpc_reject_auth_error
              then (if body_len < 8 then False else sunrpc_read_u32_be m (body + 4) \<le> k_sunrpc_max_auth_stat)
              else False)"

definition sunrpc_parse_reply_msg :: "mem \<Rightarrow> nat \<Rightarrow> u32 \<Rightarrow> bool" where
  "sunrpc_parse_reply_msg m rpc rpc_len =
     (if rpc_len < 16 then False
      else if sunrpc_read_u32_be m (rpc + 4) \<noteq> k_sunrpc_msg_reply then False
      else let reply_stat = sunrpc_read_u32_be m (rpc + 8)
           in if reply_stat > k_sunrpc_reply_denied then False
              else if reply_stat = k_sunrpc_reply_denied
              then (if rpc_len < 12 then False else sunrpc_validate_rejected_reply m (rpc + 12) (rpc_len - 12))
              else case sunrpc_skip_opaque_auth m rpc rpc_len 12 of
                None \<Rightarrow> False
              | Some off \<Rightarrow> (if off + 4 > rpc_len then False
                  else sunrpc_read_u32_be m (rpc + unat off) \<le> 5))"

definition sunrpc_record_looks_valid :: "mem \<Rightarrow> nat \<Rightarrow> u32 \<Rightarrow> bool" where
  "sunrpc_record_looks_valid m data data_len =
     (if data_len < 4 then False
      else let rm = sunrpc_read_u32_be m data;
               rec_len = rm AND k_sunrpc_rm_frag_len_mask
           in if rm AND k_sunrpc_rm_last_frag = 0 then False
              else if rec_len < k_sunrpc_min_record \<or> rec_len > k_sunrpc_max_record then False
              else if data_len < 4 + rec_len then False
              else let msg_type = sunrpc_read_u32_be m (data + 4 + 4)
                   in if msg_type = k_sunrpc_msg_call then sunrpc_parse_call_msg m (data + 4) rec_len
                      else if msg_type = k_sunrpc_msg_reply then sunrpc_parse_reply_msg m (data + 4) rec_len
                      else False)"

definition is_sunrpc ::
  "connection_info \<Rightarrow> mem \<Rightarrow> nat \<Rightarrow> u32 \<Rightarrow> protocol_type \<Rightarrow> proto_maps \<Rightarrow> bool \<times> protocol_type \<times> proto_maps" where
  "is_sunrpc conn m data data_len pt st =
     (if pt = k_protocol_type_sunrpc then (True, pt, st)
      else if pt \<noteq> k_protocol_type_unknown then (False, pt, st)
      else if \<not> sunrpc_record_looks_valid m data data_len then (False, pt, st)
      else (True, k_protocol_type_sunrpc,
            st\<lparr>protocol_cache := (protocol_cache st)(conn \<mapsto> k_protocol_type_sunrpc)\<rparr>))"

subsection \<open>Classifiers and budgets\<close>

lemma kafka_store_cases: "kafka_store_state_data conn m u n d st = (b, st1) \<Longrightarrow>
    protocol_cache st1 = protocol_cache st \<and> pm_ring st1 = pm_ring st \<and> (\<not> b \<longrightarrow> st1 = st)"
  by (auto simp: kafka_store_state_data_def Let_def split: if_splits)

interpretation kafka: protocol_detector "\<lambda>(m, data, n, d) conn pt. is_kafka conn m data n pt d" k_protocol_type_kafka
  by unfold_locales
    (auto simp: is_kafka_def Let_def dest!: kafka_store_cases split: prod.splits if_splits option.splits)

interpretation aerospike: protocol_detector "\<lambda>(m, data, n) conn. is_aerospike conn m data n" k_protocol_type_aerospike
  by unfold_locales (auto simp: is_aerospike_def Let_def split: prod.splits if_splits option.splits)

interpretation sunrpc: protocol_detector "\<lambda>(m, data, n) conn. is_sunrpc conn m data n" k_protocol_type_sunrpc
  by unfold_locales (auto simp: is_sunrpc_def split: prod.splits if_splits)

lemma kafka_rest_form:
  assumes "emit_from_scratch re ms lb u_buf (min n (bpf_clamp_umax max_available k_large_buf_max_kafka_captured_bytes)) st = (c, st1)"
    and "kafka_capture_rest re cfg ms conn u_buf n ip tot lb max_available consumed r st = (v, r', st')"
  shows "r' = add_consumed PACKET_TYPE_RESPONSE (consumed + c) r \<and> pm_ring st' = pm_ring st1"
  using assms unfolding kafka_capture_rest_def Let_def by (auto split: if_splits option.splits)

lemma bytes_sent_response [simp]: "bytes_sent PACKET_TYPE_RESPONSE r = tr_lb_res_bytes r"
  by (simp add: bytes_sent_def PACKET_TYPE_REQUEST_def PACKET_TYPE_RESPONSE_def)

lemma bytes_sent_request [simp]: "bytes_sent PACKET_TYPE_REQUEST r = tr_lb_req_bytes r"
  by (simp add: bytes_sent_def)

lemma kafka_pays:
  assumes e: "kafka_send_large_buffer re cfg ms pc u_buf n d a r st = (v, r', st')"
    and le: "side_captured s r \<le> unat (kafka_max_captured_bytes cfg)"
  shows "paid (kafka_max_captured_bytes cfg) s r st r' st'"
proof -
  let ?L = "kafka_max_captured_bytes cfg" and ?conn = "pc_conn pc" and ?m = "ms k_large_buf_read_kernel"
  let ?key = "\<lparr>kk_conn = ?conn, kk_direction = d\<rparr>"
  have same: ?thesis if "r' = r \<and> pm_ring st' = pm_ring st" using that paid_same[OF le] by simp
  obtain b st1 where b: "kafka_store_state_data ?conn ?m u_buf (ucast n) d st = (b, st1)" by (rule prod.exhaust)
  note sc = kafka_store_cases[OF b]
  show ?thesis
  proof (cases "?L = 0 \<or> tr_lb_res_bytes r \<ge> ?L \<or> n = 0 \<or> b")
    case True
    then have "r' = r \<and> pm_ring st' = pm_ring st"
      using e b sc by (auto simp: kafka_send_large_buffer_def Let_def split: if_splits)
    then show ?thesis by (rule same)
  next
    case guard: False
    define corr where "corr = kafka_ongoing_requests st ?conn"
    define ip where "ip = (tr_lb_res_bytes r > 0)"
    define sd where "sd = kafka_state st ?key"
    define A where "A = (corr = None \<and> \<not> ip)"
    define B where "B = (\<not> ip \<and> (case corr of None \<Rightarrow> True
       | Some k \<Rightarrow> kafka_read_response_correlation_id sd ?m u_buf n \<noteq> kc_correlation_id k))"
    define tot where "tot = (if ip then 0 else kafka_response_total sd ?m u_buf n)"
    have st1: "st1 = st" and nb: "\<not> b" and lt: "tr_lb_res_bytes r < ?L" using sc guard by (auto simp: not_le)
    note e1 = e[unfolded kafka_send_large_buffer_def Let_def b prod.case st1,
        folded corr_def, folded ip_def sd_def, folded A_def B_def, folded tot_def]
    show ?thesis
    proof (cases "A \<or> B \<or> tcp_large_buffers st = None")
      case True
      then have "r' = r \<and> pm_ring st' = pm_ring st" using e1 guard nb by (auto split: if_splits)
      then show ?thesis by (rule same)
    next
      case False
      then obtain lb0 where lb0: "tcp_large_buffers st = Some lb0" and ne: "\<not> A" "\<not> B" by auto
      define lb where "lb = fill_large_buffer r ?conn PACKET_TYPE_RESPONSE d a k_large_buf_layer_app lb0"
      define st2 where "st2 = st\<lparr>tcp_large_buffers := Some lb\<rparr>"
      define st3 where "st3 = st2\<lparr>kafka_state := map_del ?key (kafka_state st2)\<rparr>"
      have rings: "pm_ring st2 = pm_ring st" "pm_ring st3 = pm_ring st" by (simp_all add: st2_def st3_def)
      show ?thesis
      proof (cases "kafka_msg_size_from_state sd n")
        case True
        show ?thesis
        proof (cases "?L - tr_lb_res_bytes r < 4")
          case short: True
          then have "r' = r \<and> pm_ring st' = pm_ring st"
            using e1 guard nb ne lb0 True by (auto simp: kafka_consts)
          then show ?thesis by (rule same)
        next
          case enough: False
          obtain lb1 st4 where p: "ship_prefix re (be_bytes32 (the sd)) lb st3 = (lb1, st4)" by (rule prod.exhaust)
          obtain c st5 where x: "emit_from_scratch re ms lb1 u_buf
              (min n (bpf_clamp_umax (?L - tr_lb_res_bytes r - 4) k_large_buf_max_kafka_captured_bytes)) st4 = (c, st5)"
            by (rule prod.exhaust)
          have "kafka_capture_rest re cfg ms ?conn u_buf n ip tot lb1 (?L - tr_lb_res_bytes r - 4) 4 r st4 = (v, r', st')"
            using e1 guard nb ne lb0 True enough p by (simp add: kafka_consts lb_def st2_def st3_def)
          from kafka_rest_form[OF x this]
            paid_prefix_ship[OF p[unfolded lb_def], of ms u_buf n ?L k_large_buf_max_kafka_captured_bytes c st5 s] x lt enough le
          show ?thesis by (simp add: paid_def rings)
        qed
      next
        case no: False
        obtain c st5 where x: "emit_from_scratch re ms lb u_buf
            (min n (bpf_clamp_umax (?L - tr_lb_res_bytes r) k_large_buf_max_kafka_captured_bytes)) st2 = (c, st5)"
          by (rule prod.exhaust)
        have "kafka_capture_rest re cfg ms ?conn u_buf n ip tot lb (?L - tr_lb_res_bytes r) 0 r st2 = (v, r', st')"
          using e1 guard nb ne lb0 no by (simp add: lb_def st2_def)
        from kafka_rest_form[OF x this]
          paid_ship[of re ms r ?conn PACKET_TYPE_RESPONSE d a k_large_buf_layer_app lb0 u_buf n ?L
            k_large_buf_max_kafka_captured_bytes st2 c st5 s] x le
        show ?thesis by (simp add: paid_def rings lb_def)
      qed
    qed
  qed
qed

lemma aerospike_emit_pays:
  assumes e: "aerospike_emit_chunks re cfg ms r pc u_buf n packet_type d a (bytes_sent packet_type r) st = (c, st')"
    and le: "side_captured s r \<le> unat (aerospike_max_captured_bytes cfg)"
  shows "paid (aerospike_max_captured_bytes cfg) s r st (add_consumed packet_type c r) st'"
proof (cases "tcp_large_buffers st")
  case None
  then have "c = 0" "st' = st" using e by (simp_all add: aerospike_emit_chunks_def)
  then show ?thesis using le by (auto simp: paid_def side_captured_def add_consumed_def Let_def)
next
  case (Some lb)
  then show ?thesis using e paid_ship[OF _ le] by (simp add: aerospike_emit_chunks_def Let_def)
qed

lemma aerospike_pays:
  assumes e: "aerospike_send_large_buffer re cfg ms pc u_buf n packet_type d a r st = (v, r', st')"
    and le: "side_captured s r \<le> unat (aerospike_max_captured_bytes cfg)"
  shows "paid (aerospike_max_captured_bytes cfg) s r st r' st'"
proof (cases "r' = r \<and> pm_ring st' = pm_ring st")
  case True
  then show ?thesis using paid_same[OF le] by simp
next
  case False
  show ?thesis
  proof (cases "packet_type = PACKET_TYPE_REQUEST")
    case True
    obtain c st1 where x: "aerospike_emit_chunks re cfg ms r pc u_buf n packet_type d a (tr_lb_req_bytes r) st = (c, st1)"
      by (rule prod.exhaust)
    have "r' = add_consumed PACKET_TYPE_REQUEST c r" "st' = st1"
      using e False True x by (auto simp: aerospike_send_large_buffer_def Let_def split: if_splits)
    then show ?thesis using aerospike_emit_pays[of re cfg ms r pc u_buf n packet_type d a st c st1 s] x True le by simp
  next
    case res: False
    obtain c st1 where x: "aerospike_emit_chunks re cfg ms r pc u_buf n packet_type d a (tr_lb_res_bytes r) st = (c, st1)"
      by (rule prod.exhaust)
    have "r' = add_consumed PACKET_TYPE_RESPONSE c r" "pm_ring st' = pm_ring st1"
      using e False res x by (auto simp: aerospike_send_large_buffer_def Let_def split: if_splits option.splits)
    moreover have "add_consumed PACKET_TYPE_RESPONSE c r = add_consumed packet_type c r"
      using res by (simp add: add_consumed_def PACKET_TYPE_RESPONSE_def PACKET_TYPE_REQUEST_def)
    moreover have "bytes_sent packet_type r = tr_lb_res_bytes r" using res by (simp add: bytes_sent_def)
    ultimately show ?thesis using aerospike_emit_pays[of re cfg ms r pc u_buf n packet_type d a st c st1 s] x le
      by (simp add: paid_def)
  qed
qed

interpretation kafka_budget: capture_budget
  "\<lambda>(ms, pc, u_buf, n, d, a) (r, st). snd (kafka_send_large_buffer re cfg ms pc u_buf n d a r st)"
  "unat (kafka_max_captured_bytes cfg)"
  by unfold_locales (auto simp: paid_def dest!: snd_pairD kafka_pays split: prod.splits)

interpretation aerospike_budget: capture_budget
  "\<lambda>(ms, pc, u_buf, n, packet_type, d, a) (r, st).
     snd (aerospike_send_large_buffer re cfg ms pc u_buf n packet_type d a r st)"
  "unat (aerospike_max_captured_bytes cfg)"
  by unfold_locales (auto simp: paid_def dest!: snd_pairD aerospike_pays split: prod.splits)

subsection \<open>A Kafka response in several pieces\<close>

text \<open>An emission that meets no failure ships the whole run of bytes.\<close>

lemma emit_full:
  assumes ok: "\<And>i. rb_ok re i" and rd: "probe_read (ms k_large_buf_read_kernel) u_buf (unat n) = Some bs"
    and n: "unat n \<le> 65536" "n \<noteq> 0" and e: "emit_from_scratch re ms lb u_buf n st = (c, st')"
  shows "c = n \<and> tcp_large_buffers st' \<noteq> None \<and>
    st' = st\<lparr>pm_ring := pm_ring st', tcp_large_buffers := tcp_large_buffers st'\<rparr> \<and>
    (\<exists>evs. shipped (pm_ring st') = shipped (pm_ring st) @ evs \<and>
      (\<forall>acc. fold receive_chunk evs acc = (if lb_action lb = k_large_buf_action_init then [] else acc) @ bs))"
proof -
  obtain lb' rg' where x: "large_buf_emit_chunks re ms lb u_buf n k_large_buf_read_kernel (pm_ring st) = (c, lb', rg')"
    and st': "st' = st\<lparr>pm_ring := rg', tcp_large_buffers := Some lb'\<rparr>"
    using e by (auto simp: emit_from_scratch_def split: prod.splits)
  have m: "min (unat n) 65536 = unat n" using n by simp
  obtain evs where evs: "shipped rg' = shipped (pm_ring st) @ evs"
    "probe_read (ms k_large_buf_read_kernel) u_buf (unat c) = Some (concat (map chunk_data evs))"
    "\<forall>i < length evs. chunk_of lb (if i = 0 then lb_action lb else k_large_buf_action_append) (evs ! i)"
    "unat c = unat n"
    using emit_spec[OF x] ok rd unfolding m by auto
  have bs: "concat (map chunk_data evs) = bs" using evs(2,4) rd by simp
  have "0 < unat n" using n(2) by (simp add: unat_gt_0)
  then have "bs \<noteq> []" using probe_read_length[OF rd] by auto
  then have "evs \<noteq> []" using bs by auto
  then have "fold receive_chunk evs acc = (if lb_action lb = k_large_buf_action_init then [] else acc) @ bs" for acc
    using receive_run[OF evs(3), of acc] by (simp add: bs)
  then show ?thesis using evs(1,4) st' by (auto simp: word_unat_eq_iff)
qed

definition response_action :: "tcp_req \<Rightarrow> large_buf_action" where
  "response_action r = (if tr_lb_res_bytes r > 0 then k_large_buf_action_append else k_large_buf_action_init)"

lemma sint_small: "unat (w :: u32) < 2147483648 \<Longrightarrow> sint w = int (unat w)"
proof -
  assume "unat w < 2147483648"
  then have "int (unat w) < 2147483648" by linarith
  then have u: "uint w < 2147483648" by simp
  have "0 \<le> uint w" by simp
  then have "- (2147483648) \<le> uint w" by linarith
  with u have "signed_take_bit 31 (uint w) = uint w" by (intro signed_take_bit_int_eq_self) auto
  then show ?thesis by (simp add: sint_uint)
qed

text \<open>
  One piece of a response of \<open>T\<close> bytes, \<open>k\<close> of them captured before: the first piece names the
  request waiting, later ones find the number of bytes still missing.
\<close>

lemma kafka_piece:
  fixes T k :: nat and cfg conn r n
  assumes ok: "\<And>i. rb_ok re i" and rd: "probe_read (ms k_large_buf_read_kernel) u_buf (unat n) = Some bs"
    and n: "n \<noteq> 0" "n \<noteq> 4" "k + unat n \<le> T" and T: "T \<le> unat (kafka_max_captured_bytes cfg)" "T \<le> 65536"
    and r: "unat (tr_lb_res_bytes r) = k" and lb: "tcp_large_buffers st \<noteq> None"
    and sd: "kafka_state st \<lparr>kk_conn = pc_conn pc, kk_direction = d\<rparr> = None"
    and corr: "kafka_ongoing_requests st (pc_conn pc) = Some q"
    and first: "k = 0 \<Longrightarrow> kafka_read_response_correlation_id None (ms k_large_buf_read_kernel) u_buf n = kc_correlation_id q \<and>
       unat (kafka_response_total None (ms k_large_buf_read_kernel) u_buf n) = T"
    and later: "k > 0 \<Longrightarrow> unat (kc_response_bytes_remaining q) + k = T"
    and e: "kafka_send_large_buffer re cfg ms pc u_buf n d (response_action r) r st = (v, r', st')"
  shows "v = (if k + unat n = T then 0 else -1) \<and> unat (tr_lb_res_bytes r') = k + unat n \<and>
    tcp_large_buffers st' \<noteq> None \<and> kafka_state st' = kafka_state st \<and>
    (if k + unat n = T then kafka_ongoing_requests st' (pc_conn pc) = None
     else \<exists>q'. kafka_ongoing_requests st' (pc_conn pc) = Some q' \<and>
       unat (kc_response_bytes_remaining q') + (k + unat n) = T) \<and>
    (\<exists>evs. shipped (pm_ring st') = shipped (pm_ring st) @ evs \<and>
      (\<forall>acc. fold receive_chunk evs acc = (if k = 0 then [] else acc) @ bs))"
proof -
  let ?L = "kafka_max_captured_bytes cfg" and ?conn = "pc_conn pc"
  obtain lb0 where lb0: "tcp_large_buffers st = Some lb0" using lb by auto
  define lb where "lb = fill_large_buffer r ?conn PACKET_TYPE_RESPONSE d (response_action r) k_large_buf_layer_app lb0"
  define st2 where "st2 = st\<lparr>tcp_large_buffers := Some lb\<rparr>"
  have n0: "0 < unat n" using n(1) by (simp add: unat_gt_0)
  have lt: "unat (tr_lb_res_bytes r) < unat ?L" using n0 n(3) T(1) r by simp
  have room: "min n (bpf_clamp_umax (?L - tr_lb_res_bytes r) k_large_buf_max_kafka_captured_bytes) = n"
  proof -
    have "unat (?L - tr_lb_res_bytes r) = unat ?L - k" using lt r by (simp add: unat_sub word_le_nat_alt)
    then have "n \<le> ?L - tr_lb_res_bytes r" "n \<le> 65536" using n(3) T by (simp_all add: word_le_nat_alt)
    then show ?thesis by (simp add: bpf_clamp_umax_def k_large_buf_max_kafka_captured_bytes_def min_def)
  qed
  obtain c st3 where x: "emit_from_scratch re ms lb u_buf n st2 = (c, st3)" by (rule prod.exhaust)
  have "unat n \<le> 65536" using n(3) T(2) by simp
  note f = emit_full[OF ok rd this n(1) x]
  have n4: "(ucast n :: u64) \<noteq> 4"
    using n(2) by (simp add: word_unat_eq_iff)
  have ip: "tr_lb_res_bytes r > 0 \<longleftrightarrow> k > 0" using r by (simp add: word_less_nat_alt)
  define tot where "tot = (if tr_lb_res_bytes r > 0 then 0 else kafka_response_total None (ms k_large_buf_read_kernel) u_buf n)"
  have run: "kafka_capture_rest re cfg ms ?conn u_buf n (tr_lb_res_bytes r > 0) tot lb (?L - tr_lb_res_bytes r) 0 r st2 = (v, r', st')"
    using e n4 n(1) lt sd corr first lb0 ip
    by (auto simp: kafka_send_large_buffer_def kafka_store_state_data_def kafka_consts Let_def
        kafka_msg_size_from_state_def tot_def lb_def st2_def word_le_nat_alt word_less_nat_alt split: if_splits)
  define r1 where "r1 = add_consumed PACKET_TYPE_RESPONSE n r"
  have l1: "unat (tr_lb_res_bytes r1) = k + unat n"
    using r n(3) T by (simp add: r1_def add_consumed_def PACKET_TYPE_REQUEST_def PACKET_TYPE_RESPONSE_def Let_def unat_word_ariths)
  define rem where "rem = (if \<not> tr_lb_res_bytes r > 0 then tot - tr_lb_res_bytes r1 else kc_response_bytes_remaining q - n)"
  have rem: "unat rem = T - (k + unat n)"
  proof (cases "k = 0")
    case True
    then have "unat tot = T" using first ip by (simp add: tot_def)
    then show ?thesis using True ip l1 n(3) by (simp add: rem_def unat_sub word_le_nat_alt)
  next
    case False
    then have "unat (kc_response_bytes_remaining q) = T - k" using later by simp
    then show ?thesis using False ip n(3) by (simp add: rem_def unat_sub word_le_nat_alt)
  qed
  have full: "k + unat n = T" if "?L \<le> tr_lb_res_bytes r1" using that l1 T(1) n(3) by (simp add: word_le_nat_alt)
  have s: "0 < sint rem \<longleftrightarrow> 0 < unat rem" using sint_small[of rem] rem T(2) by simp
  have pos: "0 < sint (if ?L \<le> tr_lb_res_bytes r1 then 0 else rem) \<longleftrightarrow> k + unat n \<noteq> T"
  proof (cases "?L \<le> tr_lb_res_bytes r1")
    case True
    then show ?thesis using full by simp
  next
    case False
    then show ?thesis using s rem n(3) by simp linarith
  qed
  have e3: "st3 = st2\<lparr>pm_ring := pm_ring st3, tcp_large_buffers := tcp_large_buffers st3\<rparr>" and cn: "c = n" using f by auto
  have c: "kafka_ongoing_requests st3 ?conn = Some q" "kafka_state st3 = kafka_state st"
    by (subst e3, simp add: st2_def corr)+
  have out: "r' = r1" "v = (if k + unat n = T then 0 else -1)"
    "st' = (if k + unat n = T then st3\<lparr>kafka_ongoing_requests := map_del ?conn (kafka_ongoing_requests st3)\<rparr>
       else st3\<lparr>kafka_ongoing_requests := (kafka_ongoing_requests st3)(?conn \<mapsto> q\<lparr>kc_response_bytes_remaining := rem\<rparr>)\<rparr>)"
    using run pos full unfolding kafka_capture_rest_def Let_def room x prod.case cn c(1) option.case add_0 r1_def[symmetric] rem_def[symmetric]
    by (auto split: if_splits)
  have ac: "lb_action lb = k_large_buf_action_init \<longleftrightarrow> k = 0"
    using ip by (auto simp: lb_def fill_large_buffer_def response_action_def)
  have "pm_ring st2 = pm_ring st" by (simp add: st2_def)
  moreover have "tcp_large_buffers st' \<noteq> None" "kafka_state st' = kafka_state st" "pm_ring st' = pm_ring st3"
    using f c(2) unfolding out(3) by (simp_all split: if_split)
  ultimately show ?thesis using f rem n(3) unfolding ac out(1,2) l1 by (auto simp: out(3))
qed

text \<open>The pieces of a response handed over one after the other, with the return codes.\<close>

primrec kafka_feed ::
  "ring_env \<Rightarrow> capture_cfg \<Rightarrow> pid_connection_info \<Rightarrow> u8 \<Rightarrow> bytes list \<Rightarrow> tcp_req \<Rightarrow> proto_maps
   \<Rightarrow> int list \<times> tcp_req \<times> proto_maps" where
  "kafka_feed re cfg pc d [] r st = ([], r, st)"
| "kafka_feed re cfg pc d (p # ps) r st =
     (let (v, r1, st1) = kafka_send_large_buffer re cfg (\<lambda>_. mem_of 0 p) pc 0 (of_nat (length p)) d (response_action r) r st;
          (vs, r2, st2) = kafka_feed re cfg pc d ps r1 st1
      in (v # vs, r2, st2))"

lemma piece_memory:
  "length p \<le> 65536 \<Longrightarrow> unat (of_nat (length p) :: u32) = length p \<and>
     probe_read (mem_of 0 p) 0 (unat (of_nat (length p) :: u32)) = Some p"
  using probe_read_mem_of[of 0 "length p" p 0] by (simp add: unat_of_nat)

lemma kafka_feed_later:
  "\<lbrakk>\<And>i. rb_ok re i; ps \<noteq> []; \<forall>p \<in> set ps. p \<noteq> [] \<and> length p \<noteq> 4;
    unat (tr_lb_res_bytes r) + length (concat ps) = T; 0 < unat (tr_lb_res_bytes r);
    T \<le> unat (kafka_max_captured_bytes cfg); T \<le> 65536; tcp_large_buffers st \<noteq> None;
    kafka_state st \<lparr>kk_conn = pc_conn pc, kk_direction = d\<rparr> = None;
    kafka_ongoing_requests st (pc_conn pc) = Some q;
    unat (kc_response_bytes_remaining q) + unat (tr_lb_res_bytes r) = T;
    kafka_feed re cfg pc d ps r st = (vs, r', st')\<rbrakk> \<Longrightarrow>
   vs = replicate (length ps - 1) (-1) @ [0] \<and> unat (tr_lb_res_bytes r') = T \<and>
   kafka_ongoing_requests st' (pc_conn pc) = None \<and>
   (\<exists>evs. shipped (pm_ring st') = shipped (pm_ring st) @ evs \<and> (\<forall>acc. fold receive_chunk evs acc = acc @ concat ps))"
proof (induction ps arbitrary: r st q vs)
  case Nil
  then show ?case by simp
next
  case (Cons p ps)
  define k where "k = unat (tr_lb_res_bytes r)"
  define n :: u32 where "n = of_nat (length p)"
  have lp: "length p \<le> 65536" using Cons.prems(4,7) by simp
  note mem = piece_memory[OF lp, folded n_def]
  have n: "n \<noteq> 0" "n \<noteq> 4" "k + unat n \<le> T"
    using Cons.prems(3,4) mem by (auto simp: word_unat_eq_iff k_def)
  obtain v r1 st1 where e1: "kafka_send_large_buffer re cfg (\<lambda>_. mem_of 0 p) pc 0 n d (response_action r) r st = (v, r1, st1)"
    by (rule prod_cases3)
  have q: "k > 0 \<Longrightarrow> unat (kc_response_bytes_remaining q) + k = T" using Cons.prems(11) by (simp add: k_def)
  have k0: "k \<noteq> 0" using Cons.prems(5) by (simp add: k_def)
  note piece = kafka_piece[OF Cons.prems(1) conjunct2[OF mem] n Cons.prems(6,7) k_def[symmetric] Cons.prems(8-10) _ q e1,
      simplified k0, simplified]
  obtain vs2 where f: "kafka_feed re cfg pc d ps r1 st1 = (vs2, r', st')" and vs: "vs = v # vs2"
    using Cons.prems(12) e1 by (auto simp: n_def[symmetric] split: prod.splits)
  show ?case
  proof (cases "ps = []")
    case True
    then have "k + unat n = T" using Cons.prems(4) mem by (simp add: k_def)
    then show ?thesis using piece f vs True by auto
  next
    case False
    have rest: "k + unat n + length (concat ps) = T" using Cons.prems(4) mem by (simp add: k_def)
    have "concat ps \<noteq> []" using False Cons.prems(3) by (cases ps) auto
    then have ne: "k + unat n \<noteq> T" using rest by auto
    obtain q' where q': "kafka_ongoing_requests st1 (pc_conn pc) = Some q'"
      "unat (kc_response_bytes_remaining q') + (k + unat n) = T" using piece ne by auto
    obtain ev1 where ev1: "shipped (pm_ring st1) = shipped (pm_ring st) @ ev1" "\<And>acc. fold receive_chunk ev1 acc = acc @ p"
      using piece by auto
    have l1: "unat (tr_lb_res_bytes r1) = k + unat n" using piece by blast
    have "vs2 = replicate (length ps - 1) (-1) @ [0] \<and> unat (tr_lb_res_bytes r') = T \<and>
       kafka_ongoing_requests st' (pc_conn pc) = None \<and>
       (\<exists>evs. shipped (pm_ring st') = shipped (pm_ring st1) @ evs \<and> (\<forall>acc. fold receive_chunk evs acc = acc @ concat ps))"
      by (rule Cons.IH[OF Cons.prems(1) False _ _ _ Cons.prems(6,7) _ _ q'(1) _ f])
        (use Cons.prems(3,9) piece rest k0 q'(2) l1 in auto)
    then obtain ev2 where ev2: "shipped (pm_ring st') = shipped (pm_ring st1) @ ev2"
      "\<And>acc. fold receive_chunk ev2 acc = acc @ concat ps" and
      r: "vs2 = replicate (length ps - 1) (-1) @ [0]" "unat (tr_lb_res_bytes r') = T"
       "kafka_ongoing_requests st' (pc_conn pc) = None" by auto
    have "v = -1" using piece ne by simp
    then have "vs = replicate (length (p # ps) - 1) (-1) @ [0]" using vs r(1) False by (cases ps) simp_all
    moreover have "shipped (pm_ring st') = shipped (pm_ring st) @ (ev1 @ ev2)" using ev1 ev2 by simp
    moreover have "fold receive_chunk (ev1 @ ev2) acc = acc @ concat (p # ps)" for acc using ev1 ev2 by simp
    ultimately show ?thesis using r by blast
  qed
qed

lemma kafka_first_piece:
  assumes p: "8 \<le> length p" "length p \<le> 65536" and T: "be_nat (take 4 p) + 4 = T" "T \<le> 65536" "8 \<le> T"
  shows "kafka_read_response_correlation_id None (mem_of 0 p) 0 (of_nat (length p)) = be32 (take 4 (drop 4 p)) \<and>
    unat (kafka_response_total None (mem_of 0 p) 0 (of_nat (length p))) = T"
proof -
  have un: "unat (of_nat (length p) :: u32) = length p" using piece_memory[OF p(2)] by simp
  have rd: "probe_read (mem_of 0 p) 4 4 = Some (take 4 (drop 4 p))" "probe_read (mem_of 0 p) 0 4 = Some (take 4 p)"
    using probe_read_mem_of[of 4 4 p 0] probe_read_mem_of[of 0 4 p 0] p by simp_all
  have ms: "unat (be32 (take 4 p)) = T - 4" using T p by (simp add: unat_be_word)
  then have "sint (be32 (take 4 p)) = int (T - 4)" using sint_small[of "be32 (take 4 p)"] T by simp
  moreover have "unat (be32 (take 4 p) + 4) = T" using ms T by (simp add: unat_word_ariths)
  ultimately show ?thesis using p T rd un
    by (simp add: kafka_read_response_correlation_id_def kafka_response_total_def kafka_msg_size_from_state_def
        kafka_consts Let_def probe_read_z_def word_less_nat_alt word_le_nat_alt)
qed

text \<open>
  C16: A Kafka response to a known request that arrives in any number of pieces, none of them four
  bytes long and the first with the whole header, is captured completely when it fits the limits:
  every piece but the last asks to wait, the last one finishes the capture and forgets the request,
  and the chunks shipped put together are the response.
\<close>

theorem kafka_response_captured:
  assumes ok: "\<forall>i. rb_ok re i" and ps: "concat ps = resp" "\<forall>p \<in> set ps. p \<noteq> [] \<and> length p \<noteq> 4" "ps \<noteq> []" "8 \<le> length (hd ps)"
    and T: "be_nat (take 4 resp) + 4 = length resp" "length resp \<le> unat (kafka_max_captured_bytes cfg)" "length resp \<le> 65536"
    and q: "kafka_ongoing_requests st (pc_conn pc) = Some q" "kc_correlation_id q = be32 (take 4 (drop 4 resp))"
    and st: "kafka_state st \<lparr>kk_conn = pc_conn pc, kk_direction = d\<rparr> = None" "tcp_large_buffers st \<noteq> None" "tr_lb_res_bytes r = 0"
    and f: "kafka_feed re cfg pc d ps r st = (vs, r', st')"
  shows "vs = replicate (length ps - 1) (-1) @ [0] \<and> unat (tr_lb_res_bytes r') = length resp \<and>
    kafka_ongoing_requests st' (pc_conn pc) = None \<and>
    (\<exists>evs. shipped (pm_ring st') = shipped (pm_ring st) @ evs \<and> fold receive_chunk evs acc = resp)"
proof -
  obtain p rest where p: "ps = p # rest" using ps(3) by (cases ps) auto
  have resp: "resp = p @ concat rest" using ps(1) p by simp
  have p8: "8 \<le> length p" "length p \<le> 65536" "8 \<le> length resp" using ps(4) p T(3) resp by auto
  have hdr: "take 4 resp = take 4 p" "take 4 (drop 4 resp) = take 4 (drop 4 p)" using p8 by (simp_all add: resp)
  note first = kafka_first_piece[OF p8(1,2), of "length resp"]
  define n :: u32 where "n = of_nat (length p)"
  note mem = piece_memory[OF p8(2), folded n_def]
  have n: "n \<noteq> 0" "n \<noteq> 4" "0 + unat n \<le> length resp" using p8 mem resp by (auto simp: word_unat_eq_iff)
  obtain v r1 st1 where e1: "kafka_send_large_buffer re cfg (\<lambda>_. mem_of 0 p) pc 0 n d (response_action r) r st = (v, r1, st1)"
    by (rule prod_cases3)
  have r0: "unat (tr_lb_res_bytes r) = 0" using st(3) by simp
  have okay: "rb_ok re i" for i using ok by blast
  have first': "kafka_read_response_correlation_id None (mem_of 0 p) 0 n = kc_correlation_id q \<and>
       unat (kafka_response_total None (mem_of 0 p) 0 n) = length resp"
    using first T hdr q(2) p8(3) by (simp add: n_def)
  note piece = kafka_piece[OF okay conjunct2[OF mem] n T(2,3) r0 st(2,1) q(1) first' _ e1, simplified]
  obtain vs2 where f2: "kafka_feed re cfg pc d rest r1 st1 = (vs2, r', st')" and vs: "vs = v # vs2"
    using f e1 p by (auto simp: n_def[symmetric] split: prod.splits)
  obtain ev1 where ev1: "shipped (pm_ring st1) = shipped (pm_ring st) @ ev1" "\<And>acc. fold receive_chunk ev1 acc = p"
    using piece by auto
  show ?thesis
  proof (cases "rest = []")
    case True
    then show ?thesis using piece f2 vs p resp mem ev1 by auto
  next
    case False
    then have "concat rest \<noteq> []" using ps(2) p by (cases rest) auto
    then have ne: "unat n \<noteq> length resp" using resp mem by auto
    obtain q' where q': "kafka_ongoing_requests st1 (pc_conn pc) = Some q'"
      "unat (kc_response_bytes_remaining q') + unat n = length resp" using piece ne by auto
    have l1: "unat (tr_lb_res_bytes r1) = unat n" using piece by blast
    have later: "vs2 = replicate (length rest - 1) (-1) @ [0] \<and> unat (tr_lb_res_bytes r') = length resp \<and>
       kafka_ongoing_requests st' (pc_conn pc) = None \<and>
       (\<exists>evs. shipped (pm_ring st') = shipped (pm_ring st1) @ evs \<and> (\<forall>acc. fold receive_chunk evs acc = acc @ concat rest))"
      by (rule kafka_feed_later[OF okay False _ _ _ T(2,3) _ _ q'(1) _ f2])
        (use ps(2) p piece resp mem p8 st(1) q'(2) l1 in auto)
    then obtain ev2 where ev2: "shipped (pm_ring st') = shipped (pm_ring st1) @ ev2"
      "\<And>acc. fold receive_chunk ev2 acc = acc @ concat rest" by auto
    have "v = -1" using piece ne by simp
    then have "vs = replicate (length ps - 1) (-1) @ [0]" using vs later False p by (cases rest) simp_all
    moreover have "shipped (pm_ring st') = shipped (pm_ring st) @ (ev1 @ ev2)" using ev1 ev2 by simp
    moreover have "fold receive_chunk (ev1 @ ev2) acc = resp" using ev1 ev2 resp by simp
    ultimately show ?thesis using later by blast
  qed
qed

definition sample_tcp_req :: tcp_req where
  "sample_tcp_req = \<lparr>tr_flags = 0, tr_ssl = 0, tr_direction = 1, tr_has_large_buffers = False,
     tr_protocol_type = k_protocol_type_kafka, tr_is_server = False, tr_parent_status = k_parent_status_none,
     tr_conn_info = sample_conn, tr_len = 0, tr_start_monotime_ns = 0, tr_end_monotime_ns = 0, tr_extra_id = 0,
     tr_task_tid = 0, tr_req_len = 0, tr_resp_len = 0, tr_lb_req_bytes = 0, tr_lb_res_bytes = 0,
     tr_event_source = 0, tr_buf = replicate 256 0, tr_rbuf = replicate 128 0,
     tr_pid = \<lparr>pi_host_pid = 1, pi_user_pid = 1, pi_ns = 1\<rparr>, tr_tp = sample_tp_info\<rparr>"

definition sample_cfg :: capture_cfg where
  "sample_cfg = \<lparr>mysql_max_captured_bytes = 1024, postgres_max_captured_bytes = 1024, kafka_max_captured_bytes = 1024,
     mssql_max_captured_bytes = 1024, tcp_max_captured_bytes = 1024, aerospike_max_captured_bytes = 1024\<rparr>"

definition sample_pc :: pid_connection_info where
  "sample_pc = \<lparr>pc_conn = sample_conn, pc_pid = 7\<rparr>"

definition sample_kafka :: proto_maps where
  "sample_kafka = empty_proto\<lparr>kafka_ongoing_requests :=
     [sample_conn \<mapsto> \<lparr>kc_correlation_id = be32 [0, 0, 0, 5], kc_response_bytes_remaining = 0\<rparr>]\<rparr>"

theorem kafka_response_captured_witness:
  "\<exists>vs r' st' evs. kafka_feed sample_ring_env sample_cfg sample_pc 0 [[0, 0, 0, 7, 0, 0, 0, 5, 65], [66, 67]]
       sample_tcp_req sample_kafka = (vs, r', st') \<and> vs = [-1, 0] \<and> unat (tr_lb_res_bytes r') = 11 \<and>
     shipped (pm_ring st') = evs \<and> fold receive_chunk evs [] = [0, 0, 0, 7, 0, 0, 0, 5, 65, 66, 67]"
proof -
  obtain vs r' st' where f: "kafka_feed sample_ring_env sample_cfg sample_pc 0 [[0, 0, 0, 7, 0, 0, 0, 5, 65], [66, 67]]
       sample_tcp_req sample_kafka = (vs, r', st')" by (rule prod_cases3)
  have "vs = replicate (length [[0, 0, 0, 7, 0, 0, 0, 5, 65], [66, 67 :: u8]] - 1) (-1) @ [0] \<and>
      unat (tr_lb_res_bytes r') = length [0, 0, 0, 7, 0, 0, 0, 5, 65, 66, 67 :: u8] \<and>
      kafka_ongoing_requests st' (pc_conn sample_pc) = None \<and>
      (\<exists>evs. shipped (pm_ring st') = shipped (pm_ring sample_kafka) @ evs \<and>
         fold receive_chunk evs [] = [0, 0, 0, 7, 0, 0, 0, 5, 65, 66, 67])"
    by (rule kafka_response_captured[OF _ _ _ _ _ _ _ _ _ _ _ _ _ f,
        where q = "\<lparr>kc_correlation_id = be32 [0, 0, 0, 5], kc_response_bytes_remaining = 0\<rparr>"])
      (simp_all add: sample_ring_env_def sample_cfg_def sample_kafka_def sample_pc_def empty_proto_def sample_tcp_req_def be_nat_def)
  then show ?thesis using f by (auto simp: sample_kafka_def empty_proto_def shipped_def empty_ring_def)
qed

subsection \<open>Sun RPC calls\<close>

lemma be32_be_bytes32: "be32 (be_bytes32 w) = w"
proof (rule bit_word_eqI)
  fix i assume i: "i < LENGTH(32)"
  have e: "be32 (be_bytes32 w) = push_bit 24 (ucast (ucast (drop_bit 24 w) :: u8)) OR push_bit 16 (ucast (ucast (drop_bit 16 w) :: u8))
      OR push_bit 8 (ucast (ucast (drop_bit 8 w) :: u8)) OR ucast (ucast w :: u8)"
    by (simp add: be_word_def be_bytes32_def push_bit_or or.assoc)
  consider "i < 8" | "8 \<le> i" "i < 16" | "16 \<le> i" "i < 24" | "24 \<le> i" "i < 32" using i by force
  then show "bit (be32 (be_bytes32 w)) i \<longleftrightarrow> bit w i"
    unfolding e by cases (auto simp: bit_simps)
qed

lemma be_bytes32_length [simp]: "length (be_bytes32 w) = 4"
  by (simp add: be_bytes32_def)

lemma read_be:
  assumes "probe_read m data n = Some (pre @ be_bytes32 w @ post)" and "length pre = i"
  shows "sunrpc_read_u32_be m (data + i) = w"
proof -
  have "n = i + 4 + length post" using probe_read_length[OF assms(1)] assms(2) by simp
  then have "probe_read m (data + i) 4 = Some (be_bytes32 w)"
    using probe_read_sub[OF assms(1), of i 4] assms(2) by simp
  then show ?thesis by (simp add: sunrpc_read_u32_be_def probe_read_z_def be32_be_bytes32)
qed

lemma low_bits_cleared: "x AND NOT (mask 2) = push_bit 2 (drop_bit 2 (x :: u32))"
proof (rule bit_word_eqI)
  fix i assume "i < LENGTH(32)"
  then show "bit (x AND NOT (mask 2)) i \<longleftrightarrow> bit (push_bit 2 (drop_bit 2 x)) i"
  proof (cases "i < 2")
    case False
    then obtain j where "i = j + 2" by (metis le_Suc_ex add.commute not_less)
    then show ?thesis using \<open>i < LENGTH(32)\<close> by (simp add: bit_simps)
  qed (simp add: bit_simps)
qed

lemma round_up4:
  fixes w :: u32
  assumes "unat w < 2 ^ 31"
  shows "unat ((w + 3) AND NOT 3) = (unat w + 3) div 4 * 4"
proof -
  have "(w + 3) AND NOT 3 = push_bit 2 (drop_bit 2 (w + 3))"
    using low_bits_cleared[of "w + 3"] by (simp add: mask_eq_exp_minus_1)
  also have "\<dots> = (w + 3) div 4 * 4" by (simp add: push_bit_eq_mult drop_bit_eq_div)
  finally have e: "(w + 3) AND NOT 3 = (w + 3) div 4 * 4" .
  have u: "unat (w + 3) = unat w + 3" using assms by (simp add: unat_word_ariths)
  have "(unat w + 3) div 4 * 4 \<le> unat w + 3" by simp
  then have "(unat w + 3) div 4 * 4 < 2 ^ 32" using assms by simp
  then show ?thesis unfolding e by (simp add: unat_word_ariths(2) unat_div u)
qed

text \<open>The encodings of RFC 5531: an authentication field, a call message and its record.\<close>

definition xdr_pad :: "bytes \<Rightarrow> bytes" where
  "xdr_pad b = b @ replicate ((length b + 3) div 4 * 4 - length b) 0"

definition xdr_auth :: "u32 \<Rightarrow> bytes \<Rightarrow> bytes" where
  "xdr_auth flavor body = be_bytes32 flavor @ be_bytes32 (of_nat (length body)) @ xdr_pad body"

definition rpc_call :: "u32 \<Rightarrow> u32 \<Rightarrow> u32 \<Rightarrow> u32 \<Rightarrow> bytes \<Rightarrow> bytes" where
  "rpc_call xid prog vers proc rest = be_bytes32 xid @ be_bytes32 0 @ be_bytes32 2 @ be_bytes32 prog @
     be_bytes32 vers @ be_bytes32 proc @ rest"

definition rpc_record :: "bytes \<Rightarrow> bytes" where
  "rpc_record msg = be_bytes32 (k_sunrpc_rm_last_frag OR of_nat (length msg)) @ msg"

lemma xdr_pad_length: "length (xdr_pad b) = (length b + 3) div 4 * 4"
  by (simp add: xdr_pad_def)

lemma skip_auth:
  assumes m: "probe_read m data (unat n) = Some (pre @ xdr_auth flavor body @ post)"
    and off: "unat off = length pre" and n: "unat n < 2 ^ 31"
    and f: "sunrpc_valid_auth_flavor flavor"
  shows "\<exists>off'. sunrpc_skip_opaque_auth m data n off = Some off' \<and>
    unat off' = length (pre @ xdr_auth flavor body)"
proof -
  define P where "P = length (xdr_pad body)"
  have len: "unat n = length pre + 8 + P + length post"
    using probe_read_length[OF m] by (simp add: xdr_auth_def P_def)
  have b: "length body \<le> P" using xdr_pad_length[of body] by (simp add: P_def xdr_pad_def)
  have ub: "unat (of_nat (length body) :: u32) = length body" using b len n by (simp add: unat_of_nat)
  have d: "unat (n - off) = unat n - unat off" using len off by (simp add: unat_sub word_le_nat_alt)
  have d8: "unat (n - off - 8) = unat n - unat off - 8"
    using len off d by (simp add: unat_sub[of 8 "n - off"] word_le_nat_alt)
  have r1: "sunrpc_read_u32_be m (data + length pre) = flavor"
    using read_be[of m data "unat n" pre flavor "be_bytes32 (of_nat (length body)) @ xdr_pad body @ post"] m off
    by (simp add: xdr_auth_def)
  have r2: "sunrpc_read_u32_be m (data + length pre + 4) = of_nat (length body)"
    using read_be[of m data "unat n" "pre @ be_bytes32 flavor" "of_nat (length body)" "xdr_pad body @ post" "length pre + 4"] m off
    by (simp add: xdr_auth_def add.assoc)
  define w :: u32 where "w = of_nat (length body)"
  have pad: "unat ((w + 3) AND NOT 3) = P"
    using round_up4[of w] ub b len n by (simp add: w_def P_def xdr_pad_length)
  have s: "unat (off + (8 + ((w + 3) AND NOT 3))) = length pre + 8 + P"
    using pad off len n by (simp add: unat_word_ariths)
  have "sunrpc_skip_opaque_auth m data n off = Some (off + (8 + ((w + 3) AND NOT 3)))"
    using f off len d d8 b pad ub
    by (simp add: sunrpc_skip_opaque_auth_def Let_def r1 r2 w_def[symmetric] word_less_nat_alt)
  then show ?thesis using s by (simp add: xdr_auth_def P_def)
qed

lemma record_mark:
  fixes w :: u32
  assumes "unat w < 2 ^ 31"
  shows "(k_sunrpc_rm_last_frag OR w) AND k_sunrpc_rm_frag_len_mask = w"
    and "(k_sunrpc_rm_last_frag OR w) AND k_sunrpc_rm_last_frag \<noteq> 0"
proof -
  have m: "k_sunrpc_rm_frag_len_mask = mask 31" by (simp add: k_sunrpc_rm_frag_len_mask_def mask_eq_exp_minus_1)
  have "take_bit 31 w = w"
    using assms by (simp add: word_unat_eq_iff unsigned_take_bit_eq take_bit_nat_eq_self)
  moreover have "take_bit 31 k_sunrpc_rm_last_frag = 0" by (simp add: k_sunrpc_rm_last_frag_def)
  ultimately have "take_bit 31 (k_sunrpc_rm_last_frag OR w) = w" by (simp only: take_bit_or or.left_neutral)
  then show "(k_sunrpc_rm_last_frag OR w) AND k_sunrpc_rm_frag_len_mask = w"
    unfolding m by (simp add: take_bit_eq_mask)
  have "(k_sunrpc_rm_last_frag OR w) AND k_sunrpc_rm_last_frag = k_sunrpc_rm_last_frag"
    by (rule bit_word_eqI) (auto simp: bit_simps)
  then show "(k_sunrpc_rm_last_frag OR w) AND k_sunrpc_rm_last_frag \<noteq> 0" by (simp add: k_sunrpc_rm_last_frag_def)
qed

lemma parse_call:
  assumes m: "probe_read m rpc (unat n) = Some (rpc_call xid prog vers proc (xdr_auth f1 b1 @ xdr_auth f2 b2 @ args))"
    and n: "unat n < 2 ^ 31" and f: "sunrpc_valid_auth_flavor f1" "sunrpc_valid_auth_flavor f2"
  shows "sunrpc_parse_call_msg m rpc n \<longleftrightarrow> sunrpc_valid_program prog \<and> vers \<noteq> 0 \<and> proc \<le> 0xffff"
proof -
  let ?auth = "xdr_auth f1 b1 @ xdr_auth f2 b2 @ args"
  define h where "h = be_bytes32 xid @ be_bytes32 0 @ be_bytes32 2 @ be_bytes32 prog @ be_bytes32 vers @ be_bytes32 proc"
  have lh: "length h = 24" by (simp add: h_def)
  have m': "probe_read m rpc (unat n) = Some (h @ ?auth)" using m by (simp add: rpc_call_def h_def)
  have ln: "32 \<le> unat n" using probe_read_length[OF m'] lh by (simp add: xdr_auth_def)
  have rd: "sunrpc_read_u32_be m (rpc + 4) = 0" "sunrpc_read_u32_be m (rpc + 8) = 2" "sunrpc_read_u32_be m (rpc + 12) = prog"
    "sunrpc_read_u32_be m (rpc + 16) = vers" "sunrpc_read_u32_be m (rpc + 20) = proc"
    using read_be[of m rpc "unat n" "be_bytes32 xid" 0 "be_bytes32 2 @ be_bytes32 prog @ be_bytes32 vers @ be_bytes32 proc @ ?auth" 4]
      read_be[of m rpc "unat n" "be_bytes32 xid @ be_bytes32 0" 2 "be_bytes32 prog @ be_bytes32 vers @ be_bytes32 proc @ ?auth" 8]
      read_be[of m rpc "unat n" "be_bytes32 xid @ be_bytes32 0 @ be_bytes32 2" prog "be_bytes32 vers @ be_bytes32 proc @ ?auth" 12]
      read_be[of m rpc "unat n" "be_bytes32 xid @ be_bytes32 0 @ be_bytes32 2 @ be_bytes32 prog" vers "be_bytes32 proc @ ?auth" 16]
      read_be[of m rpc "unat n" "be_bytes32 xid @ be_bytes32 0 @ be_bytes32 2 @ be_bytes32 prog @ be_bytes32 vers" proc "?auth" 20] m'
    by (simp_all add: h_def)
  have u24: "unat (24 :: u32) = length h" using lh by simp
  obtain o1 where o1: "sunrpc_skip_opaque_auth m rpc n 24 = Some o1" "unat o1 = length (h @ xdr_auth f1 b1)"
    using skip_auth[OF m' u24 n f(1)] by blast
  have m2: "probe_read m rpc (unat n) = Some ((h @ xdr_auth f1 b1) @ xdr_auth f2 b2 @ args)" using m' by simp
  obtain o2 where o2: "sunrpc_skip_opaque_auth m rpc n o1 = Some o2" using skip_auth[OF m2 o1(2) n f(2)] by blast
  show ?thesis using ln rd o1(1) o2
    by (auto simp: sunrpc_parse_call_msg_def sunrpc_consts word_less_nat_alt word_le_nat_alt Let_def)
qed

text \<open>
  C31: A Sun RPC call that starts a segment of an unclassified connection, with well-formed credentials
  and verifier of known flavours and any arguments, whole and at most a mebibyte long, is accepted
  exactly when its program number is in an assigned range, its version is not zero and its procedure
  number is at most 65535; whatever follows the record does not matter.
\<close>

theorem sunrpc_call_recognised:
  assumes "msg = rpc_call xid prog vers proc (xdr_auth f1 b1 @ xdr_auth f2 b2 @ args)" "length msg \<le> 2 ^ 20"
    and m: "probe_read m data (unat n) = Some (rpc_record msg @ extra)"
    and f: "sunrpc_valid_auth_flavor f1" "sunrpc_valid_auth_flavor f2"
  shows "is_sunrpc conn m data n k_protocol_type_unknown st =
    (if sunrpc_valid_program prog \<and> vers \<noteq> 0 \<and> proc \<le> 0xffff
     then (True, k_protocol_type_sunrpc, st\<lparr>protocol_cache := (protocol_cache st)(conn \<mapsto> k_protocol_type_sunrpc)\<rparr>)
     else (False, k_protocol_type_unknown, st))"
proof -
  define w :: u32 where "w = of_nat (length msg)"
  have lm: "32 \<le> length msg" using assms(1) by (simp add: rpc_call_def xdr_auth_def)
  have uw: "unat w = length msg" using assms(2) by (simp add: w_def unat_of_nat)
  then have w: "unat w < 2 ^ 31" using assms(2) by simp
  have rec: "rpc_record msg = be_bytes32 (k_sunrpc_rm_last_frag OR w) @ msg" by (simp add: rpc_record_def w_def)
  have ln: "unat n = 4 + length msg + length extra" using probe_read_length[OF m] by (simp add: rec)
  have rm: "sunrpc_read_u32_be m data = k_sunrpc_rm_last_frag OR w"
    using read_be[of m data "unat n" "[]" "k_sunrpc_rm_last_frag OR w" "msg @ extra" 0] m by (simp add: rec)
  have mm: "probe_read m (data + 4) (unat w) = Some msg"
    using probe_read_sub[OF m, of 4 "unat w"] ln by (simp add: rec uw)
  have ty: "sunrpc_read_u32_be m (data + 4 + 4) = 0"
    using read_be[of m "data + 4" "unat w" "be_bytes32 xid" 0] mm by (simp add: assms(1) rpc_call_def)
  have le: "\<not> n < 4 + w" using ln uw w by (simp add: word_less_nat_alt unat_word_ariths)
  have "sunrpc_record_looks_valid m data n \<longleftrightarrow> sunrpc_parse_call_msg m (data + 4) w"
    using record_mark[OF w] le lm assms(2) uw ln ty
    by (simp add: sunrpc_record_looks_valid_def Let_def rm word_less_nat_alt[of n 4] k_sunrpc_msg_call_def
        word_less_nat_alt[of w] word_less_nat_alt[of _ w] k_sunrpc_min_record_def k_sunrpc_max_record_def)
  then show ?thesis using parse_call[OF mm[unfolded assms(1)] w f] by (auto simp: is_sunrpc_def)
qed

definition sample_call :: bytes where
  "sample_call = rpc_call 1 100003 3 1 (xdr_auth 0 [] @ xdr_auth 0 [] @ [7, 7, 7, 7])"

theorem sunrpc_call_recognised_witness:
  "fst (is_sunrpc sample_conn (mem_of 0 (rpc_record sample_call)) 0 (of_nat (length (rpc_record sample_call)))
     k_protocol_type_unknown empty_proto)"
proof -
  have l: "length sample_call = 44" by (simp add: sample_call_def rpc_call_def xdr_auth_def xdr_pad_def)
  then have lr: "length (rpc_record sample_call) = 48" by (simp add: rpc_record_def)
  have u: "unat (of_nat (length (rpc_record sample_call)) :: u32) = 48" by (simp add: lr)
  have m: "probe_read (mem_of 0 (rpc_record sample_call)) 0 (unat (of_nat (length (rpc_record sample_call)) :: u32))
      = Some (rpc_record sample_call @ [])"
    using probe_read_mem_of[of 0 48 "rpc_record sample_call" 0] unfolding u by (simp add: lr)
  have f: "sunrpc_valid_auth_flavor 0" by (simp add: sunrpc_valid_auth_flavor_def sunrpc_flavors)
  have p: "sunrpc_valid_program 100003" by (simp add: sunrpc_valid_program_def)
  show ?thesis
    using sunrpc_call_recognised[OF sample_call_def _ m f f, of sample_conn empty_proto] l p by simp
qed

end
