(* ===== verification/Tcp_Requests.thy ===== *)
theory Tcp_Requests
  imports Trace_Lifecycle Rpc_Protocols
begin

section \<open>TCP requests of any protocol\<close>

text \<open>
  Models \<open>bpf/generictracer/protocol_tcp.h\<close>, \<open>bpf/generictracer/tcp_trace_cleanup.h\<close>,
  \<open>bpf/generictracer/failed_connect.h\<close>, the TCP classification of
  \<open>bpf/generictracer/protocol_handler.c\<close> and the cached protocol type of
  \<open>bpf/generictracer/k_tracer_defs.h\<close>: how the packets of a connection become one request record
  with its trace context, when the record is sent to user space, and how its payload is captured.
  The record in the map is updated in place through the pointer of its lookup; the model writes it
  back to the map.
\<close>

subsection \<open>State and environment\<close>

text \<open>\<open>tw_tp_info\<close> is the per-CPU scratch context and \<open>tw_req_mem\<close> says whether the scratch record is there.\<close>

record tcp_world =
  tw_traces :: trace_maps
  tw_proto :: proto_maps
  ongoing_tcp_req :: "pid_connection_info \<rightharpoonup> tcp_req"
  tw_tp_info :: "tp_info_pid option"
  tw_req_mem :: bool

record tcp_env =
  tv_trace :: trace_env
  tv_cfg :: trace_cfg
  tv_rt :: runtime_maps
  tv_ring :: ring_env
  tv_cap :: capture_cfg
  tv_mem :: "large_buf_read_mode \<Rightarrow> mem"
  listening_ports :: listening_ports
  tv_netns :: u32

text \<open>Operations of one part of the state.\<close>

definition on_traces :: "(trace_maps \<Rightarrow> 'a \<times> trace_maps) \<Rightarrow> tcp_world \<Rightarrow> 'a \<times> tcp_world" where
  "on_traces f w = (case f (tw_traces w) of (x, t) \<Rightarrow> (x, w\<lparr>tw_traces := t\<rparr>))"

definition on_ring :: "(obi_event ring_buf \<Rightarrow> 'a \<times> obi_event ring_buf) \<Rightarrow> tcp_world \<Rightarrow> 'a \<times> tcp_world" where
  "on_ring f w = (case f (pm_ring (tw_proto w)) of
     (x, rg) \<Rightarrow> (x, w\<lparr>tw_proto := (tw_proto w)\<lparr>pm_ring := rg\<rparr>\<rparr>))"

definition now :: "tcp_env \<Rightarrow> tcp_world \<Rightarrow> u64 \<times> tcp_world" where
  "now v = on_traces (read_clock (tv_trace v))"

definition zero_tp :: tp_info where
  "zero_tp = \<lparr>tp_trace_id = replicate 16 0, tp_span_id = replicate 8 0, tp_parent_id = replicate 8 0, tp_ts = 0, tp_flags = 0\<rparr>"

definition zero_conn :: connection_info where
  "zero_conn = \<lparr>s_addr = replicate 16 0, d_addr = replicate 16 0, s_port = 0, d_port = 0\<rparr>"

definition zero_tcp_req :: tcp_req where
  "zero_tcp_req = \<lparr>tr_flags = 0, tr_ssl = 0, tr_direction = 0, tr_has_large_buffers = False,
     tr_protocol_type = k_protocol_type_unknown, tr_is_server = False, tr_parent_status = k_parent_status_none,
     tr_conn_info = zero_conn, tr_len = 0, tr_start_monotime_ns = 0, tr_end_monotime_ns = 0, tr_extra_id = 0,
     tr_task_tid = 0, tr_req_len = 0, tr_resp_len = 0, tr_lb_req_bytes = 0, tr_lb_res_bytes = 0,
     tr_event_source = 0, tr_buf = replicate 256 0, tr_rbuf = replicate 128 0,
     tr_pid = \<lparr>pi_host_pid = 0, pi_user_pid = 0, pi_ns = 0\<rparr>, tr_tp = zero_tp\<rparr>"

text \<open>The size of a \<open>tcp_req_t\<close>.\<close>

definition sizeof_tcp_req :: u64 where "sizeof_tcp_req = 544"

definition empty_tcp_req :: "tcp_world \<Rightarrow> tcp_req option" where
  "empty_tcp_req w = (if tw_req_mem w then Some zero_tcp_req else None)"

subsection \<open>Contexts of a TCP request\<close>

definition set_tcp_trace_info ::
  "tcp_env \<Rightarrow> u32 \<Rightarrow> connection_info \<Rightarrow> u64 \<Rightarrow> tp_info \<Rightarrow> u32 \<Rightarrow> u8 \<Rightarrow> u16 \<Rightarrow> tcp_world \<Rightarrow> tcp_world" where
  "set_tcp_trace_info v type conn lw_thread tp pid ssl orig_dport w =
     (case tw_tp_info w of
        None \<Rightarrow> w
      | Some tp_p \<Rightarrow>
          let tp_p = tp_p\<lparr>tpp_tp := tp, tpp_valid := 1, tpp_pid := pid, tpp_req_type := k_event_type_tcp_request\<rparr>;
              t = set_trace_info_for_connection conn type tp_p (tw_traces w);
              (tp_p, t) = server_or_client_trace (tv_trace v) (tv_cfg v) (tv_rt v) (ucast type) conn lw_thread tp_p ssl
                orig_dport 0 BPF_ANY t
          in w\<lparr>tw_traces := t, tw_tp_info := Some tp_p\<rparr>)"

definition tcp_get_client_trace_info ::
  "tcp_env \<Rightarrow> pid_connection_info \<Rightarrow> u64 \<Rightarrow> u16 \<Rightarrow> tcp_req \<Rightarrow> trace_maps \<Rightarrow> tcp_req \<times> trace_maps" where
  "tcp_get_client_trace_info v pid_conn lw_thread orig_dport req t =
     (let (found, tp, t) = find_trace_for_client_request (tv_trace v) (tv_cfg v) (tv_rt v) pid_conn orig_dport
            lw_thread (tr_tp req) t;
          req = req\<lparr>tr_tp := tp, tr_parent_status := found\<rparr>
      in if found \<noteq> k_parent_status_none
         then (case read_urand (tv_trace v) SPAN_ID_SIZE_BYTES t of
                 (span, t) \<Rightarrow> (req\<lparr>tr_tp := (tr_tp req)\<lparr>tp_span_id := span\<rparr>\<rparr>, t))
         else (case init_new_trace (tv_trace v) (tv_rt v) (tr_tp req) t of (tp, t) \<Rightarrow> (req\<lparr>tr_tp := tp\<rparr>, t)))"

definition tcp_get_or_set_trace_info ::
  "tcp_env \<Rightarrow> pid_connection_info \<Rightarrow> u64 \<Rightarrow> u8 \<Rightarrow> u16 \<Rightarrow> tcp_req \<Rightarrow> tcp_world \<Rightarrow> tcp_req \<times> tcp_world" where
  "tcp_get_or_set_trace_info v pid_conn lw_thread ssl orig_dport req w =
     (if tr_direction req = TCP_SEND
      then let (req, w) = on_traces (tcp_get_client_trace_info v pid_conn lw_thread orig_dport req) w
           in (req, set_tcp_trace_info v TRACE_TYPE_CLIENT (pc_conn pid_conn) lw_thread (tr_tp req) (pc_pid pid_conn)
                 ssl orig_dport w)
      else let (found, tp, t) = find_trace_for_server_request (tv_cfg v) (pc_conn pid_conn) (tr_tp req)
                 k_event_type_tcp_request (tw_traces w);
               (tp, t) = (if found
                  then (case read_urand (tv_trace v) SPAN_ID_SIZE_BYTES t of
                          (span, t) \<Rightarrow> (sample_remote_child (tv_trace v) (tv_rt v) (tp\<lparr>tp_span_id := span\<rparr>), t))
                  else init_new_trace (tv_trace v) (tv_rt v) tp t);
               req = req\<lparr>tr_tp := tp\<rparr>
           in (req, set_tcp_trace_info v TRACE_TYPE_SERVER (pc_conn pid_conn) lw_thread (tr_tp req) (pc_pid pid_conn)
                 ssl orig_dport (w\<lparr>tw_traces := t\<rparr>)))"

definition cleanup_trace_info :: "tcp_env \<Rightarrow> tcp_req \<Rightarrow> pid_connection_info \<Rightarrow> trace_maps \<Rightarrow> trace_maps" where
  "cleanup_trace_info v tcp pid_conn t =
     (if tr_direction tcp = TCP_RECV
      then let p_key = task_tid (en_task (tv_trace v));
               p_key = (if tr_task_tid tcp \<noteq> 0 then p_key\<lparr>pk_tid := tr_task_tid tcp\<rparr> else p_key)
           in delete_server_trace (tv_trace v) (tv_cfg v) pid_conn \<lparr>trk_extra_id = tr_extra_id tcp, trk_p_key = p_key\<rparr> t
      else delete_client_trace_info (tv_trace v) (tv_cfg v) (tv_rt v) pid_conn t)"

definition cleanup_tcp_trace_info_if_needed :: "tcp_env \<Rightarrow> pid_connection_info \<Rightarrow> tcp_world \<Rightarrow> tcp_world" where
  "cleanup_tcp_trace_info_if_needed v pid_conn w =
     (case ongoing_tcp_req w pid_conn of
        None \<Rightarrow> w
      | Some x \<Rightarrow> (if tr_direction x = TCP_RECV
          then w\<lparr>tw_traces := cleanup_trace_info v x pid_conn (tw_traces w)\<rparr> else w))"

definition already_tracked_tcp :: "tcp_world \<Rightarrow> pid_connection_info \<Rightarrow> bool" where
  "already_tracked_tcp w p_conn \<longleftrightarrow> ongoing_tcp_req w p_conn \<noteq> None"

definition finish_ongoing_tcp_req :: "tcp_env \<Rightarrow> pid_connection_info \<Rightarrow> tcp_world \<Rightarrow> tcp_world" where
  "finish_ongoing_tcp_req v pid_conn w =
     (case ongoing_tcp_req w pid_conn of
        None \<Rightarrow> w
      | Some x \<Rightarrow>
          let (x, w) = (if tr_end_monotime_ns x = 0 \<and> tr_protocol_type x = k_protocol_type_unknown
                then let (t, w) = now v w;
                         x = x\<lparr>tr_end_monotime_ns := t, tr_resp_len := 0\<rparr>;
                         (_, w) = on_ring (events_ringbuf_output (tv_ring v) (TcpEvent x) sizeof_tcp_req) w
                     in (x, w)
                else (x, w));
              w = w\<lparr>tw_traces := cleanup_trace_info v x pid_conn (tw_traces w)\<rparr>
          in w\<lparr>ongoing_tcp_req := map_del pid_conn (ongoing_tcp_req w)\<rparr>)"

subsection \<open>Payload capture\<close>

definition unknown_send_large_buffer ::
  "ring_env \<Rightarrow> capture_cfg \<Rightarrow> (large_buf_read_mode \<Rightarrow> mem) \<Rightarrow> pid_connection_info \<Rightarrow> nat \<Rightarrow> u32 \<Rightarrow> u8 \<Rightarrow> u8
   \<Rightarrow> large_buf_action \<Rightarrow> tcp_req \<Rightarrow> proto_maps \<Rightarrow> tcp_req \<times> proto_maps" where
  "unknown_send_large_buffer re cfg ms pid_conn u_buf bytes_len packet_type direction action req st =
     (case tcp_large_buffers st of
        None \<Rightarrow> (req, st)
      | Some lb \<Rightarrow>
          let lb = fill_large_buffer req (pc_conn pid_conn) packet_type direction action k_large_buf_layer_wire lb;
              max_available = bpf_clamp_umax (tcp_max_captured_bytes cfg - bytes_sent packet_type req)
                k_large_buf_max_tcp_captured_bytes;
              (c, st) = emit_from_scratch re ms lb u_buf (min bytes_len max_available) st
          in (add_consumed packet_type c req, st))"

fun tcp_send_large_buffer ::
  "ring_env \<Rightarrow> capture_cfg \<Rightarrow> (large_buf_read_mode \<Rightarrow> mem) \<Rightarrow> pid_connection_info \<Rightarrow> nat \<Rightarrow> u32 \<Rightarrow> u8
   \<Rightarrow> protocol_type \<Rightarrow> large_buf_action \<Rightarrow> tcp_req \<Rightarrow> proto_maps \<Rightarrow> int \<times> tcp_req \<times> proto_maps" where
  "tcp_send_large_buffer re cfg ms pid_conn u_buf n d k_protocol_type_mysql a req st =
     mysql_send_large_buffer re cfg ms pid_conn u_buf n (infer_packet_type d (tr_is_server req)) d a req st"
| "tcp_send_large_buffer re cfg ms pid_conn u_buf n d k_protocol_type_postgres a req st =
     postgres_send_large_buffer re cfg ms u_buf n (infer_packet_type d (tr_is_server req)) d a req st"
| "tcp_send_large_buffer re cfg ms pid_conn u_buf n d k_protocol_type_kafka a req st =
     kafka_send_large_buffer re cfg ms pid_conn u_buf n d a req st"
| "tcp_send_large_buffer re cfg ms pid_conn u_buf n d k_protocol_type_mssql a req st =
     (let packet_type = infer_packet_type d (tr_is_server req);
          (req, st) = mssql_send_large_buffer re cfg ms u_buf n packet_type d a req st
      in if packet_type = PACKET_TYPE_RESPONSE
         then (case mssql_response_eom (ms k_large_buf_read_kernel) u_buf n req of (v, req) \<Rightarrow> (v, req, st))
         else (0, req, st))"
| "tcp_send_large_buffer re cfg ms pid_conn u_buf n d k_protocol_type_aerospike a req st =
     aerospike_send_large_buffer re cfg ms pid_conn u_buf n (infer_packet_type d (tr_is_server req)) d a req st"
| "tcp_send_large_buffer re cfg ms pid_conn u_buf n d k_protocol_type_http a req st = (0, req, st)"
| "tcp_send_large_buffer re cfg ms pid_conn u_buf n d k_protocol_type_mqtt a req st = (0, req, st)"
| "tcp_send_large_buffer re cfg ms pid_conn u_buf n d k_protocol_type_sunrpc a req st =
     (0, unknown_send_large_buffer re cfg ms pid_conn u_buf n (infer_packet_type d (tr_is_server req)) d a req st)"
| "tcp_send_large_buffer re cfg ms pid_conn u_buf n d k_protocol_type_nats a req st =
     (0, unknown_send_large_buffer re cfg ms pid_conn u_buf n (infer_packet_type d (tr_is_server req)) d a req st)"
| "tcp_send_large_buffer re cfg ms pid_conn u_buf n d k_protocol_type_amqp a req st =
     (0, unknown_send_large_buffer re cfg ms pid_conn u_buf n (infer_packet_type d (tr_is_server req)) d a req st)"
| "tcp_send_large_buffer re cfg ms pid_conn u_buf n d k_protocol_type_unknown a req st =
     (0, unknown_send_large_buffer re cfg ms pid_conn u_buf n (infer_packet_type d (tr_is_server req)) d a req st)"

definition tcp_send :: "tcp_env \<Rightarrow> pid_connection_info \<Rightarrow> nat \<Rightarrow> u32 \<Rightarrow> u8 \<Rightarrow> protocol_type \<Rightarrow> large_buf_action \<Rightarrow> tcp_req
   \<Rightarrow> tcp_world \<Rightarrow> int \<times> tcp_req \<times> tcp_world" where
  "tcp_send v pid_conn u_buf n d pt a req w =
     (case tcp_send_large_buffer (tv_ring v) (tv_cap v) (tv_mem v) pid_conn u_buf n d pt a req (tw_proto w) of
        (r, req, st) \<Rightarrow> (r, req, w\<lparr>tw_proto := st\<rparr>))"

subsection \<open>Failed connections\<close>

definition init_failed_connect_tcp_req ::
  "pid_connection_info \<Rightarrow> u16 \<Rightarrow> u64 \<Rightarrow> u64 \<Rightarrow> u64 \<Rightarrow> pid_info \<Rightarrow> tcp_req" where
  "init_failed_connect_tcp_req pid_conn orig_dport connect_ts end_ts extra_id pid =
     zero_tcp_req\<lparr>tr_flags := k_event_type_failed_connect,
       tr_conn_info := fixup_connection_info (pc_conn pid_conn) TCP_SEND orig_dport,
       tr_ssl := 0, tr_direction := TCP_SEND, tr_start_monotime_ns := connect_ts, tr_end_monotime_ns := end_ts,
       tr_resp_len := 0, tr_len := 0, tr_req_len := 0, tr_extra_id := extra_id,
       tr_protocol_type := k_protocol_type_unknown, tr_pid := pid, tr_tp := zero_tp\<lparr>tp_ts := connect_ts\<rparr>\<rparr>"

definition failed_to_connect_event ::
  "tcp_env \<Rightarrow> pid_connection_info \<Rightarrow> u64 \<Rightarrow> u16 \<Rightarrow> u64 \<Rightarrow> tcp_world \<Rightarrow> tcp_world" where
  "failed_to_connect_event v pid_conn lw_thread orig_dport connect_ts w =
     (let (ok, w) = on_ring (events_ringbuf_reserve (tv_ring v)) w
      in if ok
         then let (event_ts, w) = now v w;
                  req = init_failed_connect_tcp_req pid_conn orig_dport connect_ts event_ts
                    (extra_runtime_id (tv_trace v) (tv_rt v)) (task_pid (en_task (tv_trace v)));
                  (req, w) = on_traces (tcp_get_client_trace_info v pid_conn lw_thread orig_dport req) w
              in snd (on_ring (\<lambda>rg. ((), bpf_ringbuf_submit (TcpEvent req) (get_flags (tv_ring v) rg) rg)) w)
         else w)"

subsection \<open>Packets of a connection\<close>

definition is_unix_sock_server :: "u8 \<Rightarrow> u16 \<Rightarrow> bool" where
  "is_unix_sock_server direction orig_dport \<longleftrightarrow> direction = TCP_RECV \<and> orig_dport = 0"

text \<open>Whether a first packet is left alone because the roles of the connection's ends do not fit it.\<close>

definition first_packet_ignored :: "tcp_env \<Rightarrow> pid_connection_info \<Rightarrow> u8 \<Rightarrow> u16 \<Rightarrow> bool \<Rightarrow> tcp_world \<Rightarrow> bool" where
  "first_packet_ignored v pid_conn direction orig_dport is_server w =
     (let part = (\<lambda>ty. populate_ephemeral_info empty_part (pc_conn pid_conn) orig_dport (pc_pid pid_conn) ty);
          known = (\<lambda>ty. fd_info_for_conn (fd_infos (tv_rt v)) (part ty) \<noteq> None)
      in if direction = TCP_RECV
         then (case cp_support_connect_info (tw_traces w) pid_conn of None \<Rightarrow> False | Some tk \<Rightarrow> cp_real_client tk \<noteq> 0)
              \<or> known FD_CLIENT \<or> (\<not> is_server \<and> \<not> known FD_SERVER)
         else known FD_SERVER)"

text \<open>The record of a request from its first packet, with its context and the first chunks sent.\<close>

definition start_tcp_req ::
  "tcp_env \<Rightarrow> pid_connection_info \<Rightarrow> nat \<Rightarrow> u32 \<Rightarrow> u8 \<Rightarrow> u8 \<Rightarrow> u16 \<Rightarrow> u64 \<Rightarrow> protocol_type \<Rightarrow> bool \<Rightarrow> tcp_req
   \<Rightarrow> tcp_world \<Rightarrow> tcp_world" where
  "start_tcp_req v pid_conn u_buf bytes_len direction ssl orig_dport lw_thread pt is_server req w =
     (let len = bpf_clamp_umax bytes_len k_tcp_max_len;
          (t0, w) = now v w;
          (_, req_task) = java_vt_translate_tid (tv_rt v) (task_tid (en_task (tv_trace v)));
          req = req\<lparr>tr_is_server := is_server, tr_flags := k_event_type_tcp_request,
            tr_conn_info := fixup_connection_info (pc_conn pid_conn) direction orig_dport,
            tr_ssl := ssl, tr_direction := direction, tr_start_monotime_ns := t0, tr_end_monotime_ns := 0,
            tr_resp_len := 0, tr_len := len, tr_event_source := event_source lw_thread, tr_req_len := bytes_len,
            tr_extra_id := extra_runtime_id (tv_trace v) (tv_rt v), tr_task_tid := pk_tid req_task,
            tr_protocol_type := pt, tr_pid := task_pid (en_task (tv_trace v)),
            tr_buf := probe_read_z (tv_mem v k_large_buf_read_kernel) u_buf (unat len) @ drop (unat len) (tr_buf req)\<rparr>;
          (t1, w) = now v w;
          req = req\<lparr>tr_tp := (tr_tp req)\<lparr>tp_ts := t1\<rparr>\<rparr>;
          (req, w) = tcp_get_or_set_trace_info v pid_conn lw_thread ssl orig_dport req w;
          (_, req, w) = tcp_send v pid_conn u_buf bytes_len direction pt k_large_buf_action_init req w
      in w\<lparr>ongoing_tcp_req := (ongoing_tcp_req w)(pid_conn \<mapsto> req)\<rparr>)"

text \<open>A packet against the direction of the request: its response.\<close>

definition tcp_response ::
  "tcp_env \<Rightarrow> pid_connection_info \<Rightarrow> nat \<Rightarrow> u32 \<Rightarrow> u8 \<Rightarrow> protocol_type \<Rightarrow> tcp_req \<Rightarrow> tcp_world \<Rightarrow> tcp_world" where
  "tcp_response v pid_conn u_buf bytes_len direction pt x w =
     (let (r, x, w) = tcp_send v pid_conn u_buf bytes_len direction pt (response_action x) x w
      in if r < 0 then w\<lparr>ongoing_tcp_req := (ongoing_tcp_req w)(pid_conn \<mapsto> x)\<rparr>
         else if tr_end_monotime_ns x = 0
         then let len = bpf_clamp_umax bytes_len k_tcp_res_len;
                  (t, w) = now v w;
                  x = x\<lparr>tr_end_monotime_ns := t, tr_resp_len := len\<rparr>;
                  w = w\<lparr>ongoing_tcp_req := (ongoing_tcp_req w)(pid_conn \<mapsto> x)\<rparr>;
                  (ok, w) = on_ring (events_ringbuf_reserve (tv_ring v)) w;
                  trace = x\<lparr>tr_rbuf := probe_read_z (tv_mem v k_large_buf_read_kernel) u_buf (unat len)
                             @ drop (unat len) (tr_rbuf x)\<rparr>;
                  w = (if ok then snd (on_ring (\<lambda>rg. ((), bpf_ringbuf_submit (TcpEvent trace)
                             (get_flags (tv_ring v) rg) rg)) w) else w)
              in w\<lparr>tw_traces := cleanup_trace_info v x pid_conn (tw_traces w)\<rparr>
         else w\<lparr>ongoing_tcp_req := (ongoing_tcp_req w)(pid_conn \<mapsto> x)\<rparr>)"

text \<open>One more packet of the request; a second read fills the upper half of the buffer.\<close>

definition tcp_more_request ::
  "tcp_env \<Rightarrow> pid_connection_info \<Rightarrow> nat \<Rightarrow> u32 \<Rightarrow> u8 \<Rightarrow> protocol_type \<Rightarrow> tcp_req \<Rightarrow> tcp_world \<Rightarrow> tcp_world" where
  "tcp_more_request v pid_conn u_buf bytes_len direction pt x w =
     (let half = k_tcp_max_len div 2;
          x = (if tr_len x > 0 \<and> tr_len x < half
               then let off = unat (bpf_clamp_umax (tr_len x) half)
                    in x\<lparr>tr_buf := take off (tr_buf x) @
                         probe_read_z (tv_mem v k_large_buf_read_kernel) u_buf (unat half) @ drop (off + unat half) (tr_buf x)\<rparr>
               else x);
          x = x\<lparr>tr_len := tr_len x + bytes_len\<rparr>;
          x = x\<lparr>tr_req_len := tr_len x\<rparr>;
          (_, x, w) = tcp_send v pid_conn u_buf bytes_len direction pt k_large_buf_action_append x w
      in w\<lparr>ongoing_tcp_req := (ongoing_tcp_req w)(pid_conn \<mapsto> x)\<rparr>)"

definition handle_unknown_tcp_connection ::
  "tcp_env \<Rightarrow> pid_connection_info \<Rightarrow> nat \<Rightarrow> u32 \<Rightarrow> u8 \<Rightarrow> u8 \<Rightarrow> u16 \<Rightarrow> u64 \<Rightarrow> protocol_type \<Rightarrow> tcp_world \<Rightarrow> tcp_world" where
  "handle_unknown_tcp_connection v pid_conn u_buf bytes_len direction ssl orig_dport lw_thread pt w =
     (let stale = (case ongoing_tcp_req w pid_conn of None \<Rightarrow> False
            | Some x \<Rightarrow> tr_direction x = direction \<and> tr_end_monotime_ns x \<noteq> 0);
          w = (if stale then w\<lparr>ongoing_tcp_req := map_del pid_conn (ongoing_tcp_req w)\<rparr> else w)
      in case ongoing_tcp_req w pid_conn of
           None \<Rightarrow>
             let local_port = (if d_port (pc_conn pid_conn) = orig_dport then s_port (pc_conn pid_conn)
                   else d_port (pc_conn pid_conn));
                 is_server = (is_listening (listening_ports v) local_port (tv_netns v) \<or>
                   is_unix_sock_server direction orig_dport)
             in if first_packet_ignored v pid_conn direction orig_dport is_server w then w
                else (case empty_tcp_req w of
                    None \<Rightarrow> w
                  | Some req \<Rightarrow> start_tcp_req v pid_conn u_buf bytes_len direction ssl orig_dport lw_thread pt is_server req w)
         | Some x \<Rightarrow>
             (if tr_direction x \<noteq> direction then tcp_response v pid_conn u_buf bytes_len direction pt x w
              else tcp_more_request v pid_conn u_buf bytes_len direction pt x w))"

subsection \<open>Classification of a packet\<close>

definition already_tracked_http :: "runtime_maps \<Rightarrow> pid_connection_info \<Rightarrow> bool" where
  "already_tracked_http rt p_conn \<longleftrightarrow>
     (case ongoing_http rt p_conn of None \<Rightarrow> False
      | Some http_info \<Rightarrow> \<not> (hi_delayed http_info \<noteq> 0 \<or> hi_submitted http_info \<noteq> 0))"

definition protocol_type_for_conn_info :: "runtime_maps \<Rightarrow> proto_maps \<Rightarrow> pid_connection_info \<Rightarrow> protocol_type" where
  "protocol_type_for_conn_info rt st info =
     (case protocol_cache st (pc_conn info) of
        None \<Rightarrow> (if already_tracked_http rt info then k_protocol_type_http else k_protocol_type_unknown)
      | Some pt \<Rightarrow> pt)"

text \<open>The classifiers in the order of the handler, each asked only when those before it declined.\<close>

type_synonym verdict = "bool \<times> protocol_type \<times> proto_maps"

definition or_else :: "verdict \<Rightarrow> (protocol_type \<Rightarrow> proto_maps \<Rightarrow> verdict) \<Rightarrow> verdict" where
  "or_else x next = (case x of (r, pt, st) \<Rightarrow> if r then (True, pt, st) else next pt st)"

definition detect_tcp_protocol ::
  "connection_info \<Rightarrow> mem \<Rightarrow> nat \<Rightarrow> u32 \<Rightarrow> u8 \<Rightarrow> protocol_type \<Rightarrow> proto_maps \<Rightarrow> verdict" where
  "detect_tcp_protocol conn m data n direction pt st =
     or_else (is_mysql conn m data n pt st) (\<lambda>pt st.
     or_else (is_postgres conn m data n pt st) (\<lambda>pt st.
     or_else (is_mssql conn m data n pt st) (\<lambda>pt st.
     or_else (is_kafka conn m data n pt direction st) (\<lambda>pt st.
     or_else (is_sunrpc conn m data n pt st) (\<lambda>pt st.
     is_aerospike conn m data n pt st)))))"

subsection \<open>The capture budget of a request\<close>

definition capture_limit :: "capture_cfg \<Rightarrow> protocol_type \<Rightarrow> u32" where
  "capture_limit cfg pt = (case pt of
       k_protocol_type_mysql \<Rightarrow> mysql_max_captured_bytes cfg
     | k_protocol_type_postgres \<Rightarrow> postgres_max_captured_bytes cfg
     | k_protocol_type_kafka \<Rightarrow> kafka_max_captured_bytes cfg
     | k_protocol_type_mssql \<Rightarrow> mssql_max_captured_bytes cfg
     | k_protocol_type_aerospike \<Rightarrow> aerospike_max_captured_bytes cfg
     | _ \<Rightarrow> tcp_max_captured_bytes cfg)"

lemma unknown_pays:
  assumes e: "unknown_send_large_buffer re cfg ms pc u_buf n packet_type d a r st = (r', st')"
    and le: "side_captured s r \<le> unat (tcp_max_captured_bytes cfg)"
  shows "paid (tcp_max_captured_bytes cfg) s r st r' st'"
proof (cases "tcp_large_buffers st")
  case None
  then show ?thesis using e paid_same[OF le] by (simp add: unknown_send_large_buffer_def)
next
  case (Some lb)
  obtain c st1 where x: "emit_from_scratch re ms (fill_large_buffer r (pc_conn pc) packet_type d a k_large_buf_layer_wire lb)
       u_buf (min n (bpf_clamp_umax (tcp_max_captured_bytes cfg - bytes_sent packet_type r)
       k_large_buf_max_tcp_captured_bytes)) st = (c, st1)" by (rule prod.exhaust)
  then have "r' = add_consumed packet_type c r" "st' = st1"
    using e Some by (simp_all add: unknown_send_large_buffer_def Let_def)
  then show ?thesis using paid_ship[OF x le] by simp
qed

lemma eom_captured: "mssql_response_eom m u n r = (v, r') \<Longrightarrow> side_captured s r' = side_captured s r"
  by (auto simp: mssql_response_eom_def Let_def side_captured_def split: prod.splits if_splits)

lemma tcp_send_pays:
  assumes e: "tcp_send_large_buffer re cfg ms pc u_buf n d pt a r st = (v, r', st')"
    and le: "side_captured s r \<le> unat (capture_limit cfg pt)"
  shows "paid (capture_limit cfg pt) s r st r' st'"
proof (cases pt)
  case k_protocol_type_mssql
  obtain r1 st1 where x: "mssql_send_large_buffer re cfg ms u_buf n (infer_packet_type d (tr_is_server r)) d a r st = (r1, st1)"
    by (rule prod.exhaust)
  have "paid (mssql_max_captured_bytes cfg) s r st r1 st1"
    using mssql_pays[OF x] le k_protocol_type_mssql by (simp add: capture_limit_def)
  moreover have "side_captured s r' = side_captured s r1" "st' = st1"
    using e x eom_captured k_protocol_type_mssql by (auto simp: Let_def split: if_splits prod.splits)
  ultimately show ?thesis using k_protocol_type_mssql by (simp add: paid_def capture_limit_def)
qed (use e le in \<open>auto simp: capture_limit_def intro: mysql_pays postgres_pays kafka_pays aerospike_pays unknown_pays paid_same\<close>)

interpretation tcp_budget: capture_budget
  "\<lambda>(ms, pc, u_buf, n, d, a) (r, st). snd (tcp_send_large_buffer re cfg ms pc u_buf n d pt a r st)"
  "unat (capture_limit cfg pt)"
  by unfold_locales (auto simp: paid_def dest!: snd_pairD tcp_send_pays split: prod.splits)

text \<open>
  C6: Over any sequence of packets of one request handled as one protocol, the payload bytes shipped
  for its request side and for its response side never exceed the configured limit of that
  protocol, whatever the packets hold and whichever records the ring buffer refuses; the record
  counts at least what was shipped.
\<close>

theorem tcp_capture_budget:
  assumes "tr_lb_req_bytes r = 0" and "tr_lb_res_bytes r = 0"
    and "fold (\<lambda>(ms, pc, u_buf, n, d, a) (r, st). snd (tcp_send_large_buffer re cfg ms pc u_buf n d pt a r st)) packets (r, st)
      = (r', st')"
  shows "\<exists>evs. shipped (pm_ring st') = shipped (pm_ring st) @ evs \<and>
    side_bytes s evs \<le> side_captured s r' \<and> side_captured s r' \<le> unat (capture_limit cfg pt)"
proof -
  have z: "side_captured s r = 0" using assms(1,2) by (simp add: side_captured_def)
  then show ?thesis using tcp_budget.run_pays[OF assms(3), of s] by auto
qed

theorem tcp_capture_budget_witness:
  "\<exists>r' st' evs. fold (\<lambda>(ms, pc, u_buf, n, d, a) (r, st). snd (tcp_send_large_buffer sample_ring_env sample_cfg ms pc
        u_buf n d k_protocol_type_unknown a r st))
      [((\<lambda>_. mem_of 0 [1, 2, 3]), sample_pc, 0, 3, TCP_SEND, k_large_buf_action_init)] (sample_tcp_req, empty_proto) = (r', st') \<and>
    shipped (pm_ring st') = evs \<and> side_bytes True evs \<le> 1024"
proof -
  obtain r' st' where f: "fold (\<lambda>(ms, pc, u_buf, n, d, a) (r, st). snd (tcp_send_large_buffer sample_ring_env sample_cfg ms pc
        u_buf n d k_protocol_type_unknown a r st))
      [((\<lambda>_. mem_of 0 [1, 2, 3]), sample_pc, 0, 3, TCP_SEND, k_large_buf_action_init)] (sample_tcp_req, empty_proto) = (r', st')"
    by (rule prod.exhaust)
  from tcp_capture_budget[OF _ _ f, of True] have "\<exists>evs. shipped (pm_ring st') = evs \<and> side_bytes True evs \<le> 1024"
    by (auto simp: sample_tcp_req_def empty_proto_def empty_ring_def shipped_def capture_limit_def sample_cfg_def)
  then show ?thesis using f by blast
qed

subsection \<open>Classification is stable\<close>

text \<open>
  What a classifier, or several asked one after another, may do: accept with a type of its own that
  agrees with the type handed in and is then cached, or decline and leave type and cache alone.
\<close>

definition lawful :: "protocol_type set \<Rightarrow> connection_info \<Rightarrow> protocol_type \<Rightarrow> proto_maps \<Rightarrow> verdict \<Rightarrow> bool" where
  "lawful owns conn pt st x = (case x of (r, pt', st') \<Rightarrow>
     if r then pt' \<in> owns \<and> pt \<in> {pt', k_protocol_type_unknown} \<and>
            (protocol_cache st' = (protocol_cache st)(conn \<mapsto> pt') \<or> pt = pt' \<and> protocol_cache st' = protocol_cache st)
     else pt' = pt \<and> protocol_cache st' = protocol_cache st)"

lemma lawful_or_else:
  assumes "lawful A conn pt st x" and "\<And>pt st. lawful B conn pt st (k pt st)"
  shows "lawful (A \<union> B) conn pt st (or_else x k)"
proof -
  obtain r pt1 st1 where x: "x = (r, pt1, st1)" by (rule prod_cases3)
  obtain r2 pt2 st2 where k: "k pt1 st1 = (r2, pt2, st2)" by (rule prod_cases3)
  have l: "lawful A conn pt st (r, pt1, st1)" "lawful B conn pt1 st1 (r2, pt2, st2)"
    using assms(1) assms(2)[of pt1 st1] x k by simp_all
  have o: "or_else x k = (if r then (True, pt1, st1) else (r2, pt2, st2))" by (simp add: or_else_def x k)
  show ?thesis unfolding o using l by (cases r) (auto simp: lawful_def split: if_splits)
qed

locale protocol_chain =
  fixes detect :: "'i \<Rightarrow> connection_info \<Rightarrow> protocol_type \<Rightarrow> proto_maps \<Rightarrow> verdict"
    and owns :: "protocol_type set"
  assumes verdict: "lawful owns conn pt st (detect i conn pt st)"
    and known: "k_protocol_type_unknown \<notin> owns"
begin

lemma accepted_cached:
  assumes "detect i conn pt st = (True, T, st')" and "pt \<in> owns \<longrightarrow> protocol_cache st conn = Some pt"
  shows "T \<in> owns \<and> protocol_cache st' conn = Some T"
  using verdict[of conn pt st i] assms known by (auto simp: lawful_def)

lemma keeps_type:
  assumes "detect i conn T st = (r, pt', st')" and "T \<noteq> k_protocol_type_unknown" and "protocol_cache st conn = Some T"
  shows "pt' = T \<and> protocol_cache st' conn = Some T"
  using verdict[of conn T st i] assms by (auto simp: lawful_def split: if_splits)

lemma keeps_others:
  assumes "detect i conn pt st = (r, pt', st')" and "c \<noteq> conn"
  shows "protocol_cache st' c = protocol_cache st c"
  using verdict[of conn pt st i] assms by (auto simp: lawful_def split: if_splits)

end

text \<open>A single classifier is a chain.\<close>

sublocale protocol_detector \<subseteq> chain: protocol_chain detect "{own}"
proof
  fix conn pt st i
  obtain r pt' st' where e: "detect i conn pt st = (r, pt', st')" by (rule prod_cases3)
  show "lawful {own} conn pt st (detect i conn pt st)"
    using e accepts[of i conn pt st pt' st'] rejects[of i conn pt st pt' st'] foreign[of pt i conn st]
    by (cases r) (auto simp: lawful_def)
next
  show "k_protocol_type_unknown \<notin> {own}" using known by simp
qed

definition tcp_protocols :: "protocol_type set" where
  "tcp_protocols = {k_protocol_type_mysql, k_protocol_type_postgres, k_protocol_type_mssql, k_protocol_type_kafka,
     k_protocol_type_sunrpc, k_protocol_type_aerospike}"

lemma detect_lawful: "lawful tcp_protocols conn pt st (detect_tcp_protocol conn m data n direction pt st)"
proof -
  have p: "tcp_protocols = {k_protocol_type_mysql} \<union> ({k_protocol_type_postgres} \<union> ({k_protocol_type_mssql} \<union>
    ({k_protocol_type_kafka} \<union> ({k_protocol_type_sunrpc} \<union> {k_protocol_type_aerospike}))))"
    by (auto simp: tcp_protocols_def)
  show ?thesis unfolding p detect_tcp_protocol_def
    using mysql.chain.verdict[of conn _ _ "(m, data, n)"] postgres.chain.verdict[of conn _ _ "(m, data, n)"]
      mssql.chain.verdict[of conn _ _ "(m, data, n)"] kafka.chain.verdict[of conn _ _ "(m, data, n, direction)"]
      sunrpc.chain.verdict[of conn _ _ "(m, data, n)"] aerospike.chain.verdict[of conn _ _ "(m, data, n)"]
    by (intro lawful_or_else) simp_all
qed

interpretation tcp: protocol_chain "\<lambda>(m, data, n, direction) conn. detect_tcp_protocol conn m data n direction" tcp_protocols
proof (unfold_locales, goal_cases)
  case (1 conn pt st i)
  show ?case by (cases i) (simp add: detect_lawful)
qed (simp add: tcp_protocols_def)

text \<open>A packet is classified starting from the type its connection is known by.\<close>

definition classify_packet ::
  "runtime_maps \<Rightarrow> pid_connection_info \<Rightarrow> mem \<Rightarrow> nat \<Rightarrow> u32 \<Rightarrow> u8 \<Rightarrow> proto_maps \<Rightarrow> verdict" where
  "classify_packet rt info m data n direction st =
     detect_tcp_protocol (pc_conn info) m data n direction (protocol_type_for_conn_info rt st info) st"

text \<open>
  Packets of any connections in any order, while the cache, which drops its least recently used entries
  when it is full, may drop any entry but that of \<open>conn\<close>. The list collects the verdicts on \<open>conn\<close>.
\<close>

inductive classify_run :: "connection_info \<Rightarrow> proto_maps \<Rightarrow> (bool \<times> protocol_type) list \<Rightarrow> proto_maps \<Rightarrow> bool" for conn where
  start: "classify_run conn st [] st"
| packet: "classify_run conn st vs st1 \<Longrightarrow> classify_packet rt info m data n direction st1 = (r, pt, st2) \<Longrightarrow>
    classify_run conn st (if pc_conn info = conn then vs @ [(r, pt)] else vs) st2"
| evict: "classify_run conn st vs st1 \<Longrightarrow> c \<noteq> conn \<Longrightarrow>
    classify_run conn st vs (st1\<lparr>protocol_cache := map_del c (protocol_cache st1)\<rparr>)"

lemma classify_run_keeps:
  assumes "classify_run conn st vs st'" and T: "T \<noteq> k_protocol_type_unknown" and "protocol_cache st conn = Some T"
  shows "protocol_cache st' conn = Some T \<and> snd ` set vs \<subseteq> {T}"
  using assms(1,3)
proof (induction rule: classify_run.induct)
  case (packet st vs st1 rt info m data n direction r pt st2)
  note c = packet.IH[OF packet.prems]
  note p = packet.hyps(2)[unfolded classify_packet_def]
  show ?case
  proof (cases "pc_conn info = conn")
    case True
    then have t: "protocol_type_for_conn_info rt st1 info = T" using c by (simp add: protocol_type_for_conn_info_def)
    show ?thesis using tcp.keeps_type[of "(m, data, n, direction)" conn T st1 r pt st2] p t c T True by auto
  next
    case False
    show ?thesis using tcp.keeps_others[of "(m, data, n, direction)" "pc_conn info" _ st1 r pt st2 conn] p c False by auto
  qed
qed (auto simp: map_del_apply)

text \<open>
  C19: Once a classifier has accepted a packet of a connection, the connection's type is settled: after
  any packets of this and other connections in any order and direction, as long as the cache does not
  drop its entry, the cache still holds that type and no packet of the connection was given another.
\<close>

theorem classification_stable:
  assumes "classify_packet rt info m data n direction st = (True, T, st1)" and "classify_run (pc_conn info) st1 vs st2"
  shows "T \<in> tcp_protocols \<and> protocol_cache st2 (pc_conn info) = Some T \<and> (\<forall>(r, pt) \<in> set vs. pt = T)"
proof -
  define p where "p = protocol_type_for_conn_info rt st info"
  have "p \<in> tcp_protocols \<longrightarrow> protocol_cache st (pc_conn info) = Some p"
    by (auto simp: p_def protocol_type_for_conn_info_def tcp_protocols_def split: option.splits if_splits)
  then have a: "T \<in> tcp_protocols \<and> protocol_cache st1 (pc_conn info) = Some T"
    using tcp.accepted_cached[of "(m, data, n, direction)" "pc_conn info" p st T st1]
      assms(1)[unfolded classify_packet_def, folded p_def] by simp
  then have "T \<noteq> k_protocol_type_unknown" using tcp.known by auto
  then show ?thesis using a classify_run_keeps[OF assms(2), of T] by (auto simp: image_subset_iff)
qed

text \<open>A connection known to be MSSQL, with one more batch of its own and a packet of another connection after that.\<close>

definition mssql_known_proto :: proto_maps where
  "mssql_known_proto = empty_proto\<lparr>protocol_cache := [pc_conn sample_pc \<mapsto> k_protocol_type_mssql]\<rparr>"

lemma sample_batch_accepted:
  "classify_packet empty_runtime sample_pc (mem_of 0 [1, 1, 0, 9, 0, 0, 0, 0, 65]) 0 9 TCP_SEND mssql_known_proto
     = (True, k_protocol_type_mssql, mssql_known_proto)"
proof -
  let ?b = "[1, 1, 0, 9, 0, 0, 0, 0, 65] :: bytes"
  let ?m = "mem_of 0 ?b"
  have t: "protocol_type_for_conn_info empty_runtime mssql_known_proto sample_pc = k_protocol_type_mssql"
    by (simp add: protocol_type_for_conn_info_def mssql_known_proto_def)
  have r: "probe_read ?m 0 (unat (9 :: u64)) = Some ?b" using probe_read_mem_of[of 0 9 ?b 0] by simp
  have "tds_tiles 10 False ?b"
    by (auto simp: tds_tiles_def tds_packet_def be_nat_def mssql_known_type_def k_mssql_msg_sql_batch_def
        intro!: exI[of _ "[?b]"])
  then obtain k where s: "mssql_scan ?m 0 9 10 0 False = Some (9, k)" "k"
    using mssql_scan_spec[OF r, of 0 10 False] by (auto split: option.splits)
  have u: "mssql_known_proto\<lparr>protocol_cache := (protocol_cache mssql_known_proto)(pc_conn sample_pc \<mapsto> k_protocol_type_mssql)\<rparr>
      = mssql_known_proto" by (simp add: mssql_known_proto_def)
  have a: "is_mssql (pc_conn sample_pc) ?m 0 9 k_protocol_type_mssql mssql_known_proto = (True, k_protocol_type_mssql, mssql_known_proto)"
    unfolding is_mssql_def u using s by (simp add: k_mssql_hdr_size_def k_mssql_messages_in_packet_max_def)
  show ?thesis
    using a mysql.foreign[of k_protocol_type_mssql "(?m, 0, 9)" "pc_conn sample_pc" mssql_known_proto]
      postgres.foreign[of k_protocol_type_mssql "(?m, 0, 9)" "pc_conn sample_pc" mssql_known_proto]
    by (simp add: classify_packet_def t detect_tcp_protocol_def or_else_def)
qed

theorem classification_stable_witness:
  "\<exists>r pt st. classify_packet empty_runtime sample_pc (mem_of 0 [7]) 0 1 TCP_RECV mssql_known_proto = (r, pt, st) \<and>
     pt = k_protocol_type_mssql \<and> protocol_cache st (pc_conn sample_pc) = Some k_protocol_type_mssql"
proof -
  obtain r pt st where p: "classify_packet empty_runtime sample_pc (mem_of 0 [7]) 0 1 TCP_RECV mssql_known_proto = (r, pt, st)"
    by (rule prod_cases3)
  have "classify_run (pc_conn sample_pc) mssql_known_proto [(r, pt)] st"
    using classify_run.packet[OF classify_run.start[of _ mssql_known_proto] p, of "pc_conn sample_pc"] by simp
  from classification_stable[OF sample_batch_accepted this] p show ?thesis by auto
qed

subsection \<open>Senders ship payload only\<close>

definition payload_only :: "obi_event ring_buf \<Rightarrow> obi_event ring_buf \<Rightarrow> bool" where
  "payload_only rg rg' \<longleftrightarrow> (\<exists>evs. shipped rg' = shipped rg @ evs \<and> (\<forall>e \<in> set evs. \<exists>lb. e = LargeBufferEvent lb))"

lemma payload_refl [simp]: "payload_only rg rg"
  by (simp add: payload_only_def)

lemma payload_trans: "payload_only a b \<Longrightarrow> payload_only b c \<Longrightarrow> payload_only a c"
  by (auto simp: payload_only_def)

lemma emit_payload: "payload_only (pm_ring st) (pm_ring (snd (emit_from_scratch re ms lb u_buf avail st)))"
proof -
  obtain c lb' rg' where e: "large_buf_emit_chunks re ms lb u_buf avail k_large_buf_read_kernel (pm_ring st) = (c, lb', rg')"
    by (rule prod_cases3)
  obtain evs where evs: "shipped rg' = shipped (pm_ring st) @ evs"
    "\<forall>i < length evs. chunk_of lb (if i = 0 then lb_action lb else k_large_buf_action_append) (evs ! i)"
    using emit_spec[OF e] by blast
  have "\<exists>x. ev = LargeBufferEvent x" if ev: "ev \<in> set evs" for ev
  proof -
    obtain i where "i < length evs" "ev = evs ! i" using ev by (auto simp: in_set_conv_nth)
    with evs(2) have "chunk_of lb (if i = 0 then lb_action lb else k_large_buf_action_append) ev" by blast
    then show ?thesis by (cases ev) auto
  qed
  then show ?thesis using evs(1) e by (auto simp: payload_only_def emit_from_scratch_def)
qed

lemma prefix_payload: "payload_only (pm_ring st) (pm_ring (snd (ship_prefix re pfx lb st)))"
proof -
  obtain lb1 st1 where p: "ship_prefix re pfx lb st = (lb1, st1)" by (rule prod.exhaust)
  define lb0 where "lb0 = lb\<lparr>lb_buf := pfx @ drop (length pfx) (lb_buf lb), lb_len := 4\<rparr>"
  define ev where "ev = LargeBufferEvent (lb0\<lparr>lb_buf := take (unat sizeof_ptr) (lb_buf lb0)\<rparr>)"
  obtain ok rg where o: "events_ringbuf_output re ev (ucast (sizeof_tcp_large_buffer + sizeof_ptr)) (pm_ring st) = (ok, rg)"
    by (rule prod.exhaust)
  have "pm_ring st1 = rg" using p o by (auto simp: ship_prefix_def Let_def lb0_def ev_def)
  then show ?thesis using output_cases[OF o] p by (auto simp: payload_only_def ev_def)
qed

lemma payload_emit: "payload_only rg (pm_ring st) \<Longrightarrow> payload_only rg (pm_ring (snd (emit_from_scratch re ms lb u_buf avail st)))"
  using emit_payload payload_trans by blast

lemma payload_prefix: "payload_only rg (pm_ring st) \<Longrightarrow> payload_only rg (pm_ring (snd (ship_prefix re pfx lb st)))"
  using prefix_payload payload_trans by blast

text \<open>A sender leaves alone what identifies the request and says whether it is finished.\<close>

definition same_request :: "tcp_req \<Rightarrow> tcp_req \<Rightarrow> bool" where
  "same_request r r' \<longleftrightarrow> tr_end_monotime_ns r' = tr_end_monotime_ns r \<and> tr_direction r' = tr_direction r \<and>
     tr_start_monotime_ns r' = tr_start_monotime_ns r \<and> tr_protocol_type r' = tr_protocol_type r \<and> tr_tp r' = tr_tp r"

lemma same_request_refl [simp]: "same_request r r"
  by (simp add: same_request_def)

lemma same_request_consumed [simp]: "same_request r (add_consumed packet_type c r)"
  by (simp add: same_request_def add_consumed_def Let_def)

definition ships_payload :: "tcp_req \<Rightarrow> proto_maps \<Rightarrow> tcp_req \<times> proto_maps \<Rightarrow> bool" where
  "ships_payload r st x \<longleftrightarrow> same_request r (fst x) \<and> payload_only (pm_ring st) (pm_ring (snd x))"

lemma postgres_payload:
  "ships_payload r st (snd (postgres_send_large_buffer re cfg ms u_buf n packet_type d a r st))"
  by (simp add: postgres_send_large_buffer_def ships_payload_def Let_def case_prod_beta payload_emit split: option.splits)

lemma mssql_payload:
  "ships_payload r st (mssql_send_large_buffer re cfg ms u_buf n packet_type d a r st)"
  by (simp add: mssql_send_large_buffer_def ships_payload_def Let_def case_prod_beta payload_emit split: option.splits)

lemma mysql_store_ring_snd [simp]: "pm_ring (snd (mysql_store_state_data conn m u n st)) = pm_ring st"
  by (simp add: mysql_store_state_data_def Let_def)

lemma mysql_payload:
  "ships_payload r st (snd (mysql_send_large_buffer re cfg ms pc u_buf n packet_type d a r st))"
  by (simp add: mysql_send_large_buffer_def ships_payload_def Let_def case_prod_beta payload_emit payload_prefix split: option.splits)

lemma unknown_payload:
  "ships_payload r st (unknown_send_large_buffer re cfg ms pc u_buf n packet_type d a r st)"
  by (simp add: unknown_send_large_buffer_def ships_payload_def Let_def case_prod_beta payload_emit split: option.splits)

lemma kafka_rest_same [simp]: "same_request r (fst (snd (kafka_capture_rest re cfg ms conn u_buf n p t lb mx c r st)))"
  by (simp add: kafka_capture_rest_def Let_def case_prod_beta split: option.splits)

lemma kafka_rest_payload:
  "payload_only rg (pm_ring st) \<Longrightarrow> payload_only rg (pm_ring (snd (snd (kafka_capture_rest re cfg ms conn u_buf n p t lb mx c r st))))"
  by (simp add: kafka_capture_rest_def Let_def case_prod_beta payload_emit split: option.splits)

lemma kafka_store_ring_snd [simp]: "pm_ring (snd (kafka_store_state_data conn m u n d st)) = pm_ring st"
  by (simp add: kafka_store_state_data_def Let_def)

lemma kafka_payload:
  "ships_payload r st (snd (kafka_send_large_buffer re cfg ms pc u_buf n d a r st))"
  by (simp add: kafka_send_large_buffer_def ships_payload_def Let_def case_prod_beta kafka_rest_payload payload_prefix
      del: not_None_eq split: option.split)

lemma aerospike_emit_payload:
  "payload_only (pm_ring st) (pm_ring (snd (aerospike_emit_chunks re cfg ms r pc u_buf n packet_type d a sent st)))"
  by (simp add: aerospike_emit_chunks_def Let_def payload_emit split: option.splits)

lemma aerospike_payload:
  "ships_payload r st (snd (aerospike_send_large_buffer re cfg ms pc u_buf n packet_type d a r st))"
  by (simp add: aerospike_send_large_buffer_def ships_payload_def Let_def case_prod_beta aerospike_emit_payload
      del: not_None_eq split: option.split)

lemma eom_same_request [simp]: "same_request r0 (snd (mssql_response_eom m u n r)) = same_request r0 r"
  by (simp add: mssql_response_eom_def Let_def case_prod_beta same_request_def)

lemma tcp_send_payload:
  "ships_payload r st (snd (tcp_send_large_buffer re cfg ms pc u_buf n d pt a r st))"
proof (cases pt)
  case k_protocol_type_mssql
  then show ?thesis by (simp add: Let_def case_prod_beta ships_payload_def mssql_payload[unfolded ships_payload_def])
qed (simp_all add: mysql_payload postgres_payload kafka_payload aerospike_payload unknown_payload, simp_all add: ships_payload_def)

subsection \<open>Requests are reported once\<close>

fun tcp_report :: "obi_event \<Rightarrow> tcp_req list" where
  "tcp_report (TcpEvent r) = [r]"
| "tcp_report (LargeBufferEvent lb) = []"
| "tcp_report (HttpEvent i) = []"
| "tcp_report (Http2Event r) = []"

definition tcp_reports :: "tcp_world \<Rightarrow> tcp_req list" where
  "tcp_reports w = concat (map tcp_report (shipped (pm_ring (tw_proto w))))"

definition open_tcp :: "tcp_world \<Rightarrow> pid_connection_info set" where
  "open_tcp w = {pc. \<exists>r. ongoing_tcp_req w pc = Some r \<and> tr_end_monotime_ns r = 0}"

definition tcp_account :: "tcp_world \<Rightarrow> tcp_req list \<times> pid_connection_info set" where
  "tcp_account w = (tcp_reports w, open_tcp w)"

definition tcp_finished :: "tcp_req \<Rightarrow> bool" where
  "tcp_finished r \<longleftrightarrow> tr_end_monotime_ns r \<noteq> 0"

lemma payload_tcp_reports: "payload_only rg rg' \<Longrightarrow>
    concat (map tcp_report (shipped rg')) = concat (map tcp_report (shipped rg))"
proof -
  assume "payload_only rg rg'"
  then obtain evs where e: "shipped rg' = shipped rg @ evs" "\<forall>e \<in> set evs. \<exists>lb. e = LargeBufferEvent lb"
    by (auto simp: payload_only_def)
  then have "\<forall>e \<in> set evs. tcp_report e = []" by auto
  then show ?thesis by (simp add: e(1))
qed

lemma tcp_parts [simp]:
  "tcp_reports (snd (now v w)) = tcp_reports w" "ongoing_tcp_req (snd (now v w)) = ongoing_tcp_req w"
  "tcp_reports (snd (on_traces f w)) = tcp_reports w" "ongoing_tcp_req (snd (on_traces f w)) = ongoing_tcp_req w"
  "tcp_reports (w\<lparr>tw_traces := t\<rparr>) = tcp_reports w" "tcp_reports (w\<lparr>ongoing_tcp_req := m\<rparr>) = tcp_reports w"
  "ongoing_tcp_req (snd (on_ring g w)) = ongoing_tcp_req w"
  "tcp_reports (set_tcp_trace_info v ty conn lw tp pid ssl dp w) = tcp_reports w"
  "ongoing_tcp_req (set_tcp_trace_info v ty conn lw tp pid ssl dp w) = ongoing_tcp_req w"
  by (simp_all add: now_def on_traces_def on_ring_def tcp_reports_def set_tcp_trace_info_def Let_def case_prod_beta
      split: option.split)

lemma get_or_set_trace_parts [simp]:
  "tcp_reports (snd (tcp_get_or_set_trace_info v pc lw ssl dp r w)) = tcp_reports w"
  "ongoing_tcp_req (snd (tcp_get_or_set_trace_info v pc lw ssl dp r w)) = ongoing_tcp_req w"
  by (simp_all add: tcp_get_or_set_trace_info_def Let_def case_prod_beta)

lemma tcp_send_parts [simp]:
  "tcp_reports (snd (snd (tcp_send v pc u_buf n d pt a r w))) = tcp_reports w"
  "ongoing_tcp_req (snd (snd (tcp_send v pc u_buf n d pt a r w))) = ongoing_tcp_req w"
  "same_request r (fst (snd (tcp_send v pc u_buf n d pt a r w)))"
  using tcp_send_payload[of r "tw_proto w" "tv_ring v" "tv_cap v" "tv_mem v" pc u_buf n d pt a]
  by (simp_all add: tcp_send_def case_prod_beta tcp_reports_def ships_payload_def payload_tcp_reports)

text \<open>The clock is read when a request ends, and has been running since the machine started.\<close>

definition clock_runs :: "tcp_env \<Rightarrow> bool" where
  "clock_runs v \<longleftrightarrow> (\<forall>n. en_clock (tv_trace v) n \<noteq> 0)"

lemma clock_nonzero: "clock_runs v \<Longrightarrow> fst (now v w) \<noteq> 0"
  by (simp add: clock_runs_def now_def on_traces_def read_clock_def)

lemma open_tcp_put: "ongoing_tcp_req w' = (ongoing_tcp_req w)(pc \<mapsto> x) \<Longrightarrow>
    open_tcp w' = (if tr_end_monotime_ns x = 0 then insert pc (open_tcp w) else open_tcp w - {pc})"
  by (auto simp: open_tcp_def)

lemma open_tcp_del: "ongoing_tcp_req w' = map_del pc (ongoing_tcp_req w) \<Longrightarrow> open_tcp w' = open_tcp w - {pc}"
  by (auto simp: open_tcp_def map_del_def)

lemma open_tcp_same: "ongoing_tcp_req w' = ongoing_tcp_req w \<Longrightarrow> open_tcp w' = open_tcp w"
  by (simp add: open_tcp_def)

lemma reserve_reports [simp]: "tcp_reports (snd (on_ring (events_ringbuf_reserve re) w)) = tcp_reports w"
  by (simp add: on_ring_def tcp_reports_def events_ringbuf_reserve_def Let_def shipped_def case_prod_beta)

lemma submit_reports [simp]:
  "tcp_reports (snd (on_ring (\<lambda>rg. ((), bpf_ringbuf_submit (TcpEvent x) (fl rg) rg)) w)) = tcp_reports w @ [x]"
  by (simp add: on_ring_def tcp_reports_def bpf_ringbuf_submit_def shipped_def)

lemma output_reports: "\<exists>rs. tcp_reports (snd (on_ring (events_ringbuf_output re (TcpEvent x) sz) w)) = tcp_reports w @ rs \<and>
    (rs = [] \<or> rs = [x])"
proof -
  obtain ok rg where o: "events_ringbuf_output re (TcpEvent x) sz (pm_ring (tw_proto w)) = (ok, rg)" by (rule prod.exhaust)
  then show ?thesis using output_cases[OF o] by (auto simp: on_ring_def tcp_reports_def)
qed

lemma start_accounts:
  "accounts tcp_finished (Suc 0) (tcp_account w)
     (tcp_account (start_tcp_req v pc u_buf n d ssl dp lw pt srv req w))"
proof -
  define w' where "w' = start_tcp_req v pc u_buf n d ssl dp lw pt srv req w"
  have "\<exists>x. ongoing_tcp_req w' = (ongoing_tcp_req w)(pc \<mapsto> x)" and r: "tcp_reports w' = tcp_reports w"
    by (auto simp: w'_def start_tcp_req_def Let_def case_prod_beta)
  then have "open_tcp w' \<subseteq> insert pc (open_tcp w)" using open_tcp_put by (auto split: if_splits)
  then show ?thesis by (simp add: tcp_account_def r accounts_open w'_def[symmetric])
qed

lemma more_accounts:
  assumes "ongoing_tcp_req w pc = Some x"
  shows "tcp_account (tcp_more_request v pc u_buf n d pt x w) = tcp_account w"
proof -
  define w' where "w' = tcp_more_request v pc u_buf n d pt x w"
  obtain x' where u: "ongoing_tcp_req w' = (ongoing_tcp_req w)(pc \<mapsto> x')"
      and e: "tr_end_monotime_ns x' = tr_end_monotime_ns x" and r: "tcp_reports w' = tcp_reports w"
    using tcp_send_parts(3) by (fastforce simp: w'_def tcp_more_request_def Let_def case_prod_beta same_request_def)
  then show ?thesis using open_tcp_put[OF u] assms by (auto simp: tcp_account_def w'_def[symmetric] open_tcp_def)
qed

lemma response_accounts:
  assumes "ongoing_tcp_req w pc = Some x" and c: "clock_runs v"
  shows "accounts tcp_finished 0 (tcp_account w) (tcp_account (tcp_response v pc u_buf n d pt x w))"
proof -
  obtain r x' w1 where s: "tcp_send v pc u_buf n d pt (response_action x) x w = (r, x', w1)" by (rule prod_cases3)
  have p: "tcp_reports w1 = tcp_reports w" "ongoing_tcp_req w1 = ongoing_tcp_req w"
      "tr_end_monotime_ns x' = tr_end_monotime_ns x"
    using tcp_send_parts(1,2)[of v pc u_buf n d pt "response_action x" x w]
      tcp_send_parts(3)[of x v pc u_buf n d pt "response_action x" w] s by (simp_all add: same_request_def)
  define w' where "w' = tcp_response v pc u_buf n d pt x w"
  show ?thesis
  proof (cases "r < 0 \<or> tr_end_monotime_ns x \<noteq> 0")
    case True
    then have u: "ongoing_tcp_req w' = (ongoing_tcp_req w)(pc \<mapsto> x')" and "tcp_reports w' = tcp_reports w"
      using s p by (auto simp: w'_def tcp_response_def)
    then show ?thesis using open_tcp_put[OF u] p(3) assms(1)
      by (auto simp: tcp_account_def w'_def[symmetric] open_tcp_def insert_absorb)
  next
    case False
    obtain t w2 where n: "now v w1 = (t, w2)" by (rule prod.exhaust)
    have w2: "tcp_reports w2 = tcp_reports w" "ongoing_tcp_req w2 = ongoing_tcp_req w" "t \<noteq> 0"
      using tcp_parts(1,2)[of v w1] p n clock_nonzero[OF c, of w1] by simp_all
    define y where "y = x'\<lparr>tr_end_monotime_ns := t, tr_resp_len := bpf_clamp_umax n k_tcp_res_len\<rparr>"
    have u: "ongoing_tcp_req w' = (ongoing_tcp_req w)(pc \<mapsto> y)"
      and "\<exists>rs. tcp_reports w' = tcp_reports w @ rs \<and> length rs \<le> 1 \<and> (\<forall>z \<in> set rs. tcp_finished z)"
      using False s p(3) n w2 by (auto simp: w'_def tcp_response_def Let_def case_prod_beta y_def tcp_finished_def)
    then obtain rs where r: "tcp_reports w' = tcp_reports w @ rs" "length rs \<le> 1" "\<forall>z \<in> set rs. tcp_finished z" by blast
    have "pc \<in> open_tcp w" using False assms(1) by (simp add: open_tcp_def)
    moreover have "open_tcp w' = open_tcp w - {pc}" using open_tcp_put[OF u] w2(3) by (simp add: y_def)
    ultimately show ?thesis using accounts_close[OF _ r(3,2)] by (simp add: tcp_account_def r(1) w'_def[symmetric])
  qed
qed

lemma finish_accounts:
  assumes c: "clock_runs v"
  shows "accounts tcp_finished 0 (tcp_account w) (tcp_account (finish_ongoing_tcp_req v pc w))"
proof (cases "ongoing_tcp_req w pc")
  case None
  then show ?thesis by (simp add: finish_ongoing_tcp_req_def)
next
  case (Some x)
  define w' where "w' = finish_ongoing_tcp_req v pc w"
  show ?thesis
  proof (cases "tr_end_monotime_ns x = 0 \<and> tr_protocol_type x = k_protocol_type_unknown")
    case True
    obtain t w1 where n: "now v w = (t, w1)" by (rule prod.exhaust)
    define y where "y = x\<lparr>tr_end_monotime_ns := t, tr_resp_len := 0\<rparr>"
    have w1: "tcp_reports w1 = tcp_reports w" "ongoing_tcp_req w1 = ongoing_tcp_req w" "t \<noteq> 0"
      using tcp_parts(1,2)[of v w] n clock_nonzero[OF c, of w] by simp_all
    obtain rs where rs: "tcp_reports (snd (on_ring (events_ringbuf_output (tv_ring v) (TcpEvent y) sizeof_tcp_req) w1)) =
        tcp_reports w1 @ rs" "rs = [] \<or> rs = [y]" using output_reports by blast
    have r: "tcp_reports w' = tcp_reports w @ rs" and u: "ongoing_tcp_req w' = map_del pc (ongoing_tcp_req w)"
      using Some True n w1 rs by (simp_all add: w'_def finish_ongoing_tcp_req_def Let_def case_prod_beta y_def)
    have "pc \<in> open_tcp w" using True Some by (simp add: open_tcp_def)
    moreover have "\<forall>z \<in> set rs. tcp_finished z" "length rs \<le> 1" using rs(2) w1(3) by (auto simp: tcp_finished_def y_def)
    ultimately show ?thesis using accounts_close[of pc "open_tcp w" rs tcp_finished]
      by (simp add: tcp_account_def r open_tcp_del[OF u] w'_def[symmetric])
  next
    case False
    then have "tcp_reports w' = tcp_reports w" and u: "ongoing_tcp_req w' = map_del pc (ongoing_tcp_req w)"
      using Some by (auto simp: w'_def finish_ongoing_tcp_req_def Let_def)
    then show ?thesis by (simp add: tcp_account_def open_tcp_del[OF u] w'_def[symmetric] accounts_drop)
  qed
qed

lemma failed_accounts:
  assumes "clock_runs v"
  shows "accounts tcp_finished (Suc 0) (tcp_account w) (tcp_account (failed_to_connect_event v pc lw dp ts w))"
proof -
  define w' where "w' = failed_to_connect_event v pc lw dp ts w"
  have o: "open_tcp w' = open_tcp w"
    by (rule open_tcp_same) (simp add: w'_def failed_to_connect_event_def Let_def case_prod_beta)
  have "\<exists>rs. tcp_reports w' = tcp_reports w @ rs \<and> length rs \<le> 1 \<and> (\<forall>z \<in> set rs. tcp_finished z)"
    using clock_nonzero[OF assms]
    by (auto simp: w'_def failed_to_connect_event_def Let_def case_prod_beta tcp_finished_def on_traces_def
        init_failed_connect_tcp_req_def tcp_get_client_trace_info_def)
  then show ?thesis by (auto simp: tcp_account_def o accounts_def w'_def[symmetric])
qed

text \<open>
  A packet starts a record when the connection has none or one whose response has been seen, the packet
  is not one the handler ignores as a first packet, and there is scratch memory for the record.
\<close>

definition tcp_opens :: "tcp_env \<Rightarrow> pid_connection_info \<Rightarrow> u8 \<Rightarrow> u16 \<Rightarrow> tcp_world \<Rightarrow> nat" where
  "tcp_opens v pc d dp w =
     (let local_port = (if d_port (pc_conn pc) = dp then s_port (pc_conn pc) else d_port (pc_conn pc));
          is_server = (is_listening (listening_ports v) local_port (tv_netns v) \<or> is_unix_sock_server d dp)
      in if (\<forall>x. ongoing_tcp_req w pc = Some x \<longrightarrow> tr_direction x = d \<and> tr_end_monotime_ns x \<noteq> 0) \<and>
            \<not> first_packet_ignored v pc d dp is_server w \<and> tw_req_mem w then 1 else 0)"

lemma handle_accounts:
  assumes c: "clock_runs v"
  shows "accounts tcp_finished (tcp_opens v pc d dp w) (tcp_account w)
    (tcp_account (handle_unknown_tcp_connection v pc u_buf n d ssl dp lw pt w))"
proof (cases "\<forall>x. ongoing_tcp_req w pc = Some x \<longrightarrow> tr_direction x = d \<and> tr_end_monotime_ns x \<noteq> 0")
  case False
  then obtain x where "ongoing_tcp_req w pc = Some x" "\<not> (tr_direction x = d \<and> tr_end_monotime_ns x \<noteq> 0)" by blast
  moreover from this have "tcp_opens v pc d dp w = 0" by (simp add: tcp_opens_def Let_def)
  ultimately show ?thesis using response_accounts[OF _ c] more_accounts
    by (simp add: handle_unknown_tcp_connection_def)
next
  case True
  define w1 where "w1 = w\<lparr>ongoing_tcp_req := map_del pc (ongoing_tcp_req w)\<rparr>"
  define is_server where "is_server \<longleftrightarrow> is_listening (listening_ports v)
      (if d_port (pc_conn pc) = dp then s_port (pc_conn pc) else d_port (pc_conn pc)) (tv_netns v) \<or> is_unix_sock_server d dp"
  have a: "tcp_account w1 = (tcp_reports w, open_tcp w - {pc})" and n: "ongoing_tcp_req w1 pc = None"
    by (simp_all add: tcp_account_def w1_def open_tcp_del)
  have i: "ongoing_tcp_req w pc = None \<Longrightarrow> w1 = w" by (simp add: w1_def map_del_def fun_upd_idem)
  have f: "first_packet_ignored v pc d dp is_server w1 = first_packet_ignored v pc d dp is_server w" "tw_req_mem w1 = tw_req_mem w"
    by (simp_all add: first_packet_ignored_def w1_def)
  have o: "tcp_opens v pc d dp w = (if first_packet_ignored v pc d dp is_server w1 \<or> \<not> tw_req_mem w1 then 0 else Suc 0)"
    using True f by (simp add: tcp_opens_def Let_def is_server_def[symmetric])
  have h: "handle_unknown_tcp_connection v pc u_buf n d ssl dp lw pt w =
      (if first_packet_ignored v pc d dp is_server w1 \<or> \<not> tw_req_mem w1 then w1
       else start_tcp_req v pc u_buf n d ssl dp lw pt is_server zero_tcp_req w1)"
    using True n i by (cases "ongoing_tcp_req w pc")
      (simp_all add: handle_unknown_tcp_connection_def w1_def[symmetric] Let_def is_server_def empty_tcp_req_def)
  have "accounts tcp_finished 0 (tcp_account w) (tcp_account w1)" by (simp add: a) (simp add: tcp_account_def accounts_drop)
  moreover have "accounts tcp_finished (tcp_opens v pc d dp w) (tcp_account w1)
      (tcp_account (handle_unknown_tcp_connection v pc u_buf n d ssl dp lw pt w))"
    unfolding h o using start_accounts by simp
  ultimately show ?thesis using accounts_trans by fastforce
qed

text \<open>
  What happens to the records of TCP requests: packets, closed connections, failed connections, and
  entries the LRU map drops.
\<close>

datatype tcp_op =
    TcpPacket tcp_env pid_connection_info nat u32 u8 u8 u16 u64 protocol_type
  | TcpClosed tcp_env pid_connection_info
  | TcpConnectFailed tcp_env pid_connection_info u64 u16 u64
  | TcpEvicted pid_connection_info

fun tcp_step :: "tcp_op \<Rightarrow> tcp_world \<Rightarrow> tcp_world" where
  "tcp_step (TcpPacket v pc u_buf n d ssl dp lw pt) w = handle_unknown_tcp_connection v pc u_buf n d ssl dp lw pt w"
| "tcp_step (TcpClosed v pc) w = finish_ongoing_tcp_req v pc w"
| "tcp_step (TcpConnectFailed v pc lw dp ts) w = failed_to_connect_event v pc lw dp ts w"
| "tcp_step (TcpEvicted pc) w = w\<lparr>ongoing_tcp_req := map_del pc (ongoing_tcp_req w)\<rparr>"

fun tcp_op_opens :: "tcp_op \<Rightarrow> tcp_world \<Rightarrow> nat" where
  "tcp_op_opens (TcpPacket v pc u_buf n d ssl dp lw pt) w = tcp_opens v pc d dp w"
| "tcp_op_opens (TcpClosed v pc) w = 0"
| "tcp_op_opens (TcpConnectFailed v pc lw dp ts) w = 1"
| "tcp_op_opens (TcpEvicted pc) w = 0"

fun tcp_op_clock :: "tcp_op \<Rightarrow> bool" where
  "tcp_op_clock (TcpPacket v pc u_buf n d ssl dp lw pt) = clock_runs v"
| "tcp_op_clock (TcpClosed v pc) = clock_runs v"
| "tcp_op_clock (TcpConnectFailed v pc lw dp ts) = clock_runs v"
| "tcp_op_clock (TcpEvicted pc) = True"

interpretation tcp_reporting: reporting tcp_step tcp_account tcp_op_opens tcp_finished tcp_op_clock
proof unfold_locales
  fix i w
  assume "tcp_op_clock i"
  then show "accounts tcp_finished (tcp_op_opens i w) (tcp_account w) (tcp_account (tcp_step i w))"
  proof (cases i)
    case (TcpEvicted pc)
    then show ?thesis by (simp add: tcp_account_def open_tcp_del accounts_drop)
  qed (auto intro: handle_accounts finish_accounts failed_accounts)
qed

text \<open>
  C8: Over any sequence of packets, closes, failed connections and evictions of any connections, there
  are never more TCP requests reported than records were started or connections failed, where a packet
  the handler ignores starts none: no request is reported by its response and again at the close, and
  every reported request has an end time.
\<close>

theorem tcp_reported_once:
  assumes "list_all tcp_op_clock ops" and "tcp_reports w = []" and "ongoing_tcp_req w = Map.empty"
  shows "length (tcp_reports (fold tcp_step ops w)) \<le> opened tcp_op_opens tcp_step ops w \<and>
    (\<forall>r \<in> set (tcp_reports (fold tcp_step ops w)). tr_end_monotime_ns r \<noteq> 0)"
  using tcp_reporting.reported_once[OF assms(1), of w] assms(2,3)
  by (simp add: tcp_account_def open_tcp_def tcp_finished_def)

definition sample_tcp_env :: tcp_env where
  "sample_tcp_env = \<lparr>tv_trace = sample_env\<lparr>en_clock := (\<lambda>_. 1000)\<rparr>, tv_cfg = sample_trace_cfg, tv_rt = empty_runtime,
     tv_ring = sample_ring_env, tv_cap = sample_cfg, tv_mem = (\<lambda>_. mem_of 0 [1, 2, 3]), listening_ports = (\<lambda>_. None),
     tv_netns = 9\<rparr>"

definition empty_tcp_world :: tcp_world where
  "empty_tcp_world = \<lparr>tw_traces = empty_trace_maps, tw_proto = empty_proto, ongoing_tcp_req = Map.empty,
     tw_tp_info = None, tw_req_mem = True\<rparr>"

text \<open>A request that is never answered and the close of its connection: at most one report.\<close>

theorem tcp_reported_once_witness:
  "length (tcp_reports (fold tcp_step
     [TcpPacket sample_tcp_env sample_pc 0 3 TCP_SEND 0 80 0 k_protocol_type_unknown,
      TcpClosed sample_tcp_env sample_pc] empty_tcp_world)) \<le> 1"
proof -
  have "\<not> first_packet_ignored sample_tcp_env sample_pc TCP_SEND dp srv w" for dp srv w
    by (simp add: first_packet_ignored_def fd_info_for_conn_def sample_tcp_env_def empty_runtime_def TCP_SEND_def TCP_RECV_def Let_def)
  then have "opened tcp_op_opens tcp_step [TcpPacket sample_tcp_env sample_pc 0 3 TCP_SEND 0 80 0 k_protocol_type_unknown,
      TcpClosed sample_tcp_env sample_pc] empty_tcp_world = 1"
    by (simp add: tcp_opens_def empty_tcp_world_def Let_def)
  then show ?thesis
    using tcp_reported_once[of "[TcpPacket sample_tcp_env sample_pc 0 3 TCP_SEND 0 80 0 k_protocol_type_unknown,
      TcpClosed sample_tcp_env sample_pc]" empty_tcp_world]
    by (simp add: clock_runs_def sample_tcp_env_def tcp_reports_def empty_tcp_world_def empty_proto_def empty_ring_def shipped_def)
qed

end
