(* ===== verification/H2_Frames.thy ===== *)
theory H2_Frames
  imports C_Strings
begin

section \<open>HTTP/2 framing\<close>

text \<open>
  Models \<open>bpf/common/h2_defs.h\<close> and \<open>bpf/generictracer/http2_grpc.h\<close>: the frame header reader,
  the strict checks that recognise HTTP/2 in the middle of a connection, and the HPACK opener
  tests. The state machine of the checks is proved equal to a description of frame lists that
  has no state, and the detector's walk over memory to tiling the message with such a list.
  Offsets are naturals: they stay below \<open>2 ^ 31 + 2 ^ 24 + 9\<close>, so the 32-bit sums do not wrap.
\<close>

subsection \<open>Constants\<close>

definition k_h2_frame_header_len :: nat where "k_h2_frame_header_len = 9"
definition k_h2_frame_data :: u8 where "k_h2_frame_data = 0"
definition k_h2_frame_headers :: u8 where "k_h2_frame_headers = 1"
definition k_h2_frame_priority :: u8 where "k_h2_frame_priority = 2"
definition k_h2_frame_rst_stream :: u8 where "k_h2_frame_rst_stream = 3"
definition k_h2_frame_settings :: u8 where "k_h2_frame_settings = 4"
definition k_h2_frame_push_promise :: u8 where "k_h2_frame_push_promise = 5"
definition k_h2_frame_ping :: u8 where "k_h2_frame_ping = 6"
definition k_h2_frame_goaway :: u8 where "k_h2_frame_goaway = 7"
definition k_h2_frame_window_update :: u8 where "k_h2_frame_window_update = 8"
definition k_h2_frame_continuation :: u8 where "k_h2_frame_continuation = 9"
definition k_h2_flag_end_stream :: u8 where "k_h2_flag_end_stream = 1"
definition k_h2_flag_ack :: u8 where "k_h2_flag_ack = 1"
definition k_h2_flag_end_headers :: u8 where "k_h2_flag_end_headers = 4"
definition k_h2_flag_padded :: u8 where "k_h2_flag_padded = 8"
definition k_h2_flag_priority :: u8 where "k_h2_flag_priority = 0x20"
definition k_h2_priority_prefix_len :: nat where "k_h2_priority_prefix_len = 5"
definition k_h2_max_frame_len :: nat where "k_h2_max_frame_len = 65535"
definition k_h2_max_extension_frame :: u8 where "k_h2_max_extension_frame = 0x1f"
definition k_h2_sniff_max_frames :: nat where "k_h2_sniff_max_frames = 8"
definition k_hpack_int_max_octets :: nat where "k_hpack_int_max_octets = 5"
definition k_h2_hpack_opener_window :: nat where "k_h2_hpack_opener_window = 16"
definition MIN_HTTP2_SIZE :: nat where "MIN_HTTP2_SIZE = 24"

lemmas h2_consts = k_h2_frame_header_len_def k_h2_frame_data_def k_h2_frame_headers_def
  k_h2_frame_priority_def k_h2_frame_rst_stream_def k_h2_frame_settings_def
  k_h2_frame_push_promise_def k_h2_frame_ping_def k_h2_frame_goaway_def
  k_h2_frame_window_update_def k_h2_frame_continuation_def k_h2_flag_end_stream_def
  k_h2_flag_ack_def k_h2_flag_end_headers_def k_h2_flag_padded_def k_h2_flag_priority_def
  k_h2_priority_prefix_len_def k_h2_max_frame_len_def k_h2_max_extension_frame_def
  k_h2_sniff_max_frames_def k_hpack_int_max_octets_def k_h2_hpack_opener_window_def

subsection \<open>HPACK openers\<close>

definition h2_hpack_prefix_len :: "u8 \<Rightarrow> nat" where
  "h2_hpack_prefix_len flags =
     (if flags AND k_h2_flag_padded \<noteq> 0 then 1 else 0)
     + (if flags AND k_h2_flag_priority \<noteq> 0 then k_h2_priority_prefix_len else 0)"

definition h2_hpack_is_literal :: "u8 \<Rightarrow> bool" where
  "h2_hpack_is_literal b \<longleftrightarrow> b = 0 \<or> b = 0x10 \<or> b = 0x40"

definition h2_hpack_is_size_update :: "u8 \<Rightarrow> bool" where
  "h2_hpack_is_size_update b \<longleftrightarrow> b AND 0xe0 = 0x20"

text \<open>The loop over continuation octets; window reads are masked to the window.\<close>

function size_update_octets :: "bytes \<Rightarrow> nat \<Rightarrow> nat \<Rightarrow> nat \<Rightarrow> nat option" where
  "size_update_octets w i have octets =
     (if octets < k_hpack_int_max_octets \<and> i + octets < have
      then case rd w ((i + octets) mod k_h2_hpack_opener_window) of
             None \<Rightarrow> None
           | Some v \<Rightarrow> if v AND 0x80 \<noteq> 0 then size_update_octets w i have (Suc octets)
                       else Some octets
      else Some octets)"
  by pat_completeness auto
termination
  by (relation "measure (\<lambda>(_, _, _, octets). k_hpack_int_max_octets - octets)") auto

declare size_update_octets.simps [simp del]

definition h2_hpack_size_update_len :: "bytes \<Rightarrow> nat \<Rightarrow> nat \<Rightarrow> nat option" where
  "h2_hpack_size_update_len w i have = do {
     prefix \<leftarrow> rd w (i mod k_h2_hpack_opener_window);
     if prefix AND 0x1f \<noteq> 0x1f then Some 1 else do {
     octets \<leftarrow> size_update_octets w i have 1;
     Some (1 + octets) }}"

text \<open>One of the two guarded skips, at offset \<open>i\<close>.\<close>

definition skip_size_update :: "bytes \<Rightarrow> nat \<Rightarrow> nat \<Rightarrow> nat option" where
  "skip_size_update w have i =
     (if i < have then do {
        b \<leftarrow> rd w (i mod k_h2_hpack_opener_window);
        if h2_hpack_is_size_update b then do {
          n \<leftarrow> h2_hpack_size_update_len w i have;
          Some (i + n) }
        else Some i }
      else Some i)"

definition h2_hpack_skip_size_updates :: "bytes \<Rightarrow> nat \<Rightarrow> nat option" where
  "h2_hpack_skip_size_updates w have = do {
     i \<leftarrow> skip_size_update w have 0;
     skip_size_update w have i }"

definition h2_hpack_opens_request :: "u8 \<Rightarrow> bool" where
  "h2_hpack_opens_request b =
     (if b AND 0x80 \<noteq> 0
      then let idx = b AND NOT 0x80 in (1 \<le> idx \<and> idx \<le> 7) \<or> 62 \<le> idx
      else let idx = b AND NOT (0x40 OR 0x10); form = b AND (0x40 OR 0x10)
           in if idx < 1 \<or> idx > 7 then False
              else form = 0x40 \<or> form = 0x10 \<or> form = 0)"

definition h2_hpack_opens_response :: "u8 \<Rightarrow> bool" where
  "h2_hpack_opens_response b =
     (if b AND 0x80 \<noteq> 0
      then let idx = b AND NOT 0x80 in 8 \<le> idx \<and> idx \<le> 14
      else let idx = b AND NOT (0x40 OR 0x10); form = b AND (0x40 OR 0x10)
           in if idx < 8 \<or> idx > 14 then False
              else form = 0x40 \<or> form = 0x10 \<or> form = 0)"

subsection \<open>Sniffing frames\<close>

record h2_sniff_state =
  continuation_stream :: u32
  seen_headers :: bool
  expect_continuation :: bool

text \<open>Rejecting leaves the state as it was: every check stands before the assignments of its case.\<close>

definition h2_sniff_check_frame ::
  "h2_sniff_state \<Rightarrow> u32 \<Rightarrow> u8 \<Rightarrow> u8 \<Rightarrow> u8 \<Rightarrow> u32 \<Rightarrow> h2_sniff_state \<times> bool" where
  "h2_sniff_check_frame st len type flags r_bit stream_id =
     (if unat len > k_h2_max_frame_len \<or> r_bit \<noteq> 0 then (st, False)
      else if expect_continuation st
              \<and> (type \<noteq> k_h2_frame_continuation \<or> stream_id \<noteq> continuation_stream st)
      then (st, False)
      else if \<not> expect_continuation st \<and> type = k_h2_frame_continuation then (st, False)
      else if type = k_h2_frame_data then
        (if flags AND NOT (k_h2_flag_end_stream OR k_h2_flag_padded) \<noteq> 0 \<or> stream_id = 0
            \<or> (len = 0 \<and> flags AND k_h2_flag_end_stream = 0)
         then (st, False) else (st, True))
      else if type = k_h2_frame_headers then
        (if flags AND NOT (k_h2_flag_end_stream OR k_h2_flag_end_headers OR k_h2_flag_priority
                           OR k_h2_flag_padded) \<noteq> 0
            \<or> stream_id AND 1 = 0 \<or> len = 0
         then (st, False)
         else (st\<lparr>seen_headers := True, expect_continuation := flags AND k_h2_flag_end_headers = 0,
                  continuation_stream := stream_id\<rparr>, True))
      else if type = k_h2_frame_push_promise then
        (if flags AND NOT (k_h2_flag_end_headers OR k_h2_flag_padded) \<noteq> 0 \<or> stream_id = 0
            \<or> len < 4
         then (st, False)
         else (st\<lparr>expect_continuation := flags AND k_h2_flag_end_headers = 0,
                  continuation_stream := stream_id\<rparr>, True))
      else if type = k_h2_frame_priority then
        (if flags \<noteq> 0 \<or> len \<noteq> 5 \<or> stream_id = 0 then (st, False) else (st, True))
      else if type = k_h2_frame_rst_stream then
        (if flags \<noteq> 0 \<or> len \<noteq> 4 \<or> stream_id = 0 then (st, False) else (st, True))
      else if type = k_h2_frame_settings then
        (if flags AND NOT k_h2_flag_ack \<noteq> 0 \<or> stream_id \<noteq> 0 \<or> len mod 6 \<noteq> 0
            \<or> (flags AND k_h2_flag_ack \<noteq> 0 \<and> len \<noteq> 0)
         then (st, False) else (st, True))
      else if type = k_h2_frame_ping then
        (if flags AND NOT k_h2_flag_ack \<noteq> 0 \<or> stream_id \<noteq> 0 \<or> len \<noteq> 8
         then (st, False) else (st, True))
      else if type = k_h2_frame_goaway then
        (if flags \<noteq> 0 \<or> stream_id \<noteq> 0 \<or> len < 8 then (st, False) else (st, True))
      else if type = k_h2_frame_window_update then
        (if flags \<noteq> 0 \<or> len \<noteq> 4 then (st, False) else (st, True))
      else if type = k_h2_frame_continuation then
        (if flags AND NOT k_h2_flag_end_headers \<noteq> 0
            \<or> (len = 0 \<and> flags AND k_h2_flag_end_headers = 0)
         then (st, False)
         else (st\<lparr>expect_continuation := flags AND k_h2_flag_end_headers = 0\<rparr>, True))
      else if type > k_h2_max_extension_frame then (st, False)
      else (st, True))"

definition h2_frame_payload_len :: "bytes \<Rightarrow> u32" where
  "h2_frame_payload_len d =
     push_bit 16 (ucast (d ! 0)) OR push_bit 8 (ucast (d ! 1)) OR ucast (d ! 2)"

definition h2_frame_stream_id :: "bytes \<Rightarrow> u32" where
  "h2_frame_stream_id d =
     push_bit 24 (ucast (d ! 5 AND NOT 0x80)) OR push_bit 16 (ucast (d ! 6))
     OR push_bit 8 (ucast (d ! 7)) OR ucast (d ! 8)"

text \<open>\<open>d\<close> is a 9-byte array. Returns the state, the verdict and the payload length.\<close>

definition h2_sniff_frame_header ::
  "h2_sniff_state \<Rightarrow> bytes \<Rightarrow> h2_sniff_state \<times> bool \<times> u32" where
  "h2_sniff_frame_header st d =
     (let frame_len = h2_frame_payload_len d;
          (st', ok) = h2_sniff_check_frame st frame_len (d ! 3) (d ! 4) (d ! 5 AND 0x80)
                        (h2_frame_stream_id d)
      in (st', ok, frame_len))"

definition h2_sniff_tiles :: "h2_sniff_state \<Rightarrow> nat \<Rightarrow> nat \<Rightarrow> bool" where
  "h2_sniff_tiles st pos buf_len \<longleftrightarrow> buf_len \<noteq> 0 \<and> pos = buf_len \<and> \<not> expect_continuation st"

datatype h2_walk_result = k_h2_walk_mismatch | k_h2_walk_tiled | k_h2_walk_unfinished

definition h2_sniff_walk_result :: "h2_sniff_state \<Rightarrow> nat \<Rightarrow> nat \<Rightarrow> h2_walk_result" where
  "h2_sniff_walk_result st pos buf_len =
     (if pos < buf_len then k_h2_walk_unfinished
      else if h2_sniff_tiles st pos buf_len then k_h2_walk_tiled else k_h2_walk_mismatch)"

definition h2_sniff_accept :: "h2_sniff_state \<Rightarrow> nat \<Rightarrow> nat \<Rightarrow> bool" where
  "h2_sniff_accept st pos buf_len \<longleftrightarrow> seen_headers st \<and> h2_sniff_tiles st pos buf_len"

definition sniff_start :: h2_sniff_state where
  "sniff_start = \<lparr>continuation_stream = 0, seen_headers = False, expect_continuation = False\<rparr>"

text \<open>
  The loop of \<open>looks_like_http2_frames\<close> with \<open>n\<close> turns left; \<open>None\<close> is the early \<open>return 0\<close>.
\<close>

primrec sniff_walk ::
  "nat \<Rightarrow> mem \<Rightarrow> nat \<Rightarrow> nat \<Rightarrow> h2_sniff_state \<Rightarrow> nat \<Rightarrow> (h2_sniff_state \<times> nat) option" where
  "sniff_walk 0 m u_buf len st pos = Some (st, pos)"
| "sniff_walk (Suc n) m u_buf len st pos =
     (if pos < len
      then if pos + k_h2_frame_header_len > len then None
           else case probe_read m (u_buf + pos) k_h2_frame_header_len of
               None \<Rightarrow> None
             | Some buf \<Rightarrow>
                 (let (st', ok, frame_len) = h2_sniff_frame_header st buf
                  in if \<not> ok then None
                     else sniff_walk n m u_buf len st'
                            (pos + k_h2_frame_header_len + unat frame_len))
      else Some (st, pos))"

definition looks_like_http2_frames :: "mem \<Rightarrow> nat \<Rightarrow> int \<Rightarrow> bool" where
  "looks_like_http2_frames m u_buf bytes_len =
     (if bytes_len < int k_h2_frame_header_len then False
      else let len = nat bytes_len
           in case sniff_walk k_h2_sniff_max_frames m u_buf len sniff_start 0 of
                None \<Rightarrow> False
              | Some (st, pos) \<Rightarrow> h2_sniff_accept st pos len)"

subsection \<open>The frame reader\<close>

record frame_header =
  fh_length :: u32
  fh_type :: u8
  fh_flags :: u8
  fh_stream_id :: u32

definition bswap32 :: "u32 \<Rightarrow> u32" where
  "bswap32 w = be_word (le_bytes32 w)"

text \<open>
  The packed little-endian bit fields: \<open>length\<close> is the first three bytes, \<open>__ignore\<close> the lowest
  bit of byte 5 and \<open>stream_id\<close> the 31 bits above it.
\<close>

definition raw_frame_header :: "bytes \<Rightarrow> frame_header" where
  "raw_frame_header d =
     \<lparr>fh_length = le_word (take 3 d), fh_type = d ! 3, fh_flags = d ! 4,
      fh_stream_id = drop_bit 1 (le_word (take 4 (drop 5 d)))\<rparr>"

definition read_http2_grpc_frame_header ::
  "frame_header \<Rightarrow> bytes \<Rightarrow> nat \<Rightarrow> (frame_header \<times> bool) option" where
  "read_http2_grpc_frame_header frame p len =
     (if len < k_h2_frame_header_len then Some (frame, False)
      else do {
        d \<leftarrow> rdn p 0 k_h2_frame_header_len;
        let frame = raw_frame_header d;
        if fh_length frame = 0 \<or> fh_type frame > 9 then Some (frame, False)
        else Some (frame\<lparr>fh_length := take_bit 24 (bswap32 (push_bit 8 (fh_length frame))),
                         fh_stream_id := take_bit 31 (bswap32 (push_bit 1 (fh_stream_id frame)))\<rparr>, True) })"

definition is_headers_frame :: "frame_header \<Rightarrow> bool" where
  "is_headers_frame frame \<longleftrightarrow> fh_type frame = 1 \<and> fh_stream_id frame \<noteq> 0"

definition HTTP2_GRPC_PREFACE :: bytes where
  "HTTP2_GRPC_PREFACE =
     ascii ''PRI * HTTP/2.0'' @ [0x0d, 0x0a, 0x0d, 0x0a] @ ascii ''SM'' @ [0x0d, 0x0a, 0x0d, 0x0a]"

definition has_preface :: "bytes \<Rightarrow> nat \<Rightarrow> bool option" where
  "has_preface p len =
     (if len < MIN_HTTP2_SIZE then Some False
      else do {
        r \<leftarrow> obi_bpf_memcmp p HTTP2_GRPC_PREFACE MIN_HTTP2_SIZE;
        Some (r = 0) })"

definition is_http2_or_grpc :: "bytes \<Rightarrow> nat \<Rightarrow> bool option" where
  "is_http2_or_grpc p len = has_preface p len"

text \<open>The part of \<open>call_protocol_args_t\<close> the preface skip works on.\<close>

record h2_args =
  ha_small_buf :: bytes
  ha_u_buf :: nat
  ha_bytes_len :: int

definition skip_http2_preface :: "h2_args \<Rightarrow> h2_args option" where
  "skip_http2_preface args =
     (if ha_bytes_len args < int MIN_HTTP2_SIZE then Some args
      else do {
        pre \<leftarrow> has_preface (ha_small_buf args) MIN_HTTP2_SIZE;
        Some (if \<not> pre then args
              else args\<lparr>ha_u_buf := ha_u_buf args + MIN_HTTP2_SIZE,
                        ha_bytes_len := ha_bytes_len args - int MIN_HTTP2_SIZE\<rparr>) })"

definition http_grpc_stream_ended :: "frame_header \<Rightarrow> bool" where
  "http_grpc_stream_ended frame \<longleftrightarrow> is_headers_frame frame \<and> fh_flags frame AND 1 = 1"

definition is_invalid_frame :: "frame_header \<Rightarrow> bool" where
  "is_invalid_frame frame \<longleftrightarrow> fh_type frame = 0 \<and> fh_stream_id frame = 0"

definition http_grpc_data_stream_ended :: "frame_header \<Rightarrow> bool" where
  "http_grpc_data_stream_ended frame \<longleftrightarrow> fh_type frame = 0 \<and> fh_flags frame AND 1 = 1"

definition is_flags_only_frame :: "frame_header \<Rightarrow> bool" where
  "is_flags_only_frame frame \<longleftrightarrow> fh_length frame \<le> 2"

subsection \<open>Sniffing meets its specification\<close>

text \<open>A frame header as the sniffers see it.\<close>

record sniffed =
  sf_len :: u32
  sf_type :: u8
  sf_flags :: u8
  sf_rbit :: u8
  sf_stream :: u32

definition sniffed_of :: "bytes \<Rightarrow> sniffed" where
  "sniffed_of d = \<lparr>sf_len = h2_frame_payload_len d, sf_type = d ! 3, sf_flags = d ! 4,
     sf_rbit = d ! 5 AND 0x80, sf_stream = h2_frame_stream_id d\<rparr>"

definition end_headers :: "sniffed \<Rightarrow> bool" where
  "end_headers f \<longleftrightarrow> sf_flags f AND k_h2_flag_end_headers \<noteq> 0"

text \<open>A frame that leaves a header block open.\<close>

definition opens_block :: "sniffed \<Rightarrow> bool" where
  "opens_block f \<longleftrightarrow> sf_type f \<in> {1, 5, 9} \<and> \<not> end_headers f"

definition only_flags :: "u8 \<Rightarrow> sniffed \<Rightarrow> bool" where
  "only_flags m f \<longleftrightarrow> sf_flags f AND NOT m = 0"

text \<open>What a frame must satisfy on its own.\<close>

definition frame_shape :: "sniffed \<Rightarrow> bool" where
  "frame_shape f \<longleftrightarrow> unat (sf_len f) \<le> 65535 \<and> sf_rbit f = 0 \<and> sf_type f \<le> 0x1f \<and>
     (sf_type f = 0 \<longrightarrow> only_flags (k_h2_flag_end_stream OR k_h2_flag_padded) f \<and> sf_stream f \<noteq> 0 \<and>
        (sf_len f \<noteq> 0 \<or> sf_flags f AND k_h2_flag_end_stream \<noteq> 0)) \<and>
     (sf_type f = 1 \<longrightarrow> only_flags (k_h2_flag_end_stream OR k_h2_flag_end_headers OR
          k_h2_flag_priority OR k_h2_flag_padded) f \<and> sf_stream f AND 1 \<noteq> 0 \<and> sf_len f \<noteq> 0) \<and>
     (sf_type f = 2 \<longrightarrow> sf_flags f = 0 \<and> sf_len f = 5 \<and> sf_stream f \<noteq> 0) \<and>
     (sf_type f = 3 \<longrightarrow> sf_flags f = 0 \<and> sf_len f = 4 \<and> sf_stream f \<noteq> 0) \<and>
     (sf_type f = 4 \<longrightarrow> only_flags k_h2_flag_ack f \<and> sf_stream f = 0 \<and> sf_len f mod 6 = 0 \<and>
        (sf_flags f AND k_h2_flag_ack = 0 \<or> sf_len f = 0)) \<and>
     (sf_type f = 5 \<longrightarrow> only_flags (k_h2_flag_end_headers OR k_h2_flag_padded) f \<and>
        sf_stream f \<noteq> 0 \<and> 4 \<le> sf_len f) \<and>
     (sf_type f = 6 \<longrightarrow> only_flags k_h2_flag_ack f \<and> sf_stream f = 0 \<and> sf_len f = 8) \<and>
     (sf_type f = 7 \<longrightarrow> sf_flags f = 0 \<and> sf_stream f = 0 \<and> 8 \<le> sf_len f) \<and>
     (sf_type f = 8 \<longrightarrow> sf_flags f = 0 \<and> sf_len f = 4) \<and>
     (sf_type f = 9 \<longrightarrow> only_flags k_h2_flag_end_headers f \<and> (sf_len f \<noteq> 0 \<or> end_headers f))"

text \<open>What it must satisfy given the state, and the state after it.\<close>

definition fits_after :: "h2_sniff_state \<Rightarrow> sniffed \<Rightarrow> bool" where
  "fits_after st f \<longleftrightarrow> (sf_type f = 9 \<longleftrightarrow> expect_continuation st) \<and>
     (expect_continuation st \<longrightarrow> sf_stream f = continuation_stream st)"

definition sniff_next :: "h2_sniff_state \<Rightarrow> sniffed \<Rightarrow> h2_sniff_state" where
  "sniff_next st f = \<lparr>continuation_stream = if sf_type f \<in> {1, 5} then sf_stream f else continuation_stream st,
     seen_headers = (seen_headers st \<or> sf_type f = 1), expect_continuation = opens_block f\<rparr>"

lemma check_frame_cases:
  "h2_sniff_check_frame st (sf_len f) (sf_type f) (sf_flags f) (sf_rbit f) (sf_stream f) =
     (if frame_shape f \<and> fits_after st f then (sniff_next st f, True) else (st, False))"
proof -
  consider "sf_type f \<in> {0,1,2,3,4,5,6,7,8,9}" | "sf_type f \<notin> {0,1,2,3,4,5,6,7,8,9}" by blast
  then show ?thesis
  proof cases
    case 1
    then show ?thesis
      by (elim insertE emptyE)
        (auto simp: h2_sniff_check_frame_def frame_shape_def fits_after_def sniff_next_def
          opens_block_def end_headers_def only_flags_def h2_consts not_less)
  next
    case 2
    then show ?thesis
      by (auto simp: h2_sniff_check_frame_def frame_shape_def fits_after_def sniff_next_def
          opens_block_def h2_consts not_less)
  qed
qed

text \<open>
  The discipline of header blocks between neighbours, without a state: CONTINUATION follows
  exactly an open block, on the same stream.
\<close>

definition blocks_linked :: "sniffed \<Rightarrow> sniffed \<Rightarrow> bool" where
  "blocks_linked f g \<longleftrightarrow> (sf_type g = 9 \<longleftrightarrow> opens_block f) \<and>
     (opens_block f \<longrightarrow> sf_stream g = sf_stream f)"

definition h2_stream_ok :: "sniffed list \<Rightarrow> bool" where
  "h2_stream_ok fs \<longleftrightarrow> list_all frame_shape fs \<and>
     (\<exists>f \<in> set fs. sf_type f = 1) \<and> sf_type (hd fs) \<noteq> 9 \<and>
     successively blocks_linked fs \<and> \<not> opens_block (last fs)"

text \<open>At most \<open>n\<close> frame headers that tile the message from \<open>pos\<close> to its end.\<close>

primrec tile_frames :: "nat \<Rightarrow> mem \<Rightarrow> nat \<Rightarrow> nat \<Rightarrow> nat \<Rightarrow> sniffed list option" where
  "tile_frames 0 m u_buf len pos = (if pos = len then Some [] else None)"
| "tile_frames (Suc n) m u_buf len pos =
     (if pos = len then Some []
      else if pos + 9 > len then None
      else case probe_read m (u_buf + pos) 9 of
          None \<Rightarrow> None
        | Some d \<Rightarrow> (case tile_frames n m u_buf len (pos + 9 + unat (h2_frame_payload_len d)) of
             None \<Rightarrow> None | Some fs \<Rightarrow> Some (sniffed_of d # fs)))"

primrec sniff_run :: "h2_sniff_state \<Rightarrow> sniffed list \<Rightarrow> h2_sniff_state option" where
  "sniff_run st [] = Some st"
| "sniff_run st (f # fs) = (if frame_shape f \<and> fits_after st f then sniff_run (sniff_next st f) fs else None)"

lemma sniff_header_cases:
  "h2_sniff_frame_header st d =
     (if frame_shape (sniffed_of d) \<and> fits_after st (sniffed_of d)
      then (sniff_next st (sniffed_of d), True, h2_frame_payload_len d)
      else (st, False, h2_frame_payload_len d))"
  using check_frame_cases[of st "sniffed_of d"]
  by (simp add: h2_sniff_frame_header_def sniffed_of_def Let_def)

lemma sniff_walk_tiles:
  assumes "0 < len"
  shows "(case sniff_walk n m u_buf len st pos of None \<Rightarrow> False
     | Some (st', pos') \<Rightarrow> h2_sniff_accept st' pos' len) =
   (case tile_frames n m u_buf len pos of None \<Rightarrow> False
     | Some fs \<Rightarrow> (case sniff_run st fs of None \<Rightarrow> False
         | Some st' \<Rightarrow> seen_headers st' \<and> \<not> expect_continuation st'))"
proof (induction n arbitrary: st pos)
  case 0
  then show ?case
    using assms by (auto simp: h2_sniff_accept_def h2_sniff_tiles_def)
next
  case (Suc n)
  show ?case
  proof (cases "pos + 9 \<le> len")
    case False
    then show ?thesis
      using assms by (auto simp: h2_sniff_accept_def h2_sniff_tiles_def k_h2_frame_header_len_def)
  next
    case True
    show ?thesis
    proof (cases "probe_read m (u_buf + pos) 9")
      case None
      with True show ?thesis
        by (simp add: k_h2_frame_header_len_def)
    next
      case (Some d)
      let ?ok = "frame_shape (sniffed_of d) \<and> fits_after st (sniffed_of d)"
      have step: "sniff_walk (Suc n) m u_buf len st pos = (if ?ok then sniff_walk n m u_buf len
          (sniff_next st (sniffed_of d)) (pos + 9 + unat (h2_frame_payload_len d)) else None)"
        using True Some by (simp add: sniff_header_cases k_h2_frame_header_len_def)
      have tile: "tile_frames (Suc n) m u_buf len pos =
          (case tile_frames n m u_buf len (pos + 9 + unat (h2_frame_payload_len d)) of
             None \<Rightarrow> None | Some fs \<Rightarrow> Some (sniffed_of d # fs))"
        using True Some by simp
      show ?thesis
        unfolding step tile using Suc.IH[of "sniff_next st (sniffed_of d)"]
        by (cases ?ok) (auto split: option.splits)
    qed
  qed
qed

lemma sniff_run_ok:
  "(case sniff_run st fs of None \<Rightarrow> False
      | Some st' \<Rightarrow> seen_headers st' \<and> \<not> expect_continuation st') \<longleftrightarrow>
   list_all frame_shape fs \<and> (seen_headers st \<or> (\<exists>f \<in> set fs. sf_type f = 1)) \<and>
   (fs \<noteq> [] \<longrightarrow> fits_after st (hd fs)) \<and> successively blocks_linked fs \<and>
   \<not> (if fs = [] then expect_continuation st else opens_block (last fs))"
proof (induction fs arbitrary: st)
  case Nil
  then show ?case by simp
next
  case (Cons f fs)
  have next_fits: "frame_shape f \<and> fits_after st f \<Longrightarrow>
      fits_after (sniff_next st f) g = blocks_linked f g" for g
    by (auto simp: fits_after_def sniff_next_def blocks_linked_def opens_block_def)
  show ?case
    using next_fits Cons.IH[of "sniff_next st f"]
    by (cases fs) (auto simp: sniff_next_def)
qed

text \<open>
  C27: mid-stream detection accepts a message exactly when at most eight frames tile it, each is
  well formed, one is HEADERS, and CONTINUATION frames occur exactly inside open header blocks
  of their own stream, none of which is left open.
\<close>

theorem looks_like_http2_frames_spec:
  assumes "9 \<le> bytes_len"
  shows "looks_like_http2_frames m u_buf bytes_len \<longleftrightarrow>
     (\<exists>fs. tile_frames 8 m u_buf (nat bytes_len) 0 = Some fs \<and> h2_stream_ok fs)"
proof -
  have len: "0 < nat bytes_len" using assms by simp
  have "looks_like_http2_frames m u_buf bytes_len =
    (case tile_frames 8 m u_buf (nat bytes_len) 0 of None \<Rightarrow> False
     | Some fs \<Rightarrow> (case sniff_run sniff_start fs of None \<Rightarrow> False
         | Some st' \<Rightarrow> seen_headers st' \<and> \<not> expect_continuation st'))"
    using assms sniff_walk_tiles[OF len, of 8 m u_buf sniff_start 0]
    by (simp add: looks_like_http2_frames_def h2_consts Let_def)
  then show ?thesis
    by (auto simp: sniff_run_ok h2_stream_ok_def sniff_start_def fits_after_def split: option.splits)
qed

lemma tile_frames_pos:
  "0 < n \<Longrightarrow> tile_frames n m u_buf len pos =
     (if pos = len then Some []
      else if pos + 9 > len then None
      else case probe_read m (u_buf + pos) 9 of
          None \<Rightarrow> None
        | Some d \<Rightarrow> (case tile_frames (n - 1) m u_buf len (pos + 9 + unat (h2_frame_payload_len d)) of
             None \<Rightarrow> None | Some fs \<Rightarrow> Some (sniffed_of d # fs)))"
  using tile_frames.simps(2)[of "n - 1"] by simp

definition sample_h2 :: bytes where
  "sample_h2 = [0, 0, 1, 1, 0, 0, 0, 0, 1, 0x82] @ [0, 0, 1, 9, 4, 0, 0, 0, 1, 0x84]"

theorem looks_like_http2_frames_spec_witness:
  "looks_like_http2_frames (mem_of 8 sample_h2) 8 20"
proof -
  have "length sample_h2 = 20" by (simp add: sample_h2_def)
  then have rd: "probe_read (mem_of 8 sample_h2) (8 + 0) 9 = Some [0, 0, 1, 1, 0, 0, 0, 0, 1]"
    "probe_read (mem_of 8 sample_h2) (8 + 10) 9 = Some [0, 0, 1, 9, 4, 0, 0, 0, 1]"
    using probe_read_mem_of[of 0 9 sample_h2 8] probe_read_mem_of[of 10 9 sample_h2 8]
    by (simp_all add: sample_h2_def)
  let ?f = "sniffed_of [0, 0, 1, 1, 0, 0, 0, 0, 1]"
  let ?g = "sniffed_of [0, 0, 1, 9, 4, 0, 0, 0, 1]"
  have len: "h2_frame_payload_len (0 # 0 # 1 # r) = 1" for r
    by (simp add: h2_frame_payload_len_def)
  have "tile_frames 8 (mem_of 8 sample_h2) 8 20 0 = Some [?f, ?g]"
    using rd by (simp add: tile_frames_pos len)
  moreover have "h2_stream_ok [?f, ?g]"
    by (simp add: h2_stream_ok_def frame_shape_def sniffed_of_def only_flags_def end_headers_def
      opens_block_def blocks_linked_def h2_frame_payload_len_def h2_frame_stream_id_def h2_consts)
  ultimately show ?thesis
    using looks_like_http2_frames_spec[of 20 "mem_of 8 sample_h2" 8] by simp
qed

subsection \<open>Size updates and openers\<close>

text \<open>The RFC 7541 5.1 encoding of an integer past a full prefix, and a size update.\<close>

fun hpack_cont :: "nat \<Rightarrow> bytes" where
  "hpack_cont n = (if n < 128 then [word_of_nat n]
     else word_of_nat (128 + n mod 128) # hpack_cont (n div 128))"

declare hpack_cont.simps [simp del]

definition hpack_size_update :: "nat \<Rightarrow> bytes" where
  "hpack_size_update v = (if v < 31 then [word_of_nat (32 + v)] else 0x3f # hpack_cont (v - 31))"

lemma hpack_cont_length: "n < 128 ^ k \<Longrightarrow> 0 < k \<Longrightarrow> length (hpack_cont n) \<le> k"
proof (induction n arbitrary: k rule: hpack_cont.induct)
  case (1 n)
  show ?case
  proof (cases "n < 128")
    case True
    with 1 show ?thesis by (subst hpack_cont.simps) simp
  next
    case False
    then have "k \<noteq> 1" using "1.prems" by auto
    then obtain j where k: "k = Suc j" "0 < j"
      using "1.prems"(2) by (cases k) auto
    with "1.prems" have "n div 128 < 128 ^ j" by (simp add: less_mult_imp_div_less mult.commute)
    with 1 False k show ?thesis by (subst hpack_cont.simps) simp
  qed
qed

lemma hpack_cont_nonempty: "0 < length (hpack_cont n)"
  by (subst hpack_cont.simps) simp

lemma size_update_octets_cont:
  assumes "drop (i + octets) w = hpack_cont n @ r"
    and "octets + length (hpack_cont n) \<le> 6"
    and "i + octets + length (hpack_cont n) \<le> have" and "have \<le> length w" and "length w = 16"
  shows "size_update_octets w i have octets = Some (octets + length (hpack_cont n) - 1)"
  using assms
proof (induction n arbitrary: octets rule: hpack_cont.induct)
  case (1 n)
  have pos: "0 < length (hpack_cont n)" by (rule hpack_cont_nonempty)
  then have inr: "i + octets < have" and o6: "octets < 6" using 1 by linarith+
  then have io: "i + octets < 16" using 1 by linarith
  have nth: "w ! (i + octets) = hd (hpack_cont n)"
    using "1.prems"(1) pos io "1.prems"(5) by (metis hd_append2 hd_drop_conv_nth length_greater_0_conv)
  show ?case
  proof (cases "n < 128")
    case True
    then have "hpack_cont n = [word_of_nat n]" by (subst hpack_cont.simps) simp
    moreover have "(word_of_nat n :: u8) AND 0x80 = 0"
      using and_0x80_iff[of "word_of_nat n"] True by (simp add: unat_of_nat)
    ultimately show ?thesis
      using inr io nth "1.prems"(5)
      by (subst size_update_octets.simps) (auto simp: k_h2_hpack_opener_window_def)
  next
    case False
    then have c: "hpack_cont n = word_of_nat (128 + n mod 128) # hpack_cont (n div 128)"
      by (subst hpack_cont.simps) simp
    have len: "octets + 1 + length (hpack_cont (n div 128)) \<le> 6" using c 1 by simp
    have o5: "octets < 5" using len hpack_cont_nonempty[of "n div 128"] by linarith
    have d: "drop (i + Suc octets) w = hpack_cont (n div 128) @ r"
    proof -
      have "drop (i + Suc octets) w = tl (drop (i + octets) w)"
        by (simp add: drop_Suc tl_drop)
      then show ?thesis using "1.prems"(1) c by simp
    qed
    have "size_update_octets w i have (Suc octets) = Some (Suc octets + length (hpack_cont (n div 128)) - 1)"
      using d len c "1.prems" by (intro "1.IH") (use False in auto)
    moreover have "(word_of_nat (128 + n mod 128) :: u8) AND 0x80 \<noteq> 0"
    proof -
      have "unat (word_of_nat (128 + n mod 128) :: u8) = 128 + n mod 128"
        by (simp only: unat_of_nat) (simp add: mod_less)
      then show ?thesis unfolding and_0x80_iff by simp
    qed
    ultimately show ?thesis
      using inr io o5 nth c "1.prems"(5)
      by (subst size_update_octets.simps)
         (simp add: k_h2_hpack_opener_window_def k_hpack_int_max_octets_def)
  qed
qed

lemma update_prefix: "\<forall>v < 31. h2_hpack_is_size_update (word_of_nat (32 + v)) \<and>
    (word_of_nat (32 + v) :: u8) AND 0x1f \<noteq> 0x1f"
  by code_simp

lemma long_prefix: "h2_hpack_is_size_update 0x3f" "(0x3f :: u8) AND 0x1f = 0x1f"
  by code_simp+

lemma skip_one:
  assumes d: "drop i w = hpack_size_update v @ r" and "v < 2 ^ 32"
    and "i + length (hpack_size_update v) \<le> have" and "have \<le> 16" and "length w = 16"
  shows "skip_size_update w have i = Some (i + length (hpack_size_update v))"
proof (cases "v < 31")
  case True
  then have upd: "hpack_size_update v = [word_of_nat (32 + v)]" by (simp add: hpack_size_update_def)
  then have "w ! i = word_of_nat (32 + v)"
    using d drop_ConsD(2)[of i w] by simp
  then show ?thesis
    using assms upd update_prefix[rule_format, OF True]
    by (simp add: skip_size_update_def h2_hpack_size_update_len_def k_h2_hpack_opener_window_def)
next
  case False
  then have upd: "hpack_size_update v = 0x3f # hpack_cont (v - 31)" by (simp add: hpack_size_update_def)
  have k5: "length (hpack_cont (v - 31)) \<le> 5"
    using assms(2) by (intro hpack_cont_length) auto
  have "w ! i = 0x3f"
    using d upd drop_ConsD(2)[of i w] by simp
  moreover have "drop (i + 1) w = hpack_cont (v - 31) @ r"
    using d upd drop_ConsD(3)[of i w] by simp
  then have "size_update_octets w i have 1 = Some (1 + length (hpack_cont (v - 31)) - 1)"
    using k5 assms(3-5) upd by (intro size_update_octets_cont) auto
  ultimately show ?thesis
    using assms upd long_prefix
    by (simp add: skip_size_update_def h2_hpack_size_update_len_def k_h2_hpack_opener_window_def)
qed

lemma skip_none:
  assumes "drop i w = b # r" and "\<not> h2_hpack_is_size_update b" and "length w = 16"
  shows "skip_size_update w have i = Some i"
proof -
  have i: "i < 16" and "w ! i = b"
    using assms drop_ConsD(1,2)[of i w b r] by simp_all
  with assms i show ?thesis by (simp add: skip_size_update_def k_h2_hpack_opener_window_def)
qed

text \<open>
  For a block that opens with at most two dynamic table size updates of any 32-bit value in
  the HPACK integer encoding, the offset returned is exactly the length of those updates, with
  no read outside the window.
\<close>

lemma skip_size_updates_correct:
  assumes "w = concat (map hpack_size_update vs) @ b # r" and "length w = 16"
    and "length vs \<le> 2" and "\<forall>v \<in> set vs. v < 2 ^ 32" and "\<not> h2_hpack_is_size_update b"
    and "have \<le> 16" and "length (concat (map hpack_size_update vs)) < have"
  shows "h2_hpack_skip_size_updates w have = Some (length (concat (map hpack_size_update vs)))"
proof -
  consider "vs = []" | v where "vs = [v]" | v v' where "vs = [v, v']"
    using assms(3) by (cases vs; cases "tl vs") auto
  then show ?thesis
  proof cases
    case 1
    then show ?thesis using assms skip_none[of 0 w b r] by (simp add: h2_hpack_skip_size_updates_def)
  next
    case 2
    let ?n = "length (hpack_size_update v)"
    have "skip_size_update w have 0 = Some (0 + ?n)"
      using assms 2 by (intro skip_one[of 0 w v "b # r"]) auto
    moreover have "skip_size_update w have ?n = Some ?n"
      using assms 2 by (intro skip_none[of ?n w b r]) auto
    ultimately show ?thesis using 2 by (simp add: h2_hpack_skip_size_updates_def)
  next
    case 3
    let ?n = "length (hpack_size_update v)"
    have "skip_size_update w have 0 = Some (0 + ?n)"
      using assms 3 by (intro skip_one[of 0 w v "hpack_size_update v' @ b # r"]) auto
    moreover have "skip_size_update w have ?n = Some (?n + length (hpack_size_update v'))"
      using assms 3 by (intro skip_one[of ?n w v' "b # r"]) auto
    ultimately show ?thesis using 3 by (simp add: h2_hpack_skip_size_updates_def)
  qed
qed

lemma skip_size_updates_correct_example:
  "h2_hpack_skip_size_updates ([0x3f, 0xe1, 0x1f, 0x20, 0x82] @ replicate 11 0) 16 = Some 4"
proof -
  have "concat (map hpack_size_update [4096, 0]) = [0x3f, 0xe1, 0x1f, 0x20]" by code_simp
  moreover have "\<not> h2_hpack_is_size_update 0x82" by code_simp
  ultimately show ?thesis
    using skip_size_updates_correct[of _ "[4096, 0]" "0x82" "replicate 11 0" 16] by simp
qed

lemma openers_disjoint: "\<not> (h2_hpack_opens_request b \<and> h2_hpack_opens_response b)"
  unfolding h2_hpack_opens_request_def h2_hpack_opens_response_def Let_def
  by (auto simp: word_le_nat_alt word_less_nat_alt)

subsection \<open>The frame reader\<close>

lemma list9: "length d = 9 \<Longrightarrow> d = [d!0, d!1, d!2, d!3, d!4, d!5, d!6, d!7, d!8]"
  by (rule nth_equalityI) (auto simp: numeral_eq_Suc less_Suc_eq)

lemma frame_len_eq:
  assumes "length d = 9"
  shows "take_bit 24 (bswap32 (push_bit 8 (le_word (take 3 d) :: u32))) = h2_frame_payload_len d"
proof -
  have "take 3 d = [d!0, d!1, d!2]" by (subst list9[OF assms]) simp
  then have "le_word (take 3 d) = (ucast (d!0) OR push_bit 8 (ucast (d!1)) OR push_bit 16 (ucast (d!2)) :: u32)"
    by (simp add: le_word_def be_word_def ac_simps)
  then have "push_bit 8 (le_word (take 3 d)) = (ucast (0::u8) OR push_bit 8 (ucast (d!0)) OR push_bit 16 (ucast (d!1)) OR push_bit 24 (ucast (d!2)) :: u32)"
    by (simp add: ac_simps)
  then have "bswap32 (push_bit 8 (le_word (take 3 d) :: u32)) = be_word [0, d!0, d!1, d!2]"
    unfolding bswap32_def by (simp only: le_bytes32_pack)
  also have "\<dots> = h2_frame_payload_len d"
    by (simp add: be_word_def h2_frame_payload_len_def ac_simps)
  finally show ?thesis
    unfolding h2_frame_payload_len_def
    by (simp only:) (rule bit_word_eqI; auto simp: bit_simps dest: bit_imp_le_length)
qed


lemma low_bit: "push_bit 1 (drop_bit 1 (x OR y)) = push_bit 1 (drop_bit 1 x) OR push_bit 1 (drop_bit 1 (y::u32))"
  by (simp only: drop_bit_or push_bit_or)

lemma stream_id_eq:
  assumes "length d = 9"
  shows "take_bit 31 (bswap32 (push_bit 1 (drop_bit 1 (le_word (take 4 (drop 5 d)) :: u32)))) =
    h2_frame_stream_id d AND NOT (push_bit 24 1)"
proof -
  have t: "take 4 (drop 5 d) = [d!5, d!6, d!7, d!8]" by (subst list9[OF assms]) simp
  have le: "le_word (take 4 (drop 5 d)) = (ucast (d!5) OR push_bit 8 (ucast (d!6)) OR
      push_bit 16 (ucast (d!7)) OR push_bit 24 (ucast (d!8)) :: u32)"
    unfolding t by (simp add: le_word_def be_word_def ac_simps)
  have sh: "j \<le> k \<Longrightarrow> push_bit j (drop_bit j (push_bit k x)) = push_bit k (x :: u32)" for j k x
    by (rule bit_word_eqI) (auto simp: bit_simps)
  have first: "push_bit j (drop_bit j (ucast a)) = (ucast (push_bit j (drop_bit j a)) :: u32)" for j and a :: u8
    by (rule bit_word_eqI) (auto simp: bit_simps dest: bit_imp_le_length)
  define a where "a = push_bit 1 (drop_bit 1 (d!5))"
  have "bit (push_bit j (drop_bit j x)) n \<longleftrightarrow> j \<le> n \<and> bit x n" for j n and x :: u8
    by (auto simp: bit_simps dest: bit_imp_le_length)
  then have A: "bit a n \<longleftrightarrow> 1 \<le> n \<and> bit (d!5) n" for n
    unfolding a_def .
  have "push_bit 1 (drop_bit 1 (le_word (take 4 (drop 5 d)))) =
    (ucast a OR push_bit 8 (ucast (d!6)) OR push_bit 16 (ucast (d!7)) OR push_bit 24 (ucast (d!8)) :: u32)"
    unfolding le a_def first[symmetric] low_bit
    by (simp only: sh[of 1 8] sh[of 1 16] sh[of 1 24])
  then have "bswap32 (push_bit 1 (drop_bit 1 (le_word (take 4 (drop 5 d)) :: u32))) = be_word [a, d!6, d!7, d!8]"
    unfolding bswap32_def by (simp only: le_bytes32_pack)
  also have "\<dots> = (push_bit 24 (ucast a) OR (push_bit 16 (ucast (d!6)) OR push_bit 8 (ucast (d!7)) OR ucast (d!8)) :: u32)"
    by (simp add: be_word_def ac_simps)
  finally have L: "bswap32 (push_bit 1 (drop_bit 1 (le_word (take 4 (drop 5 d)) :: u32))) =
     (push_bit 24 (ucast a) OR (push_bit 16 (ucast (d!6)) OR push_bit 8 (ucast (d!7)) OR ucast (d!8)) :: u32)" .
  have "NOT 0x80 = (mask 7 :: u8)" by code_simp
  then have m: "x AND NOT 0x80 = take_bit 7 x" for x :: u8
    by (simp only: take_bit_eq_mask)
  define R :: u32 where "R = push_bit 16 (ucast (d!6)) OR push_bit 8 (ucast (d!7)) OR ucast (d!8)"
  have R: "bit R n \<Longrightarrow> n < 24" for n
    unfolding R_def by (auto simp: bit_simps dest: bit_imp_le_length)
  have "h2_frame_stream_id d = push_bit 24 (ucast (take_bit 7 (d!5))) OR R"
    unfolding h2_frame_stream_id_def m R_def by (simp only: or.assoc)
  moreover define c :: u32 where "c = push_bit 24 1"
  then have C: "bit c n \<longleftrightarrow> n = 24" for n
    by (auto simp only: bit_push_bit_iff bit_1_iff) simp_all
  ultimately show ?thesis
    unfolding L R_def[symmetric] c_def[symmetric]
    by (simp only:) (rule bit_word_eqI; auto simp: bit_simps A C dest: bit_imp_le_length R)
qed

text \<open>
  C40: the frame header reader accepts a non-empty frame of a known type, and yields its exact
  payload length, type and flags; but the stream id it yields has bit 24 cleared, because the
  reserved-bit field overlays the lowest bit of the most significant byte.
\<close>

theorem frame_reader_fields:
  assumes "length d = 9" and "9 \<le> len" and "le_word (take 3 d) \<noteq> (0 :: u32)" and "d ! 3 \<le> 9"
  shows "read_http2_grpc_frame_header frame d len =
     Some (\<lparr>fh_length = h2_frame_payload_len d, fh_type = d ! 3, fh_flags = d ! 4,
            fh_stream_id = h2_frame_stream_id d AND NOT (push_bit 24 1)\<rparr>, True)"
  using assms frame_len_eq[OF assms(1)] stream_id_eq[OF assms(1)]
  by (simp add: read_http2_grpc_frame_header_def raw_frame_header_def k_h2_frame_header_len_def Let_def)

theorem frame_reader_fields_witness:
  "h2_frame_stream_id [0, 0, 5, 1, 4, 1, 0, 0, 3] = 0x01000003 \<and>
   (\<forall>frame. read_http2_grpc_frame_header frame [0, 0, 5, 1, 4, 1, 0, 0, 3] 9 =
     Some (\<lparr>fh_length = 5, fh_type = 1, fh_flags = 4, fh_stream_id = 3\<rparr>, True))"
proof -
  have "h2_frame_stream_id [0, 0, 5, 1, 4, 1, 0, 0, 3] = 0x01000003"
    and "h2_frame_stream_id [0, 0, 5, 1, 4, 1, 0, 0, 3] AND NOT (push_bit 24 1) = 3"
    and "h2_frame_payload_len [0, 0, 5, 1, 4, 1, 0, 0, 3] = 5"
    and "le_word (take 3 [0, 0, 5, 1, 4, 1, 0, 0, 3]) \<noteq> (0 :: u32)"
    by code_simp+
  then show ?thesis
    using frame_reader_fields[of "[0, 0, 5, 1, 4, 1, 0, 0, 3]" 9] by simp
qed

end
