(* ===== verification/Http_Requests.thy ===== *)
theory Http_Requests
  imports Tcp_Requests H2_Frames
begin

section \<open>HTTP requests\<close>

text \<open>
  Models \<open>bpf/generictracer/protocol_http.h\<close>, \<open>bpf/generictracer/http_event.h\<close>,
  \<open>bpf/generictracer/http_server_trace.h\<close>, the reservations of
  \<open>bpf/generictracer/maps/java_http1_requests.h\<close> and the records they use: how the record of an
  HTTP request is created, given its trace context, completed by its response and reported.

  A record is the entry of its connection in \<open>ongoing_http\<close>; a pointer to it is the key, and a write
  through the pointer updates the entry. A tail call runs the program it names, with the arguments
  that the caller left in the per-CPU argument record. Programs of other CPUs do not run in between.
\<close>

unbundle bit_operations_syntax

subsection \<open>State and environment\<close>

definition k_event_type_k_http_request :: u8 where "k_event_type_k_http_request = 6"
definition MIN_HTTP_SIZE :: nat where "MIN_HTTP_SIZE = 12"
definition RESPONSE_STATUS_POS :: nat where "RESPONSE_STATUS_POS = 9"
definition MAX_HTTP_STATUS :: u16 where "MAX_HTTP_STATUS = 599"
definition k_large_buf_max_batches :: nat where "k_large_buf_max_batches = 4"
definition k_large_buf_max_http_captured_bytes :: u32 where "k_large_buf_max_http_captured_bytes = 2 ^ 18"
definition k_java_http1_owned_bit :: nat where "k_java_http1_owned_bit = 63"
definition k_java_http1_reserve_attempts :: nat where "k_java_http1_reserve_attempts = 16"

text \<open>The size of an \<open>http_info_t\<close>.\<close>

definition sizeof_http_info :: u64 where "sizeof_http_info = 424"

record tracked_connection =
  tc_time :: u64
  tc_direction :: u8

record http_connection_metadata =
  cm_pid :: pid_info
  cm_type :: u8

record java_http1_request_data =
  jd_conn :: pid_connection_info
  jd_tp :: tp_info_pid
  jd_value_offset :: u32
  jd_parent_status :: parent_status

record java_http1_request =
  jr_state :: u64
  jr_data :: java_http1_request_data

record large_buf_emit_state =
  es_u_buf :: nat
  es_remaining_bytes :: u32
  es_pid_conn :: pid_connection_info
  es_batch_iter :: u8
  es_packet_type :: u8
  es_direction :: u8
  es_action :: large_buf_action

record protocol_selector =
  sel_http :: bool
  sel_http2 :: bool
  sel_tcp :: bool

text \<open>
  The arguments of the protocol programs. \<open>ca_bytes_len\<close> is positive as an \<open>int\<close>, \<open>ca_sock_ptr\<close> is the
  address of the socket or 0, and the parent id of a self referencing request is kept as its bytes.
\<close>

record call_protocol_args =
  ca_pid_conn :: pid_connection_info
  ca_protocol_type :: protocol_type
  ca_ssl :: u8
  ca_direction :: u8
  ca_packet_type :: u8
  ca_small_buf :: bytes
  ca_protocols :: protocol_selector
  ca_skip_tp_parsing :: bool
  ca_use_bpf_loop :: bool
  ca_wire_tp_found :: bool
  ca_bytes_len :: u32
  ca_orig_dport :: u16
  ca_u_buf :: nat
  ca_self_ref_parent_id :: bytes
  ca_sock_ptr :: u64
  ca_lw_thread :: u64

text \<open>
  The scratch records that hold no data between calls are represented by whether their lookup succeeds.
  \<open>tp_char_buf\<close> is the scratch buffer of \<open>TRACE_BUF_SIZE\<close> bytes. \<open>h2_cut_frames\<close> holds the HTTP/2 frames that
  were cut by the end of a read; \<open>hw_h2_info\<close>, \<open>hw_h2_cut\<close> and \<open>hw_h2_joined\<close> are the per-CPU record, cut
  frame and buffer the HTTP/2 programs work in.
\<close>

record h2_cut_frame =
  cf_skip :: u32
  cf_len :: u16
  cf_data :: bytes

record http_world =
  hw_tcp :: tcp_world
  hw_rt :: runtime_maps
  connection_tracker :: "connection_info \<rightharpoonup> tracked_connection"
  hw_active_ssl :: "pid_connection_info \<rightharpoonup> u64"
  java_http1_requests :: "u32 \<rightharpoonup> java_http1_request"
  java_http1_connections :: "pid_connection_info \<rightharpoonup> u64"
  java_http1_sequence :: "u64 option"
  hw_info_mem :: bool
  hw_meta_mem :: bool
  tp_char_buf :: "bytes option"
  emit_state :: "large_buf_emit_state option"
  h2_cut_frames :: "pid_connection_info \<rightharpoonup> h2_cut_frame"
  hw_grpc_mem :: bool
  hw_huff_mem :: bool
  hw_h2_info :: "http2_grpc_request option"
  hw_h2_cut :: "h2_cut_frame option"
  hw_h2_joined :: "bytes option"

text \<open>
  \<open>hv_sock\<close> gives the bytes sent and received counters of the socket at an address, \<open>hv_joined_at\<close> is the
  address of the buffer of joined reads, and \<open>hv_tail_calls\<close> is how many more tail calls the kernel allows
  when the HTTP/2 program starts.
\<close>

record http_env =
  hv_tcp :: tcp_env
  capture_header_buffer :: u32
  g_bpf_traceparent_enabled :: bool
  g_bpf_header_propagation :: bool
  g_bpf_java_http1_enabled :: bool
  java_http1_max_requests :: u32
  http_max_captured_bytes :: u32
  hv_sock :: "u64 \<Rightarrow> u64 \<times> u64"
  g_bpf_loop_enabled :: bool
  hv_joined_at :: nat
  hv_tail_calls :: nat

abbreviation h_env :: "http_env \<Rightarrow> trace_env" where "h_env v \<equiv> tv_trace (hv_tcp v)"
abbreviation h_cfg :: "http_env \<Rightarrow> trace_cfg" where "h_cfg v \<equiv> tv_cfg (hv_tcp v)"
abbreviation h_mem :: "http_env \<Rightarrow> mem" where "h_mem v \<equiv> tv_mem (hv_tcp v) k_large_buf_read_kernel"
abbreviation h_traces :: "http_world \<Rightarrow> trace_maps" where "h_traces w \<equiv> tw_traces (hw_tcp w)"
abbreviation h_ring :: "http_world \<Rightarrow> obi_event ring_buf" where "h_ring w \<equiv> pm_ring (tw_proto (hw_tcp w))"
abbreviation h_scratch :: "http_world \<Rightarrow> tp_info_pid option" where "h_scratch w \<equiv> tw_tp_info (hw_tcp w)"

text \<open>Updates of one part of the state.\<close>

definition put_traces :: "trace_maps \<Rightarrow> http_world \<Rightarrow> http_world" where
  "put_traces t w = w\<lparr>hw_tcp := (hw_tcp w)\<lparr>tw_traces := t\<rparr>\<rparr>"

definition put_scratch :: "tp_info_pid \<Rightarrow> http_world \<Rightarrow> http_world" where
  "put_scratch tp_p w = w\<lparr>hw_tcp := (hw_tcp w)\<lparr>tw_tp_info := Some tp_p\<rparr>\<rparr>"

definition put_proto :: "proto_maps \<Rightarrow> http_world \<Rightarrow> http_world" where
  "put_proto p w = w\<lparr>hw_tcp := (hw_tcp w)\<lparr>tw_proto := p\<rparr>\<rparr>"

definition http_at :: "http_world \<Rightarrow> pid_connection_info \<Rightarrow> http_info option" where
  "http_at w pid_conn = ongoing_http (hw_rt w) pid_conn"

definition put_http :: "pid_connection_info \<Rightarrow> http_info \<Rightarrow> http_world \<Rightarrow> http_world" where
  "put_http pid_conn info w = w\<lparr>hw_rt := (hw_rt w)\<lparr>ongoing_http := (ongoing_http (hw_rt w))(pid_conn \<mapsto> info)\<rparr>\<rparr>"

definition del_http :: "pid_connection_info \<Rightarrow> http_world \<Rightarrow> http_world" where
  "del_http pid_conn w = w\<lparr>hw_rt := (hw_rt w)\<lparr>ongoing_http := map_del pid_conn (ongoing_http (hw_rt w))\<rparr>\<rparr>"

text \<open>A write through a pointer to the record of a connection.\<close>

definition upd_http :: "pid_connection_info \<Rightarrow> (http_info \<Rightarrow> http_info) \<Rightarrow> http_world \<Rightarrow> http_world" where
  "upd_http pid_conn f w = (case http_at w pid_conn of None \<Rightarrow> w | Some info \<Rightarrow> put_http pid_conn (f info) w)"

definition http_now :: "http_env \<Rightarrow> http_world \<Rightarrow> u64 \<times> http_world" where
  "http_now v w = (case read_clock (h_env v) (h_traces w) of (t, tr) \<Rightarrow> (t, put_traces tr w))"

definition http_server_index_enabled :: "http_env \<Rightarrow> bool" where
  "http_server_index_enabled v \<longleftrightarrow> capture_header_buffer v \<noteq> 0"

definition connection_meta_by_direction :: "http_env \<Rightarrow> http_world \<Rightarrow> u8 \<Rightarrow> u8 \<Rightarrow> http_connection_metadata option" where
  "connection_meta_by_direction v w direction packet_type =
     (if hw_meta_mem w
      then Some \<lparr>cm_pid = task_pid (en_task (h_env v)), cm_type = request_type_by_direction direction packet_type\<rparr>
      else None)"

definition zero_http_info :: http_info where
  "zero_http_info = \<lparr>hi_flags = 0, hi_type = 0, hi_ssl = 0, hi_delayed = 0, hi_conn_info = zero_conn,
     hi_start_monotime_ns = 0, hi_end_monotime_ns = 0, hi_req_monotime_ns = 0, hi_extra_id = 0,
     hi_response_bytes_at_request = 0, hi_tp = zero_tp, hi_pid = \<lparr>pi_host_pid = 0, pi_user_pid = 0, pi_ns = 0\<rparr>,
     hi_len = 0, hi_resp_len = 0, hi_task_tid = 0, hi_lb_req_bytes = 0, hi_lb_res_bytes = 0, hi_status = 0,
     hi_buf = replicate FULL_BUF_SIZE 0, hi_has_large_buffers = 0, hi_direction = 0, hi_submitted = 0,
     hi_parent_status = k_parent_status_none, hi_event_source = 0, hi_response_observation = http_response_parsed\<rparr>"

definition empty_http_info :: "http_world \<Rightarrow> http_info option" where
  "empty_http_info w = (if hw_info_mem w then Some zero_http_info else None)"

definition trace_type_from_meta :: "http_connection_metadata \<Rightarrow> u32" where
  "trace_type_from_meta meta = (if cm_type meta = k_event_type_http_client then TRACE_TYPE_CLIENT else TRACE_TYPE_SERVER)"

text \<open>Whether a buffer starts an HTTP message, and which: a status line or a request.\<close>

definition is_http :: "bytes \<Rightarrow> nat \<Rightarrow> (bool \<times> u8) option" where
  "is_http p len =
     (if len < MIN_HTTP_SIZE then Some (False, 0)
      else do {
        r \<leftarrow> match_seq (map (\<lambda>c v. v = c) (ascii ''HTTP/1.'')) p 0;
        if r then Some (True, PACKET_TYPE_RESPONSE)
        else do {
          q \<leftarrow> is_http_request_buf p;
          Some (if q then (True, PACKET_TYPE_REQUEST) else (False, 0)) }})"

definition http_will_complete :: "http_env \<Rightarrow> http_info \<Rightarrow> nat \<Rightarrow> u32 \<Rightarrow> bool" where
  "http_will_complete v info buf len =
     (hi_start_monotime_ns info \<noteq> 0 \<and>
      is_http (probe_read_z (h_mem v) buf MIN_HTTP2_SIZE) (unat len) = Some (True, PACKET_TYPE_RESPONSE))"

text \<open>The clock is read whatever the record holds.\<close>

definition is_duplicate_info :: "http_env \<Rightarrow> http_info \<Rightarrow> http_world \<Rightarrow> bool \<times> http_world" where
  "is_duplicate_info v info w =
     (let (ts, w) = http_now v w
      in (hi_start_monotime_ns info \<noteq> 0 \<and> hi_start_monotime_ns info \<le> ts \<and>
          current_immediate_epoch ts = current_immediate_epoch (hi_start_monotime_ns info), w))"

subsection \<open>Reporting a request\<close>

definition submit_http_event :: "http_env \<Rightarrow> pid_connection_info \<Rightarrow> http_world \<Rightarrow> http_world" where
  "submit_http_event v pid_conn w = (case http_at w pid_conn of
     None \<Rightarrow> w
   | Some info \<Rightarrow>
       if \<not> http_info_emittable info \<or> hi_submitted info \<noteq> 0 then w
       else let info = info\<lparr>hi_submitted := 1, hi_flags := k_event_type_k_http_request\<rparr>;
                w = put_http pid_conn info w;
                (_, rg) = events_ringbuf_output (tv_ring (hv_tcp v)) (HttpEvent info) sizeof_http_info (h_ring w)
            in put_proto ((tw_proto (hw_tcp w))\<lparr>pm_ring := rg\<rparr>) w)"

text \<open>The key of the thread that served a request, and its context if it still belongs to the request.\<close>

definition http_server_key :: "http_info \<Rightarrow> trace_key" where
  "http_server_key info = \<lparr>trk_extra_id = hi_extra_id info,
     trk_p_key = \<lparr>pk_tid = hi_task_tid info, pk_pid = pi_user_pid (hi_pid info), pk_ns = pi_ns (hi_pid info)\<rparr>\<rparr>"

definition http_server_thread_trace :: "http_info \<Rightarrow> trace_maps \<Rightarrow> tp_info_pid option" where
  "http_server_thread_trace info st = (case server_traces st (http_server_key info) of
     None \<Rightarrow> None
   | Some existing \<Rightarrow>
       if tp_trace_id (tpp_tp existing) \<noteq> tp_trace_id (hi_tp info) \<or> tp_span_id (tpp_tp existing) \<noteq> tp_span_id (hi_tp info)
       then None else Some existing)"

definition cleanup_http_server_thread_trace_for_key :: "http_info \<Rightarrow> trace_key \<Rightarrow> trace_maps \<Rightarrow> trace_maps" where
  "cleanup_http_server_thread_trace_for_key info current_key st =
     (if http_server_thread_trace info st = None then st
      else if hi_delayed info \<noteq> 0 \<and> current_key \<noteq> http_server_key info then st
      else st\<lparr>server_traces := map_del (http_server_key info) (server_traces st)\<rparr>)"

definition zero_trace_key :: trace_key where
  "zero_trace_key = \<lparr>trk_extra_id = 0, trk_p_key = \<lparr>pk_tid = 0, pk_pid = 0, pk_ns = 0\<rparr>\<rparr>"

definition cleanup_http_server_thread_trace ::
  "http_env \<Rightarrow> http_info \<Rightarrow> trace_key option \<Rightarrow> http_world \<Rightarrow> http_world" where
  "cleanup_http_server_thread_trace v info current_key w =
     (let key = (case current_key of Some k \<Rightarrow> k
            | None \<Rightarrow> if hi_delayed info \<noteq> 0 then trace_key_from_pid_tid (h_env v) (hw_rt w) else zero_trace_key)
      in put_traces (cleanup_http_server_thread_trace_for_key info key (h_traces w)) w)"

definition cleanup_incomplete_http_server_thread_trace ::
  "http_env \<Rightarrow> http_info \<Rightarrow> trace_key option \<Rightarrow> http_world \<Rightarrow> http_world" where
  "cleanup_incomplete_http_server_thread_trace v info current_key w =
     (if hi_type info = k_event_type_http_request \<and> \<not> http_info_complete info
      then cleanup_http_server_thread_trace v info current_key w else w)"

definition cleanup_http_info :: "pid_connection_info \<Rightarrow> http_world \<Rightarrow> http_world" where
  "cleanup_http_info pid_conn w = del_http pid_conn w"

definition cleanup_http_server_response_data ::
  "http_env \<Rightarrow> pid_connection_info \<Rightarrow> http_info \<Rightarrow> trace_maps \<Rightarrow> trace_maps" where
  "cleanup_http_server_response_data v pid_conn info st =
     (let st = delete_trace_info_for_connection (pc_conn pid_conn) TRACE_TYPE_SERVER st
      in if hi_task_tid info AND JAVA_VT_TID_FLAG = 0 then obi_ctx_del (h_cfg v) (en_pid_tgid (h_env v)) st else st)"

definition mark_http_server_thread_trace_response_sent :: "http_info \<Rightarrow> trace_maps \<Rightarrow> trace_maps" where
  "mark_http_server_thread_trace_response_sent info st = (case http_server_thread_trace info st of
     None \<Rightarrow> st
   | Some existing \<Rightarrow>
       if tpp_valid existing \<noteq> 0
       then st\<lparr>server_traces := (server_traces st)(http_server_key info \<mapsto> existing\<lparr>tpp_response_sent := 1\<rparr>)\<rparr>
       else st\<lparr>server_traces := map_del (http_server_key info) (server_traces st)\<rparr>)"

definition finish_http :: "http_env \<Rightarrow> pid_connection_info \<Rightarrow> trace_key option \<Rightarrow> http_world \<Rightarrow> http_world" where
  "finish_http v pid_conn current_key w = (case http_at w pid_conn of
     None \<Rightarrow> w
   | Some info \<Rightarrow>
       if \<not> http_info_emittable info then w
       else let w = submit_http_event v pid_conn w;
                w = (if hi_type info = k_event_type_http_request
                     then let w = cleanup_http_server_thread_trace v info current_key w
                          in if http_server_index_enabled v
                             then put_traces (unindex_http_server_trace (pc_pid pid_conn) (hi_tp info) (h_traces w)) w
                             else w
                     else w);
                w = (if hi_delayed info \<noteq> 0 then del_http pid_conn w else w)
            in w\<lparr>hw_active_ssl := map_del pid_conn (hw_active_ssl w)\<rparr>)"

definition http_response_bytes_from_sock :: "http_env \<Rightarrow> u64 \<Rightarrow> u8 \<Rightarrow> u64" where
  "http_response_bytes_from_sock v sk type =
     (if sk = 0 then 0
      else if type = k_event_type_http_request then fst (hv_sock v sk) else snd (hv_sock v sk))"

definition force_finish_http ::
  "http_env \<Rightarrow> pid_connection_info \<Rightarrow> trace_key option \<Rightarrow> u64 \<Rightarrow> http_world \<Rightarrow> http_world" where
  "force_finish_http v pid_conn current_key response_bytes w = (case http_at w pid_conn of
     None \<Rightarrow> w
   | Some info \<Rightarrow>
       if hi_submitted info \<noteq> 0 then w
       else let w = (if high_request_volume (h_cfg v) = 0 \<and> \<not> http_info_complete info \<and>
                        hi_response_observation info = http_response_parsed
                     then let (t, w) = http_now v w
                          in put_http pid_conn (info\<lparr>hi_resp_len := 0, hi_end_monotime_ns := t,
                               hi_response_observation := http_response_observation_at_close
                                 (hi_response_bytes_at_request info) response_bytes\<rparr>) w
                     else w)
            in finish_http v pid_conn current_key w)"

definition update_http_sent_len :: "pid_connection_info \<Rightarrow> u32 \<Rightarrow> http_world \<Rightarrow> http_world" where
  "update_http_sent_len pid_conn sent_len w =
     upd_http pid_conn (\<lambda>info. info\<lparr>hi_resp_len := hi_resp_len info + sent_len\<rparr>) w"

text \<open>The next request of a connection displaces the record of the one before it.\<close>

definition displace_http_info ::
  "http_env \<Rightarrow> pid_connection_info \<Rightarrow> u8 \<Rightarrow> u64 \<Rightarrow> http_world \<Rightarrow> bool \<times> http_world" where
  "displace_http_info v pid_conn req_type sk w = (case http_at w pid_conn of
     None \<Rightarrow> (False, w)
   | Some old_info \<Rightarrow>
       if hi_submitted old_info \<noteq> 0 then (False, w)
       else if \<not> http_info_complete old_info
       then let (dup, w) = (if hi_type old_info = req_type \<and>
                   http_response_pending old_info (http_response_bytes_from_sock v sk (hi_type old_info))
                 then is_duplicate_info v old_info w else (False, w))
            in if dup then (True, w)
               else let w = cleanup_incomplete_http_server_thread_trace v old_info None w;
                        (t, w) = http_now v w;
                        w = put_http pid_conn (note_displaced_by_next_request old_info t) w
                    in (False, finish_http v pid_conn None w)
       else (False, finish_http v pid_conn None w))"

definition get_or_set_http_info ::
  "http_env \<Rightarrow> http_info \<Rightarrow> pid_connection_info \<Rightarrow> u8 \<Rightarrow> u8 \<Rightarrow> u64 \<Rightarrow> http_world \<Rightarrow> bool \<times> http_world" where
  "get_or_set_http_info v info pid_conn packet_type direction sk w =
     (if packet_type = PACKET_TYPE_REQUEST
      then let w = w\<lparr>hw_tcp := cleanup_tcp_trace_info_if_needed ((hv_tcp v)\<lparr>tv_rt := hw_rt w\<rparr>) pid_conn (hw_tcp w)\<rparr>;
               (dup, w) = displace_http_info v pid_conn (request_type_by_direction direction packet_type) sk w
           in if dup then (False, w) else (True, put_http pid_conn info w)
      else (http_at w pid_conn \<noteq> None, w))"

definition self_referencing_request :: "pid_connection_info \<Rightarrow> u8 \<Rightarrow> http_world \<Rightarrow> tp_info option" where
  "self_referencing_request pid_conn packet_type w =
     (if packet_type = PACKET_TYPE_REQUEST
      then (case http_at w pid_conn of None \<Rightarrow> None
        | Some old_info \<Rightarrow> if \<not> http_info_complete old_info \<and> hi_type old_info = k_event_type_http_client
            then Some (hi_tp old_info) else None)
      else None)"

definition finish_possible_delayed_http_request :: "http_env \<Rightarrow> pid_connection_info \<Rightarrow> http_world \<Rightarrow> http_world" where
  "finish_possible_delayed_http_request v pid_conn w = (case http_at w pid_conn of
     None \<Rightarrow> w
   | Some info \<Rightarrow> if hi_delayed info \<noteq> 0 then finish_http v pid_conn None w else w)"

definition force_finish_possible_delayed_http_request ::
  "http_env \<Rightarrow> pid_connection_info \<Rightarrow> trace_key option \<Rightarrow> u64 \<Rightarrow> http_world \<Rightarrow> http_world" where
  "force_finish_possible_delayed_http_request v pid_conn current_key sk w =
     (let w = (case http_at w pid_conn of None \<Rightarrow> w
            | Some info \<Rightarrow>
                let w = cleanup_incomplete_http_server_thread_trace v info current_key w
                in if hi_delayed info \<noteq> 0 then finish_http v pid_conn current_key w
                   else force_finish_http v pid_conn current_key (http_response_bytes_from_sock v sk (hi_type info)) w)
      in cleanup_http_info pid_conn w)"

definition terminate_http_request_if_needed ::
  "http_env \<Rightarrow> pid_connection_info \<Rightarrow> trace_key option \<Rightarrow> http_world \<Rightarrow> http_world" where
  "terminate_http_request_if_needed v pid_conn current_key w =
     (let w = (case http_at w pid_conn of None \<Rightarrow> w
            | Some info \<Rightarrow>
                if hi_type info = k_event_type_http_request
                then cleanup_http_server_thread_trace v info current_key
                       (put_traces (cleanup_http_server_response_data v pid_conn info (h_traces w)) w)
                else put_traces (delete_client_trace_info (h_env v) (h_cfg v) (hw_rt w) pid_conn (h_traces w)) w)
      in w\<lparr>hw_active_ssl := map_del pid_conn (hw_active_ssl w)\<rparr>)"

subsection \<open>Requests and responses\<close>

definition process_http_request ::
  "http_env \<Rightarrow> call_protocol_args \<Rightarrow> http_connection_metadata option \<Rightarrow> http_info \<Rightarrow> http_world \<Rightarrow> http_info \<times> http_world" where
  "process_http_request v args meta info w =
     (let info = (case meta of
            Some m \<Rightarrow> info\<lparr>hi_pid := cm_pid m, hi_type := cm_type m\<rparr>
          | None \<Rightarrow> info\<lparr>hi_type := (if ca_direction args = TCP_RECV then k_event_type_http_request else k_event_type_http_client),
                        hi_pid := task_pid (en_task (h_env v))\<rparr>);
          info = info\<lparr>hi_conn_info := fixup_connection_info (hi_conn_info info)
            (if hi_type info = k_event_type_http_client then 1 else 0) (ca_orig_dport args)\<rparr>;
          (start_time, w) = http_now v w;
          t_conn = connection_tracker w (hi_conn_info info);
          req_time = (case t_conn of None \<Rightarrow> start_time
            | Some t \<Rightarrow> if tc_time t \<noteq> 0 then tc_time t else start_time);
          start_time = (case t_conn of None \<Rightarrow> start_time
            | Some t \<Rightarrow> if tc_time t \<noteq> 0 \<and> hi_type info = k_event_type_http_client then req_time else start_time);
          w = w\<lparr>connection_tracker := (connection_tracker w)(hi_conn_info info := map_option (\<lambda>t. t\<lparr>tc_time := 0\<rparr>) t_conn)\<rparr>;
          (_, self_key) = java_vt_translate_tid (hw_rt w) (task_tid (en_task (h_env v)))
      in (info\<lparr>hi_start_monotime_ns := start_time, hi_req_monotime_ns := req_time, hi_status := 0, hi_submitted := 0,
            hi_response_observation := http_response_parsed,
            hi_response_bytes_at_request := http_response_bytes_from_sock v (ca_sock_ptr args) (hi_type info),
            hi_len := ca_bytes_len args, hi_event_source := event_source (ca_lw_thread args),
            hi_extra_id := extra_runtime_id (h_env v) (hw_rt w), hi_task_tid := pk_tid self_key\<rparr>, w))"

text \<open>The status is computed in \<open>int\<close> and stored in 16 bits.\<close>

definition http_status :: "bytes \<Rightarrow> u16" where
  "http_status buf =
     (let status = (ucast (buf ! RESPONSE_STATUS_POS) - 0x30) * 100 + (ucast (buf ! (RESPONSE_STATUS_POS + 1)) - 0x30) * 10
            + (ucast (buf ! (RESPONSE_STATUS_POS + 2)) - 0x30)
      in if status = 100 \<or> status = 103 \<or> status > MAX_HTTP_STATUS then 0 else status)"

definition process_http_response :: "http_env \<Rightarrow> bytes \<Rightarrow> http_info \<Rightarrow> http_world \<Rightarrow> http_info \<times> http_world" where
  "process_http_response v buf info w =
     (let (t, w) = http_now v w
      in (info\<lparr>hi_resp_len := 0, hi_end_monotime_ns := t, hi_response_observation := http_response_parsed,
               hi_status := http_status buf\<rparr>, w))"

definition handle_http_response ::
  "http_env \<Rightarrow> bytes \<Rightarrow> pid_connection_info \<Rightarrow> u64 \<Rightarrow> http_world \<Rightarrow> http_world" where
  "handle_http_response v small_buf pid_conn lw_thread w = (case http_at w pid_conn of
     None \<Rightarrow> w
   | Some info \<Rightarrow>
       let (info, w) = process_http_response v small_buf info w;
           w = put_http pid_conn info w;
           server = (hi_type info = k_event_type_http_request);
           w = put_traces (if server then cleanup_http_server_response_data v pid_conn info (h_traces w)
                 else delete_client_trace_info (h_env v) (h_cfg v) (hw_rt w) pid_conn (h_traces w)) w;
           eager = (high_request_volume (h_cfg v) \<noteq> 0 \<and> hi_ssl info = 0)
       in if lw_thread \<noteq> k_lw_thread_none
          then let w = finish_http v pid_conn None w
               in put_traces (delete_go_trace_info lw_thread (pc_pid pid_conn) (h_traces w)) w
          else if server
          then let w = put_http pid_conn (info\<lparr>hi_delayed := 1\<rparr>) w;
                   w = put_traces (mark_http_server_thread_trace_response_sent info (h_traces w)) w
               in if eager then submit_http_event v pid_conn w else w
          else if eager then finish_http v pid_conn None w
          else put_http pid_conn (info\<lparr>hi_delayed := 1\<rparr>) w)"

subsection \<open>Payload of HTTP messages\<close>

text \<open>
  The program that ships one batch of chunks and calls itself for the next one, with the number of batches
  it may still ship.
\<close>

definition fill_http_large_buffer :: "large_buf_emit_state \<Rightarrow> http_info \<Rightarrow> tcp_large_buffer \<Rightarrow> tcp_large_buffer" where
  "fill_http_large_buffer s info lb =
     lb\<lparr>lb_type := k_event_type_tcp_large_buffer, lb_packet_type := es_packet_type s, lb_direction := es_direction s,
        lb_conn_info := hi_conn_info info,
        lb_action := (if es_batch_iter s = 0 then es_action s else k_large_buf_action_append),
        lb_kind := k_large_buf_layer_app, lb_tp := hi_tp info, lb_source := k_large_buffer_source_kprobes\<rparr>"

definition count_http_captured :: "u8 \<Rightarrow> u32 \<Rightarrow> http_info \<Rightarrow> http_info" where
  "count_http_captured packet_type consumed info =
     (if consumed > 0
      then let info = info\<lparr>hi_has_large_buffers := 1\<rparr>
           in if packet_type = PACKET_TYPE_REQUEST then info\<lparr>hi_lb_req_bytes := hi_lb_req_bytes info + consumed\<rparr>
              else info\<lparr>hi_lb_res_bytes := hi_lb_res_bytes info + consumed\<rparr>
      else info)"

primrec obi_large_buf_emit_continue :: "nat \<Rightarrow> http_env \<Rightarrow> http_world \<Rightarrow> http_world" where
  "obi_large_buf_emit_continue 0 v w = w"
| "obi_large_buf_emit_continue (Suc n) v w = (case emit_state w of
     None \<Rightarrow> w
   | Some s \<Rightarrow>
       if es_remaining_bytes s = 0 then w
       else case http_at w (es_pid_conn s) of
         None \<Rightarrow> w
       | Some info \<Rightarrow> (case tcp_large_buffers (tw_proto (hw_tcp w)) of
           None \<Rightarrow> w
         | Some lb \<Rightarrow>
             let (consumed, p) = emit_from_scratch (tv_ring (hv_tcp v)) (tv_mem (hv_tcp v)) (fill_http_large_buffer s info lb)
                   (es_u_buf s) (es_remaining_bytes s) (tw_proto (hw_tcp w));
                 w = put_http (es_pid_conn s) (count_http_captured (es_packet_type s) consumed info) (put_proto p w);
                 s = s\<lparr>es_u_buf := es_u_buf s + unat consumed, es_remaining_bytes := es_remaining_bytes s - consumed,
                       es_batch_iter := es_batch_iter s + 1\<rparr>;
                 w = w\<lparr>emit_state := Some s\<rparr>
             in if es_remaining_bytes s > 0 \<and> consumed > 0 \<and> unat (es_batch_iter s) < k_large_buf_max_batches
                then obi_large_buf_emit_continue n v w else w))"

definition http_send_large_buffer ::
  "http_env \<Rightarrow> pid_connection_info \<Rightarrow> nat \<Rightarrow> u32 \<Rightarrow> u8 \<Rightarrow> u8 \<Rightarrow> large_buf_action \<Rightarrow> http_world \<Rightarrow> http_world" where
  "http_send_large_buffer v pid_conn u_buf bytes_len packet_type direction action w = (case http_at w pid_conn of
     None \<Rightarrow> w
   | Some req \<Rightarrow>
       let limit = http_max_captured_bytes v;
           sent = (if packet_type = PACKET_TYPE_REQUEST then hi_lb_req_bytes req else hi_lb_res_bytes req)
       in if limit = 0 \<or> sent \<ge> limit \<or> bytes_len = 0 then w
          else let max_available = bpf_clamp_umax (limit - sent) k_large_buf_max_http_captured_bytes
               in case emit_state w of
                    None \<Rightarrow> w
                  | Some s \<Rightarrow>
                      obi_large_buf_emit_continue k_large_buf_max_batches v (w\<lparr>emit_state := Some (s\<lparr>es_u_buf := u_buf,
                        es_remaining_bytes := min bytes_len max_available, es_pid_conn := pid_conn, es_batch_iter := 0,
                        es_packet_type := packet_type, es_direction := direction, es_action := action\<rparr>)\<rparr>))"

subsection \<open>The context of a request\<close>

text \<open>The end of the chain of programs that handles a request: the record is filled in.\<close>

definition obi_continue2_protocol_http :: "http_env \<Rightarrow> call_protocol_args \<Rightarrow> http_world \<Rightarrow> http_world" where
  "obi_continue2_protocol_http v args w = (case http_at w (ca_pid_conn args) of
     None \<Rightarrow> w
   | Some info \<Rightarrow>
       let meta = connection_meta_by_direction v w (ca_direction args) PACKET_TYPE_REQUEST;
           info = (case meta of None \<Rightarrow> info
             | Some m \<Rightarrow>
                 if valid_span (tp_span_id (hi_tp info)) then info
                 else case trace_map (h_traces w) (trace_key_from_conn (pc_conn (ca_pid_conn args)) (trace_type_from_meta m)) of
                     None \<Rightarrow> info
                   | Some tp_p \<Rightarrow>
                       let info = info\<lparr>hi_tp := tpp_tp tp_p\<rparr>
                       in if ca_self_ref_parent_id args = replicate 8 0 then info
                          else info\<lparr>hi_tp := (hi_tp info)\<lparr>tp_parent_id := ca_self_ref_parent_id args\<rparr>\<rparr>);
           info = read_request_buf info (h_mem v) (of_nat (ca_u_buf args)) (ca_bytes_len args);
           (info, w) = process_http_request v args meta info w;
           w = put_http (ca_pid_conn args) info w;
           w = (if http_server_index_enabled v
                then put_traces (index_http_server_trace (hw_rt w) (ca_pid_conn args) info (h_traces w)) w else w)
       in http_send_large_buffer v (ca_pid_conn args) (ca_u_buf args) (ca_bytes_len args) (ca_packet_type args)
            (ca_direction args) k_large_buf_action_init w)"

text \<open>The context in the per-CPU scratch becomes that of the connection and of the thread.\<close>

definition commit_http_tp ::
  "http_env \<Rightarrow> call_protocol_args \<Rightarrow> http_connection_metadata option \<Rightarrow> tp_info_pid \<Rightarrow> http_world \<Rightarrow> http_world" where
  "commit_http_tp v args meta tp_p w = (case meta of
     None \<Rightarrow> put_scratch tp_p w
   | Some m \<Rightarrow>
       let st = set_trace_info_for_connection (pc_conn (ca_pid_conn args)) (trace_type_from_meta m) tp_p (h_traces w);
           (tp_p, st) = server_or_client_trace (h_env v) (h_cfg v) (hw_rt w) (cm_type m) (pc_conn (ca_pid_conn args))
             (ca_lw_thread args) tp_p (ca_ssl args) (ca_orig_dport args) 0 BPF_ANY st
       in put_scratch tp_p (put_traces st w))"

definition resolve_wire_client_parent :: "http_env \<Rightarrow> call_protocol_args \<Rightarrow> tp_info_pid \<Rightarrow> http_world \<Rightarrow> tp_info_pid \<times> http_world" where
  "resolve_wire_client_parent v args tp_p w =
     (let (status, tp, st) = find_trace_for_wire_client_request (h_env v) (h_cfg v) (hw_rt w) (ca_pid_conn args)
            (ca_orig_dport args) (ca_lw_thread args) (tpp_tp tp_p) (h_traces w)
      in (tp_p\<lparr>tpp_tp := tp\<rparr>,
          upd_http (ca_pid_conn args) (\<lambda>info. info\<lparr>hi_parent_status := status\<rparr>) (put_traces st w)))"

text \<open>A traceparent header at a position of the buffer: trace id, span id and flags.\<close>

definition decode_traceparent :: "bytes \<Rightarrow> nat \<Rightarrow> (bytes \<times> bytes \<times> u8) option" where
  "decode_traceparent buf res = do {
     trace_id \<leftarrow> decode_hex buf (res + extract_trace_id) 32;
     span_id \<leftarrow> decode_hex buf (res + extract_span_id) 16;
     flags \<leftarrow> decode_hex buf (res + extract_flags) 2;
     f \<leftarrow> rd flags 0;
     Some (trace_id, span_id, f)
   }"

text \<open>
  The scan of the request for a traceparent header. The length is cut to 16 bits before it is
  clamped. \<open>loop\<close> says whether the scan runs in a \<open>bpf_loop\<close>. The scans stay inside the buffer.
\<close>

definition scan_request ::
  "http_env \<Rightarrow> call_protocol_args \<Rightarrow> http_connection_metadata option \<Rightarrow> bool \<Rightarrow> bytes \<Rightarrow> tp_info_pid \<Rightarrow> http_world
   \<Rightarrow> bool \<times> tp_info_pid \<times> http_world" where
  "scan_request v args meta loop buf tp_p w =
     (let buf_len = min (ucast (ca_bytes_len args) :: u16) (of_nat (TRACE_BUF_SIZE - 1));
          buf = probe_read_z (h_mem v) (ca_u_buf args) (unat buf_len) @ drop (unat buf_len) buf;
          buf = buf[unat buf_len := 0];
          w = w\<lparr>tp_char_buf := Some buf\<rparr>;
          res = (if loop then bpf_strstr_tp_loop (g_bpf_traceparent_enabled v) buf buf_len
                 else bpf_strstr_tp_loop__legacy (g_bpf_traceparent_enabled v) buf buf_len)
      in case Option.bind (Option.bind res (\<lambda>r. r)) (decode_traceparent buf) of
           None \<Rightarrow> (False, tp_p, w)
         | Some (trace_id, span_id, flags) \<Rightarrow>
             let tp = (tpp_tp tp_p)\<lparr>tp_trace_id := trace_id, tp_flags := flags\<rparr>
             in (case meta of
                   None \<Rightarrow> (False, tp_p\<lparr>tpp_tp := tp\<rparr>, w)
                 | Some m \<Rightarrow>
                     if cm_type m = k_event_type_http_client
                     then (True, tp_p\<lparr>tpp_tp := tp\<lparr>tp_span_id := span_id\<rparr>\<rparr>, w)
                     else (False, tp_p\<lparr>tpp_tp := sample_remote_child (h_env v) (hw_rt w) (tp\<lparr>tp_parent_id := span_id\<rparr>)\<rparr>, w)))"

definition obi_continue_protocol_http_tp :: "http_env \<Rightarrow> call_protocol_args \<Rightarrow> bool \<Rightarrow> http_world \<Rightarrow> http_world" where
  "obi_continue_protocol_http_tp v args loop w =
     (let meta = connection_meta_by_direction v w (ca_direction args) PACKET_TYPE_REQUEST
      in case h_scratch w of
           None \<Rightarrow> obi_continue2_protocol_http v args w
         | Some tp_p \<Rightarrow>
             if g_bpf_traceparent_enabled v \<and> \<not> ca_skip_tp_parsing args then
               if capture_header_buffer v = 0 then
                 (case meta of
                    None \<Rightarrow> obi_continue2_protocol_http v args w
                  | Some m \<Rightarrow>
                      let (t, w) = http_now v w;
                          tp_p = tp_p\<lparr>tpp_tp := (tpp_tp tp_p)\<lparr>tp_ts := t\<rparr>, tpp_valid := 1,
                            tpp_pid := pc_pid (ca_pid_conn args), tpp_req_type := cm_type m\<rparr>
                      in obi_continue2_protocol_http v args (commit_http_tp v args meta tp_p w))
               else (case tp_char_buf w of
                    None \<Rightarrow> obi_continue2_protocol_http v args w
                  | Some buf \<Rightarrow>
                      let (wire, tp_p, w) = scan_request v args meta loop buf tp_p w;
                          args = args\<lparr>ca_wire_tp_found := ca_wire_tp_found args \<or> wire\<rparr>;
                          (tp_p, w) = (if ca_wire_tp_found args then resolve_wire_client_parent v args tp_p w else (tp_p, w))
                      in obi_continue2_protocol_http v args (commit_http_tp v args meta tp_p w))
             else
               let (tp_p, w) = (if ca_wire_tp_found args then resolve_wire_client_parent v args tp_p w else (tp_p, w))
               in obi_continue2_protocol_http v args (commit_http_tp v args meta tp_p w))"

subsection \<open>Reservations of the Java agent\<close>

text \<open>
  A slot is free (state 0), readable under its request id, or owned while it is filled or retired.
  Other CPUs do not run in between, so a compare-and-swap succeeds when the state is the expected one.
\<close>

definition java_http1_index :: "http_env \<Rightarrow> u64 \<Rightarrow> u32" where
  "java_http1_index v i = ucast (i mod ucast (java_http1_max_requests v))"

definition java_http1_next_id :: "http_world \<Rightarrow> u64 \<times> http_world" where
  "java_http1_next_id w = (case java_http1_sequence w of
     None \<Rightarrow> (0, w)
   | Some previous \<Rightarrow> if previous \<ge> push_bit k_java_http1_owned_bit 1 - 1 then (0, w)
       else (previous + 1, w\<lparr>java_http1_sequence := Some (previous + 1)\<rparr>))"

primrec java_http1_reserve_loop :: "nat \<Rightarrow> http_env \<Rightarrow> java_http1_request_data \<Rightarrow> http_world \<Rightarrow> u64 \<times> http_world" where
  "java_http1_reserve_loop 0 v data w = (0, w)"
| "java_http1_reserve_loop (Suc n) v data w =
     (let (i, w) = java_http1_next_id w
      in if i = 0 then (0, w)
         else case java_http1_requests w (java_http1_index v i) of
           None \<Rightarrow> java_http1_reserve_loop n v data w
         | Some slot \<Rightarrow>
             if jr_state slot \<noteq> 0 then java_http1_reserve_loop n v data w
             else if java_http1_connections w (jd_conn data) \<noteq> None
             then (0, w\<lparr>java_http1_requests := (java_http1_requests w)(java_http1_index v i \<mapsto> slot\<lparr>jr_data := data\<rparr>)\<rparr>)
             else (i, w\<lparr>java_http1_requests := (java_http1_requests w)
                          (java_http1_index v i \<mapsto> slot\<lparr>jr_data := data, jr_state := i\<rparr>),
                        java_http1_connections := (java_http1_connections w)(jd_conn data \<mapsto> i)\<rparr>))"

definition java_http1_request_reserve :: "http_env \<Rightarrow> java_http1_request_data \<Rightarrow> http_world \<Rightarrow> u64 \<times> http_world" where
  "java_http1_request_reserve v data w =
     (if \<not> g_bpf_java_http1_enabled v \<or> java_http1_max_requests v = 0 then (0, w)
      else java_http1_reserve_loop k_java_http1_reserve_attempts v data w)"

definition java_http1_request_lookup :: "http_env \<Rightarrow> pid_connection_info \<Rightarrow> u64 \<Rightarrow> http_world \<Rightarrow> java_http1_request option" where
  "java_http1_request_lookup v conn i w =
     (if i = 0 \<or> i \<ge> push_bit k_java_http1_owned_bit 1 \<or> java_http1_max_requests v = 0 then None
      else case java_http1_requests w (java_http1_index v i) of
        None \<Rightarrow> None
      | Some slot \<Rightarrow> if jr_state slot \<noteq> i \<or> jd_conn (jr_data slot) \<noteq> conn then None else Some slot)"

definition java_http1_request_id :: "pid_connection_info \<Rightarrow> http_world \<Rightarrow> u64" where
  "java_http1_request_id conn w = (case java_http1_connections w conn of None \<Rightarrow> 0 | Some i \<Rightarrow> i)"

definition java_http1_request_retire :: "http_env \<Rightarrow> pid_connection_info \<Rightarrow> u64 \<Rightarrow> http_world \<Rightarrow> bool \<times> http_world" where
  "java_http1_request_retire v conn i w =
     (if \<not> g_bpf_java_http1_enabled v \<or> i = 0 then (False, w)
      else case java_http1_requests w (java_http1_index v i) of
        None \<Rightarrow> (False, w)
      | Some slot \<Rightarrow>
          if jr_state slot \<noteq> i then (False, w)
          else (True, w\<lparr>java_http1_connections := map_del conn (java_http1_connections w),
                        java_http1_requests := (java_http1_requests w)(java_http1_index v i \<mapsto> slot\<lparr>jr_state := 0\<rparr>)\<rparr>))"

definition TP_MAX_VAL_LENGTH :: nat where "TP_MAX_VAL_LENGTH = 55"

definition adopt_java_http1_reservation ::
  "http_env \<Rightarrow> call_protocol_args \<Rightarrow> http_connection_metadata option \<Rightarrow> http_world \<Rightarrow> bool \<times> http_world" where
  "adopt_java_http1_reservation v args meta w =
     (let conn = ca_pid_conn args; request_id = java_http1_request_id conn w
      in case (meta, java_http1_request_lookup v conn request_id w, tp_char_buf w) of
           (Some m, Some reservation, Some scratch) \<Rightarrow>
             if \<not> g_bpf_java_http1_enabled v \<or> \<not> g_bpf_header_propagation v \<or> ca_ssl args = 0 \<or>
                cm_type m \<noteq> k_event_type_http_client
             then (False, w)
             else let offset = jd_value_offset (jr_data reservation); n = TP_MAX_VAL_LENGTH
             in if unat (ca_bytes_len args) < n \<or> unat offset > unat (ca_bytes_len args) - n then (False, w)
                else let read = probe_read (tv_mem (hv_tcp v) k_large_buf_read_user) (ca_u_buf args + unat offset) n;
                         plain = probe_read_z (tv_mem (hv_tcp v) k_large_buf_read_user) (ca_u_buf args + unat offset) n;
                         w = w\<lparr>tp_char_buf := Some (take n scratch @ plain @ drop (2 * n) scratch)\<rparr>
                in if read = None then (False, w)
                   else let reserved = make_tp_string (tpp_tp (jd_tp (jr_data reservation)));
                            w = w\<lparr>tp_char_buf := Some (reserved @ plain @ drop (2 * n) scratch)\<rparr>
                   in if reserved \<noteq> plain then (False, w)
                      else let (ok, w) = java_http1_request_retire v conn request_id w
                      in if \<not> ok then (False, w)
                         else let span = jd_tp (jr_data reservation);
                                  st = set_trace_info_for_connection (pc_conn conn) TRACE_TYPE_CLIENT span (h_traces w);
                                  w = upd_http conn (\<lambda>info. info\<lparr>hi_tp := tpp_tp span,
                                        hi_parent_status := jd_parent_status (jr_data reservation)\<rparr>) w;
                                  (_, st) = server_or_client_trace (h_env v) (h_cfg v) (hw_rt w) (cm_type m) (pc_conn conn)
                                    (ca_lw_thread args) span (ca_ssl args) (ca_orig_dport args) 0 BPF_ANY st
                              in (True, put_traces st w)
         | _ \<Rightarrow> (False, w))"

subsection \<open>A packet of an HTTP connection\<close>

text \<open>A fresh context for a request, or one found for it; the scratch holds what its last user left.\<close>

definition prepare_http_tp ::
  "http_env \<Rightarrow> call_protocol_args \<Rightarrow> http_connection_metadata option \<Rightarrow> tp_info_pid \<Rightarrow> http_world \<Rightarrow> bool \<times> http_world" where
  "prepare_http_tp v args meta tp_p w =
     (let (t, w) = http_now v w;
          (span, st) = read_urand (h_env v) SPAN_ID_SIZE_BYTES (h_traces w);
          tp_p = tp_p\<lparr>tpp_tp := (tpp_tp tp_p)\<lparr>tp_ts := t, tp_flags := 1, tp_span_id := span\<rparr>, tpp_valid := 1, tpp_written := 0,
            tpp_pid := pc_pid (ca_pid_conn args), tpp_req_type := (case meta of None \<Rightarrow> 0 | Some m \<Rightarrow> cm_type m)\<rparr>;
          (found, tp, w) = (case meta of
             None \<Rightarrow> (False, tpp_tp tp_p, put_traces st w)
           | Some m \<Rightarrow>
               if cm_type m = k_event_type_http_client
               then let (status, tp, st) = find_trace_for_client_request (h_env v) (h_cfg v) (hw_rt w) (ca_pid_conn args)
                          (ca_orig_dport args) (ca_lw_thread args) (tpp_tp tp_p) st
                    in (status \<noteq> k_parent_status_none, tp,
                        upd_http (ca_pid_conn args) (\<lambda>info. info\<lparr>hi_parent_status := status\<rparr>) (put_traces st w))
               else let (found, tp, st) = find_trace_for_server_request (h_cfg v) (pc_conn (ca_pid_conn args)) (tpp_tp tp_p)
                          k_event_type_http_request st
                    in (found, if found then sample_remote_child (h_env v) (hw_rt w) tp else tp, put_traces st w));
          (tp, w) = (if found then (tp, w)
             else let (tp, st) = new_trace_id (h_env v) tp (h_traces w)
                  in (sample_new_trace (h_env v) (hw_rt w) (tp\<lparr>tp_parent_id := replicate SPAN_ID_SIZE_BYTES 0\<rparr>), put_traces st w))
      in (found, put_scratch (tp_p\<lparr>tpp_tp := tp\<rparr>) w))"

definition obi_continue_protocol_http :: "http_env \<Rightarrow> call_protocol_args \<Rightarrow> http_world \<Rightarrow> http_world" where
  "obi_continue_protocol_http v args w = (case http_at w (ca_pid_conn args) of
     None \<Rightarrow> w
   | Some info \<Rightarrow>
       let loop = ca_use_bpf_loop args;
           meta = connection_meta_by_direction v w (ca_direction args) PACKET_TYPE_REQUEST;
           args = args\<lparr>ca_wire_tp_found := False\<rparr>;
           (adopted, w) = adopt_java_http1_reservation v args meta w
       in if adopted then obi_continue2_protocol_http v args w
          else let conn = pc_conn (ca_pid_conn args);
                   e_key = sort_egress_key \<lparr>ek_s_port = s_port conn, ek_d_port = d_port conn, ek_stream_id = 0\<rparr>;
                   injected = (case outgoing_trace_map (h_traces w) e_key of None \<Rightarrow> None
                     | Some tp_p \<Rightarrow> if tpp_req_type tp_p = k_event_type_http_client \<and> tpp_written tp_p \<noteq> 0 \<and>
                           tpp_pid tp_p = pc_pid (ca_pid_conn args) then Some tp_p else None)
               in case injected of
                    Some tp_p \<Rightarrow>
                      let st = set_trace_info_for_connection conn TRACE_TYPE_CLIENT tp_p (h_traces w)
                      in obi_continue2_protocol_http v args
                           (put_traces (st\<lparr>outgoing_trace_map := map_del e_key (outgoing_trace_map st)\<rparr>) w)
                  | None \<Rightarrow> (case h_scratch w of
                      None \<Rightarrow> obi_continue2_protocol_http v args w
                    | Some tp_p \<Rightarrow>
                        let (found, w) = prepare_http_tp v args meta tp_p w;
                            args = args\<lparr>ca_skip_tp_parsing := (case meta of None \<Rightarrow> False
                              | Some m \<Rightarrow> cm_type m = k_event_type_http_request \<and> found \<and> ca_ssl args \<noteq> 0)\<rparr>
                        in obi_continue_protocol_http_tp v args loop w))"

definition obi_protocol_http :: "http_env \<Rightarrow> bool \<Rightarrow> call_protocol_args \<Rightarrow> http_world \<Rightarrow> http_world" where
  "obi_protocol_http v loop args w = (case empty_http_info w of
     None \<Rightarrow> w
   | Some fresh \<Rightarrow>
       let pid_conn = ca_pid_conn args;
           fresh = fresh\<lparr>hi_conn_info := pc_conn pid_conn, hi_ssl := ca_ssl args\<rparr>;
           args = args\<lparr>ca_self_ref_parent_id := (case self_referencing_request pid_conn (ca_packet_type args) w of
             None \<Rightarrow> replicate 8 0 | Some tp \<Rightarrow> tp_parent_id tp)\<rparr>;
           (present, w) = get_or_set_http_info v fresh pid_conn (ca_packet_type args) (ca_direction args) (ca_sock_ptr args) w
       in if \<not> present then w
          else let w = upd_http pid_conn (\<lambda>info. info\<lparr>hi_direction := ca_direction args\<rparr>) w;
                   send = (\<lambda>packet_type action. http_send_large_buffer v pid_conn (ca_u_buf args) (ca_bytes_len args)
                     packet_type (ca_direction args) action)
               in case http_at w pid_conn of
                    None \<Rightarrow> w
                  | Some info \<Rightarrow>
                      if ca_packet_type args = PACKET_TYPE_REQUEST \<and> hi_status info = 0 \<and> hi_start_monotime_ns info = 0
                      then obi_continue_protocol_http v (args\<lparr>ca_use_bpf_loop := loop\<rparr>) w
                      else if ca_packet_type args = PACKET_TYPE_RESPONSE \<and> hi_status info = 0
                      then send (ca_packet_type args) k_large_buf_action_init
                             (handle_http_response v (ca_small_buf args) pid_conn (ca_lw_thread args) w)
                      else if still_reading info
                      then send (ca_packet_type args) k_large_buf_action_append
                             (put_http pid_conn (info\<lparr>hi_len := hi_len info + ca_bytes_len args\<rparr>) w)
                      else if still_responding info
                      then let (t, w) = http_now v w
                           in send PACKET_TYPE_RESPONSE k_large_buf_action_append
                                (put_http pid_conn (info\<lparr>hi_end_monotime_ns := t, hi_resp_len := hi_resp_len info + ca_bytes_len args\<rparr>) w)
                      else w)"

subsection \<open>Records and reports\<close>

fun http_report :: "obi_event \<Rightarrow> http_info list" where
  "http_report (HttpEvent i) = [i]"
| "http_report (LargeBufferEvent lb) = []"
| "http_report (TcpEvent r) = []"
| "http_report (Http2Event r) = []"

definition http_reports :: "obi_event ring_buf \<Rightarrow> http_info list" where
  "http_reports rg = concat (map http_report (shipped rg))"

text \<open>Connections with a record that is not reported yet.\<close>

definition open_http :: "http_world \<Rightarrow> pid_connection_info set" where
  "open_http w = {pc. \<exists>i. http_at w pc = Some i \<and> hi_submitted i = 0}"

definition http_account :: "http_world \<Rightarrow> http_info list \<times> pid_connection_info set" where
  "http_account w = (http_reports (h_ring w), open_http w)"

definition balanced :: "nat \<Rightarrow> http_world \<Rightarrow> http_world \<Rightarrow> bool" where
  "balanced k w w' \<longleftrightarrow> accounts http_info_emittable k (http_account w) (http_account w')"

lemma balanced_refl [simp]: "balanced k w w"
  by (simp add: balanced_def)

lemma balanced_trans: "balanced j a b \<Longrightarrow> balanced k b c \<Longrightarrow> balanced (j + k) a c"
  unfolding balanced_def by (rule accounts_trans)

lemma balanced_mono: "balanced j a b \<Longrightarrow> j \<le> k \<Longrightarrow> balanced k a b"
  unfolding balanced_def by (rule accounts_mono)

text \<open>Steps that open, close and report nothing.\<close>

definition neutral :: "http_world \<Rightarrow> http_world \<Rightarrow> bool" where
  "neutral w w' \<longleftrightarrow> open_http w' = open_http w \<and> http_reports (h_ring w') = http_reports (h_ring w)"

lemma neutral_refl [simp]: "neutral w w"
  by (simp add: neutral_def)

lemma neutral_trans: "neutral a b \<Longrightarrow> neutral b c \<Longrightarrow> neutral a c"
  by (simp add: neutral_def)

lemma neutral_balanced: "neutral a b \<Longrightarrow> balanced k a b"
  by (simp add: neutral_def balanced_def http_account_def)

lemma http_at_simps [simp]:
  "http_at (put_traces t w) pc = http_at w pc"
  "http_at (put_scratch x w) pc = http_at w pc"
  "http_at (put_proto p w) pc = http_at w pc"
  "http_at (put_http pc' i w) pc = (if pc = pc' then Some i else http_at w pc)"
  "http_at (del_http pc' w) pc = (if pc = pc' then None else http_at w pc)"
  "http_at (upd_http pc' f w) pc = (if pc = pc' then map_option f (http_at w pc) else http_at w pc)"
  "http_at (snd (http_now v w)) pc = http_at w pc"
  "http_at (w\<lparr>hw_tcp := tw\<rparr>) pc = http_at w pc"
  "http_at (w\<lparr>tp_char_buf := cb\<rparr>) pc = http_at w pc"
  "http_at (w\<lparr>hw_active_ssl := s\<rparr>) pc = http_at w pc"
  "http_at (w\<lparr>emit_state := es\<rparr>) pc = http_at w pc"
  "http_at (w\<lparr>connection_tracker := ct\<rparr>) pc = http_at w pc"
  "http_at (w\<lparr>java_http1_connections := jc, java_http1_requests := jr\<rparr>) pc = http_at w pc"
  by (simp_all add: http_at_def put_traces_def put_scratch_def put_proto_def put_http_def del_http_def upd_http_def
      http_now_def map_del_def case_prod_beta split: option.splits)

lemma h_ring_simps [simp]:
  "h_ring (put_traces t w) = h_ring w"
  "h_ring (put_scratch x w) = h_ring w"
  "h_ring (put_proto p w) = pm_ring p"
  "h_ring (put_http pc' i w) = h_ring w"
  "h_ring (del_http pc' w) = h_ring w"
  "h_ring (upd_http pc' f w) = h_ring w"
  "h_ring (snd (http_now v w)) = h_ring w"
  by (simp_all add: put_traces_def put_scratch_def put_proto_def put_http_def del_http_def upd_http_def
      http_now_def case_prod_beta split: option.splits)

lemma neutralI: "\<lbrakk>\<And>pc. map_option hi_submitted (http_at w' pc) = map_option hi_submitted (http_at w pc);
    http_reports (h_ring w') = http_reports (h_ring w)\<rbrakk> \<Longrightarrow> neutral w w'"
proof -
  assume a: "\<And>pc. map_option hi_submitted (http_at w' pc) = map_option hi_submitted (http_at w pc)"
    "http_reports (h_ring w') = http_reports (h_ring w)"
  have "(\<exists>i. http_at w' pc = Some i \<and> hi_submitted i = 0) \<longleftrightarrow> (\<exists>i. http_at w pc = Some i \<and> hi_submitted i = 0)" for pc
    using a(1)[of pc] by (cases "http_at w pc"; cases "http_at w' pc") auto
  then show ?thesis using a(2) by (simp add: neutral_def open_http_def)
qed

lemma payload_no_reports: "payload_only rg rg' \<Longrightarrow> http_reports rg' = http_reports rg"
proof -
  assume "payload_only rg rg'"
  then obtain evs where e: "shipped rg' = shipped rg @ evs" "\<forall>e \<in> set evs. \<exists>lb. e = LargeBufferEvent lb"
    by (auto simp: payload_only_def)
  then have "\<forall>e \<in> set evs. http_report e = []" by auto
  then show ?thesis by (simp add: http_reports_def e(1))
qed

lemma submit_balanced: "balanced 0 w (submit_http_event v pc w)"
proof (cases "http_at w pc")
  case None
  then show ?thesis by (simp add: submit_http_event_def)
next
  case (Some info)
  show ?thesis
  proof (cases "\<not> http_info_emittable info \<or> hi_submitted info \<noteq> 0")
    case True
    then show ?thesis using Some by (simp add: submit_http_event_def)
  next
    case False
    define i where "i = info\<lparr>hi_submitted := 1, hi_flags := k_event_type_k_http_request\<rparr>"
    define w' where "w' = submit_http_event v pc w"
    obtain ok rg where o: "events_ringbuf_output (tv_ring (hv_tcp v)) (HttpEvent i) sizeof_http_info (h_ring w) = (ok, rg)"
      by (rule prod.exhaust)
    have w': "w' = put_proto ((tw_proto (hw_tcp (put_http pc i w)))\<lparr>pm_ring := rg\<rparr>) (put_http pc i w)"
      using Some False o by (simp add: w'_def submit_http_event_def Let_def i_def[symmetric])
    have r: "http_reports (h_ring w') = http_reports (h_ring w) @ (if ok then [i] else [])"
      using output_cases[OF o] by (simp add: w' http_reports_def)
    have op: "open_http w' = open_http w - {pc}" by (auto simp: w' open_http_def i_def)
    have "pc \<in> open_http w" using Some False by (auto simp: open_http_def)
    moreover have "http_info_emittable i = http_info_emittable info"
      by (simp add: i_def http_info_emittable_def http_info_complete_def)
    ultimately show ?thesis using False accounts_close[of pc "open_http w" "if ok then [i] else []" http_info_emittable]
      by (simp add: balanced_def http_account_def w'_def[symmetric] r op)
  qed
qed

lemma del_balanced: "balanced 0 w (del_http pc w)"
proof -
  have "open_http (del_http pc w) = open_http w - {pc}" by (auto simp: open_http_def)
  then show ?thesis by (simp add: balanced_def http_account_def accounts_drop)
qed

lemma put_balanced: "balanced (Suc 0) w (put_http pc i w)"
proof -
  have "open_http (put_http pc i w) \<subseteq> insert pc (open_http w)" by (auto simp: open_http_def)
  then show ?thesis by (simp add: balanced_def http_account_def accounts_open)
qed

lemma open_http_cong: "(\<And>pc. http_at w' pc = http_at w pc) \<Longrightarrow> open_http w' = open_http w"
  by (simp add: open_http_def)

lemma balanced_cong:
  assumes "\<And>pc. http_at w' pc = http_at w pc" and "h_ring w' = h_ring w"
  shows "balanced k w0 w' = balanced k w0 w"
  using open_http_cong[of w' w, OF assms(1)] assms(2) by (simp add: balanced_def http_account_def)

lemma balanced_simps [simp]:
  "balanced k w0 (put_traces t w) = balanced k w0 w"
  "balanced k w0 (put_scratch x w) = balanced k w0 w"
  "balanced k w0 (snd (http_now v w)) = balanced k w0 w"
  "balanced k w0 (w\<lparr>tp_char_buf := cb\<rparr>) = balanced k w0 w"
  "balanced k w0 (w\<lparr>hw_active_ssl := s\<rparr>) = balanced k w0 w"
  "balanced k w0 (w\<lparr>emit_state := es\<rparr>) = balanced k w0 w"
  "balanced k w0 (w\<lparr>connection_tracker := ct\<rparr>) = balanced k w0 w"
  "balanced k w0 (cleanup_http_server_thread_trace v i key w) = balanced k w0 w"
  "balanced k w0 (cleanup_incomplete_http_server_thread_trace v i key w) = balanced k w0 w"
  by (rule balanced_cong; simp add: cleanup_http_server_thread_trace_def cleanup_incomplete_http_server_thread_trace_def Let_def)+

lemma balanced_step: "balanced 0 w w' \<Longrightarrow> balanced k w0 w \<Longrightarrow> balanced k w0 w'"
  using balanced_trans[of k w0 w 0 w'] by simp

lemma balanced_submit: "balanced k w0 w \<Longrightarrow> balanced k w0 (submit_http_event v pc w)"
  by (rule balanced_step[OF submit_balanced])

lemma balanced_del: "balanced k w0 w \<Longrightarrow> balanced k w0 (del_http pc w)"
  by (rule balanced_step[OF del_balanced])

lemma balanced_put: "balanced k w0 w \<Longrightarrow> balanced (Suc k) w0 (put_http pc i w)"
  using balanced_trans[of k w0 w "Suc 0"] put_balanced by simp

lemma balanced_rewrite:
  "map_option hi_submitted (http_at w pc) = Some (hi_submitted i) \<Longrightarrow> balanced k w0 w \<Longrightarrow> balanced k w0 (put_http pc i w)"
  by (rule balanced_step[OF neutral_balanced]) (auto intro!: neutralI)

lemma balanced_upd: "(\<And>i. hi_submitted (f i) = hi_submitted i) \<Longrightarrow> balanced k w0 w \<Longrightarrow> balanced k w0 (upd_http pc f w)"
  by (rule balanced_step[OF neutral_balanced]) (auto intro!: neutralI simp: option.map_comp comp_def)

lemma finish_balanced: "balanced k w0 w \<Longrightarrow> balanced k w0 (finish_http v pc key w)"
  by (simp add: finish_http_def Let_def balanced_submit balanced_del split: option.split)

lemma force_finish_balanced: "balanced k w0 w \<Longrightarrow> balanced k w0 (force_finish_http v pc key n w)"
  by (simp add: force_finish_http_def Let_def case_prod_beta finish_balanced balanced_rewrite split: option.split)

lemma cleanup_http_at [simp]:
  "http_at (cleanup_http_server_thread_trace v i key w) pc = http_at w pc"
  "http_at (cleanup_incomplete_http_server_thread_trace v i key w) pc = http_at w pc"
  by (simp_all add: cleanup_http_server_thread_trace_def cleanup_incomplete_http_server_thread_trace_def Let_def)

lemma note_submitted [simp]:
  "hi_submitted (note_displaced_by_next_request i t) = hi_submitted i"
  "hi_submitted (note_unread_response i t) = hi_submitted i"
  by (simp_all add: note_displaced_by_next_request_def note_unread_response_def)

lemma displace_balanced: "balanced k w0 w \<Longrightarrow> balanced k w0 (snd (displace_http_info v pc ty sk w))"
  by (simp add: displace_http_info_def Let_def case_prod_beta is_duplicate_info_def finish_balanced balanced_rewrite
      split: option.split)

lemma get_or_set_balanced:
  "balanced (if packet_type = PACKET_TYPE_REQUEST then 1 else 0) w (snd (get_or_set_http_info v i pc packet_type d sk w))"
proof -
  define w1 where "w1 = w\<lparr>hw_tcp := cleanup_tcp_trace_info_if_needed ((hv_tcp v)\<lparr>tv_rt := hw_rt w\<rparr>) pc (hw_tcp w)\<rparr>"
  have "balanced 0 w w1" unfolding w1_def
    by (subst balanced_cong[of _ w]) (simp_all add: cleanup_tcp_trace_info_if_needed_def split: option.split)
  then have "balanced 0 w (snd (displace_http_info v pc ty sk w1))" for ty by (rule displace_balanced)
  then show ?thesis
    by (auto simp: get_or_set_http_info_def Let_def case_prod_beta w1_def[symmetric] balanced_put
        intro: balanced_mono)
qed

lemma force_finish_possible_balanced:
  "balanced k w0 w \<Longrightarrow> balanced k w0 (force_finish_possible_delayed_http_request v pc key sk w)"
  by (simp add: force_finish_possible_delayed_http_request_def cleanup_http_info_def Let_def balanced_del finish_balanced
      force_finish_balanced split: option.split)

lemma finish_possible_balanced:
  "balanced k w0 w \<Longrightarrow> balanced k w0 (finish_possible_delayed_http_request v pc w)"
  by (simp add: finish_possible_delayed_http_request_def finish_balanced split: option.split)

lemma terminate_balanced:
  "balanced k w0 w \<Longrightarrow> balanced k w0 (terminate_http_request_if_needed v pc key w)"
  by (simp add: terminate_http_request_if_needed_def Let_def split: option.split)

lemma sent_len_balanced: "balanced k w0 w \<Longrightarrow> balanced k w0 (update_http_sent_len pc n w)"
  by (simp add: update_http_sent_len_def balanced_upd)

lemma response_balanced: "balanced k w0 w \<Longrightarrow> balanced k w0 (handle_http_response v buf pc lw w)"
  by (simp add: handle_http_response_def process_http_response_def Let_def case_prod_beta finish_balanced balanced_submit
      balanced_rewrite split: option.split)

lemma count_submitted [simp]: "hi_submitted (count_http_captured ty c i) = hi_submitted i"
  by (simp add: count_http_captured_def Let_def)

lemma balanced_proto: "payload_only (h_ring w) (pm_ring p) \<Longrightarrow> balanced k w0 w \<Longrightarrow> balanced k w0 (put_proto p w)"
  by (rule balanced_step[OF neutral_balanced[OF neutralI]]) (simp_all add: payload_no_reports)

lemma emit_continue_balanced:
  "balanced k w0 w \<Longrightarrow> balanced k w0 (obi_large_buf_emit_continue n v w)"
proof (induction n arbitrary: w)
  case (Suc n)
  then show ?case
    by (simp add: Let_def case_prod_beta Suc.IH balanced_rewrite balanced_proto emit_payload split: option.split)
qed simp

lemma send_balanced: "balanced k w0 w \<Longrightarrow> balanced k w0 (http_send_large_buffer v pc u_buf n ty d a w)"
  by (simp add: http_send_large_buffer_def Let_def emit_continue_balanced split: option.split)

text \<open>The programs that work out the context of a request touch neither reports nor open records.\<close>

lemma neutral_simps [simp]:
  "neutral a (put_traces t w) = neutral a w"
  "neutral a (put_scratch x w) = neutral a w"
  "neutral a (snd (http_now v w)) = neutral a w"
  "neutral a (w\<lparr>tp_char_buf := cb\<rparr>) = neutral a w"
  by (simp_all add: neutral_def open_http_def)

lemma neutral_upd: "(\<And>i. hi_submitted (f i) = hi_submitted i) \<Longrightarrow> neutral a w \<Longrightarrow> neutral a (upd_http pc f w)"
  by (rule neutral_trans, assumption, rule neutralI) (simp_all add: option.map_comp comp_def)

lemma commit_neutral [simp]: "neutral a (commit_http_tp v args meta tp_p w) = neutral a w"
  by (simp add: commit_http_tp_def Let_def case_prod_beta split: option.split)

lemma resolve_neutral: "neutral a w \<Longrightarrow> neutral a (snd (resolve_wire_client_parent v args tp_p w))"
  by (simp add: resolve_wire_client_parent_def Let_def case_prod_beta neutral_upd)

lemma scan_neutral [simp]: "neutral a (snd (snd (scan_request v args meta loop buf tp_p w))) = neutral a w"
  by (simp add: scan_request_def Let_def case_prod_beta split: option.split)

lemma prepare_neutral: "neutral a w \<Longrightarrow> neutral a (snd (prepare_http_tp v args meta tp_p w))"
  by (simp add: prepare_http_tp_def Let_def case_prod_beta neutral_upd split: option.split)

lemma retire_neutral [simp]: "neutral a (snd (java_http1_request_retire v pc i w)) = neutral a w"
  by (simp add: java_http1_request_retire_def neutral_def open_http_def split: option.split)

lemma adopt_neutral: "neutral a w \<Longrightarrow> neutral a (snd (adopt_java_http1_reservation v args meta w))"
  by (simp add: adopt_java_http1_reservation_def Let_def case_prod_beta neutral_upd split: option.split)

text \<open>The record of a request is filled in while it is open.\<close>

lemma process_request_submitted [simp]: "hi_submitted (fst (process_http_request v args meta i w)) = 0"
  by (simp add: process_http_request_def Let_def case_prod_beta)

lemma process_request_state [simp]:
  "balanced k w0 (snd (process_http_request v args meta i w)) = balanced k w0 w"
  "http_at (snd (process_http_request v args meta i w)) pc = http_at w pc"
  by (simp_all add: process_http_request_def Let_def case_prod_beta)

lemma continue2_balanced:
  assumes "ca_pid_conn args \<in> open_http w"
  shows "balanced k w0 w \<Longrightarrow> balanced k w0 (obi_continue2_protocol_http v args w)"
  using assms
  by (auto simp: open_http_def obi_continue2_protocol_http_def Let_def case_prod_beta intro!: send_balanced balanced_rewrite)

lemma continue2_after:
  assumes "neutral w w'" and "ca_pid_conn args \<in> open_http w" and "balanced k w0 w"
  shows "balanced k w0 (obi_continue2_protocol_http v args w')"
  using continue2_balanced[of args w' k w0 v] assms balanced_step[OF neutral_balanced] by (auto simp: neutral_def)

lemma continue_tp_balanced:
  assumes "neutral w w'" and "ca_pid_conn args \<in> open_http w" and "balanced k w0 w"
  shows "balanced k w0 (obi_continue_protocol_http_tp v args loop w')"
  unfolding obi_continue_protocol_http_tp_def Let_def case_prod_beta
  using assms by (auto split: option.split intro!: continue2_after[of w] resolve_neutral)

lemma continue_balanced:
  assumes "ca_pid_conn args \<in> open_http w" and "balanced k w0 w"
  shows "balanced k w0 (obi_continue_protocol_http v args w)"
  unfolding obi_continue_protocol_http_def Let_def case_prod_beta
  using assms by (auto split: option.split intro!: continue2_after[of w] continue_tp_balanced[of w] prepare_neutral adopt_neutral)

lemma get_or_set_open:
  "fst (get_or_set_http_info v i pc PACKET_TYPE_REQUEST d sk w) \<Longrightarrow> hi_submitted i = 0 \<Longrightarrow>
     pc \<in> open_http (snd (get_or_set_http_info v i pc PACKET_TYPE_REQUEST d sk w))"
  by (auto simp: get_or_set_http_info_def Let_def case_prod_beta open_http_def split: if_splits)

lemma open_http_upd: "(\<And>i. hi_submitted (f i) = hi_submitted i) \<Longrightarrow> open_http (upd_http pc f w) = open_http w"
  using neutral_upd[of f w w pc] by (simp add: neutral_def)

lemma protocol_http_balanced:
  "balanced (if ca_packet_type args = PACKET_TYPE_REQUEST then 1 else 0) w (obi_protocol_http v loop args w)"
proof (cases "empty_http_info w")
  case None
  then show ?thesis by (simp add: obi_protocol_http_def)
next
  case (Some fresh)
  define k where "k = (if ca_packet_type args = PACKET_TYPE_REQUEST then 1 else 0 :: nat)"
  define i where "i = fresh\<lparr>hi_conn_info := pc_conn (ca_pid_conn args), hi_ssl := ca_ssl args\<rparr>"
  define x where "x = get_or_set_http_info v i (ca_pid_conn args) (ca_packet_type args) (ca_direction args) (ca_sock_ptr args) w"
  define w1 where "w1 = upd_http (ca_pid_conn args) (\<lambda>info. info\<lparr>hi_direction := ca_direction args\<rparr>) (snd x)"
  have b: "balanced k w (snd x)" unfolding x_def k_def by (rule get_or_set_balanced)
  have i: "hi_submitted i = 0" using Some by (auto simp: i_def empty_http_info_def zero_http_info_def split: if_splits)
  have b1: "balanced k w w1" unfolding w1_def using b by (simp add: balanced_upd)
  have op: "ca_pid_conn args \<in> open_http w1" if "ca_packet_type args = PACKET_TYPE_REQUEST" "fst x"
    using get_or_set_open[of v i "ca_pid_conn args" "ca_direction args" "ca_sock_ptr args" w] that i
    by (simp add: w1_def x_def open_http_upd)
  obtain args' where a: "ca_pid_conn args' = ca_pid_conn args"
    and e: "obi_protocol_http v loop args w = (if \<not> fst x then snd x else case http_at w1 (ca_pid_conn args) of
       None \<Rightarrow> w1
     | Some info \<Rightarrow>
         if ca_packet_type args = PACKET_TYPE_REQUEST \<and> hi_status info = 0 \<and> hi_start_monotime_ns info = 0
         then obi_continue_protocol_http v args' w1
         else if ca_packet_type args = PACKET_TYPE_RESPONSE \<and> hi_status info = 0
         then http_send_large_buffer v (ca_pid_conn args) (ca_u_buf args) (ca_bytes_len args) (ca_packet_type args)
                (ca_direction args) k_large_buf_action_init
                (handle_http_response v (ca_small_buf args) (ca_pid_conn args) (ca_lw_thread args) w1)
         else if still_reading info
         then http_send_large_buffer v (ca_pid_conn args) (ca_u_buf args) (ca_bytes_len args) (ca_packet_type args)
                (ca_direction args) k_large_buf_action_append
                (put_http (ca_pid_conn args) (info\<lparr>hi_len := hi_len info + ca_bytes_len args\<rparr>) w1)
         else if still_responding info
         then http_send_large_buffer v (ca_pid_conn args) (ca_u_buf args) (ca_bytes_len args) PACKET_TYPE_RESPONSE
                (ca_direction args) k_large_buf_action_append
                (put_http (ca_pid_conn args) (info\<lparr>hi_end_monotime_ns := fst (http_now v w1),
                   hi_resp_len := hi_resp_len info + ca_bytes_len args\<rparr>) (snd (http_now v w1)))
         else w1)"
    using that[of "args\<lparr>ca_self_ref_parent_id := (case self_referencing_request (ca_pid_conn args) (ca_packet_type args) w of
             None \<Rightarrow> replicate 8 0 | Some tp \<Rightarrow> tp_parent_id tp), ca_use_bpf_loop := loop\<rparr>"]
    by (simp add: obi_protocol_http_def Some Let_def case_prod_beta i_def x_def w1_def cong: if_cong option.case_cong)
  show ?thesis unfolding k_def[symmetric] e
    by (simp add: b b1 op a send_balanced response_balanced continue_balanced balanced_rewrite split: option.split)
qed

text \<open>A sample configuration and state.\<close>

definition sample_http_env :: http_env where
  "sample_http_env = \<lparr>hv_tcp = sample_tcp_env, capture_header_buffer = 1, g_bpf_traceparent_enabled = True,
     g_bpf_header_propagation = False, g_bpf_java_http1_enabled = False, java_http1_max_requests = 0,
     http_max_captured_bytes = 1024, hv_sock = (\<lambda>_. (0, 0)), g_bpf_loop_enabled = True,
     hv_joined_at = 0, hv_tail_calls = 31\<rparr>"

definition empty_http_world :: http_world where
  "empty_http_world = \<lparr>hw_tcp = empty_tcp_world, hw_rt = empty_runtime, connection_tracker = Map.empty,
     hw_active_ssl = Map.empty, java_http1_requests = Map.empty, java_http1_connections = Map.empty,
     java_http1_sequence = None, hw_info_mem = True, hw_meta_mem = True, tp_char_buf = None, emit_state = None,
     h2_cut_frames = Map.empty, hw_grpc_mem = True, hw_huff_mem = True, hw_h2_info = None,
     hw_h2_cut = None, hw_h2_joined = None\<rparr>"

definition sample_http_args :: "bytes \<Rightarrow> call_protocol_args" where
  "sample_http_args buf = \<lparr>ca_pid_conn = sample_pc, ca_protocol_type = k_protocol_type_http, ca_ssl = 0, ca_direction = TCP_RECV,
     ca_packet_type = 0, ca_small_buf = buf, ca_protocols = \<lparr>sel_http = True, sel_http2 = True, sel_tcp = True\<rparr>,
     ca_skip_tp_parsing = False, ca_use_bpf_loop = False, ca_wire_tp_found = False, ca_bytes_len = 24, ca_orig_dport = 80,
     ca_u_buf = 0, ca_self_ref_parent_id = replicate 8 0, ca_sock_ptr = 0, ca_lw_thread = 0\<rparr>"

end
