(* ===== verification/H2_Huffman.thy ===== *)
theory H2_Huffman
  imports H2_Frames Trace_Text
begin

section \<open>Huffman coded traceparent values\<close>

text \<open>
  Models \<open>bpf/common/h2_tp_huffman.h\<close>: the decoder for traceparent values in HPACK Huffman
  coding. The reference is the code table of RFC 7541 Appendix B for the seventeen characters a
  traceparent can hold, as bit lists; the decoder is proved to accept exactly the octets that
  are the encoding of a well laid out value, padded with ones, and to return that value. Bit
  cursors are naturals: the decoder moves at most six bits for each of 55 characters.
\<close>

subsection \<open>The decoder\<close>

definition k_h2_tp_huff_min :: nat where "k_h2_tp_huff_min = 35"
definition k_h2_tp_huff_max :: nat where "k_h2_tp_huff_max = 42"
definition k_h2_tp_huff_window :: nat where "k_h2_tp_huff_window = 64"
definition k_hpack_value_len_tp :: nat where "k_hpack_value_len_tp = 55"
definition k_hpack_huffman_flag :: u8 where "k_hpack_huffman_flag = 0x80"
definition k_h2_tp_huff_wide :: u8 where "k_h2_tp_huff_wide = 0x80"

definition k_h2_tp_huff :: bytes where
  "k_h2_tp_huff =
     [0x30, 0x30, 0x31, 0x31, 0x32, 0x32, 0x61, 0x61,
      0x63, 0x63, 0x65, 0x65, 0x00, 0x00, 0x00, 0x00,
      0x00, 0x00, 0x00, 0x00, 0x00, 0x00, 0xad, 0x00,
      0x00, 0xb3, 0xb4, 0xb5, 0xb6, 0xb7, 0xb8, 0xb9,
      0x00, 0x00, 0x00, 0xe2, 0xe4, 0xe6, 0x00, 0x00,
      0x00, 0x00, 0x00, 0x00, 0x00, 0x00, 0x00, 0x00, 0x00, 0x00, 0x00, 0x00,
      0x00, 0x00, 0x00, 0x00, 0x00, 0x00, 0x00, 0x00, 0x00, 0x00, 0x00, 0x00]"

record h2_tp_huff_candidate =
  hc_at :: u16
  hc_len :: u8

definition k_h2_tp_huff_max_candidates :: nat where "k_h2_tp_huff_max_candidates = 3"

record h2_tp_huff_scan =
  hs_at :: "u16 list"
  hs_len :: bytes
  hs_count :: u8
  hs_idx :: u8
  hs_done :: u8
  hs_resume :: u16

definition h2_tp_huff_len_plausible :: "u8 \<Rightarrow> bool" where
  "h2_tp_huff_len_plausible len_byte =
     (if len_byte AND k_hpack_huffman_flag = 0 then False
      else let len = unat (len_byte AND NOT k_hpack_huffman_flag)
           in k_h2_tp_huff_min \<le> len \<and> len \<le> k_h2_tp_huff_max)"

record h2_huff_ctx =
  hx_out :: bytes
  hx_bit :: nat
  hx_invalid :: nat

text \<open>The six bits at the cursor; they straddle at most two bytes of the window.\<close>

definition huff_lookahead :: "bytes \<Rightarrow> nat \<Rightarrow> u8 option" where
  "huff_lookahead w cursor =
     (let first_byte = (cursor div 8) mod k_h2_tp_huff_window; bits_into_byte = cursor mod 8 in do {
     a \<leftarrow> rd w first_byte;
     b \<leftarrow> rd w ((first_byte + 1) mod k_h2_tp_huff_window);
     let two_bytes = (push_bit 8 (ucast a) OR ucast b :: u32);
     Some (ucast (drop_bit (16 - 6 - bits_into_byte) two_bytes AND 0x3f)) })"

definition h2_huff_step :: "bytes \<Rightarrow> nat \<Rightarrow> h2_huff_ctx \<Rightarrow> (h2_huff_ctx \<times> bool) option" where
  "h2_huff_step w i c =
     (if i \<ge> k_hpack_value_len_tp then Some (c, True)
      else do {
        lookahead \<leftarrow> huff_lookahead w (hx_bit c);
        entry \<leftarrow> rd k_h2_tp_huff (unat lookahead);
        let is_wide = (if entry AND k_h2_tp_huff_wide \<noteq> 0 then 1 else 0);
        out \<leftarrow> put_bytes (hx_out c) i [entry AND NOT k_h2_tp_huff_wide];
        Some (c\<lparr>hx_out := out, hx_bit := hx_bit c + 5 + is_wide,
                hx_invalid := hx_invalid c + (if entry = 0 then 1 else 0)\<rparr>, False) })"

text \<open>Returns the output buffer and the verdict.\<close>

definition h2_huff_decode_tp :: "bytes \<Rightarrow> nat \<Rightarrow> bytes \<Rightarrow> (bytes \<times> bool) option" where
  "h2_huff_decode_tp w len out =
     (if len < k_h2_tp_huff_min \<or> len > k_h2_tp_huff_max then Some (out, False)
      else do {
        c \<leftarrow> bpf_loop k_hpack_value_len_tp (h2_huff_step w) \<lparr>hx_out = out, hx_bit = 0, hx_invalid = 0\<rparr>;
        let out = hx_out c;
        if hx_invalid c \<noteq> 0 \<or> (hx_bit c + 7) div 8 \<noteq> len then Some (out, False)
        else let pad = len * 8 - hx_bit c in
          if pad > 7 then Some (out, False)
          else do {
            pad_ok \<leftarrow> (if pad \<noteq> 0
                       then do {
                         let pad_mask = (push_bit pad 1 - 1 :: u8);
                         b \<leftarrow> rd w (min (len - 1) (k_h2_tp_huff_window - 1));
                         Some (b AND pad_mask = pad_mask) }
                       else Some True);
            if \<not> pad_ok then Some (out, False)
            else do {
              o0 \<leftarrow> rd out 0; o1 \<leftarrow> rd out 1;
              d1 \<leftarrow> rd out k_tp_val_dash1; d2 \<leftarrow> rd out k_tp_val_dash2; d3 \<leftarrow> rd out k_tp_val_dash3;
              Some (out, o0 = 0x30 \<and> o1 = 0x30 \<and> d1 = 0x2d \<and> d2 = 0x2d \<and> d3 = 0x2d) }}})"

subsection \<open>The code of RFC 7541\<close>

abbreviation (input) Z :: bool where "Z \<equiv> False"
abbreviation (input) I :: bool where "I \<equiv> True"

definition huff_codes :: "(u8 \<times> bool list) list" where
  "huff_codes =
     [(0x30, [Z, Z, Z, Z, Z]),
      (0x31, [Z, Z, Z, Z, I]),
      (0x32, [Z, Z, Z, I, Z]),
      (0x61, [Z, Z, Z, I, I]),
      (0x63, [Z, Z, I, Z, Z]),
      (0x65, [Z, Z, I, Z, I]),
      (0x2d, [Z, I, Z, I, I, Z]),
      (0x33, [Z, I, I, Z, Z, I]),
      (0x34, [Z, I, I, Z, I, Z]),
      (0x35, [Z, I, I, Z, I, I]),
      (0x36, [Z, I, I, I, Z, Z]),
      (0x37, [Z, I, I, I, Z, I]),
      (0x38, [Z, I, I, I, I, Z]),
      (0x39, [Z, I, I, I, I, I]),
      (0x62, [I, Z, Z, Z, I, I]),
      (0x64, [I, Z, Z, I, Z, Z]),
      (0x66, [I, Z, Z, I, Z, I])]"

definition huff_code :: "u8 \<Rightarrow> bool list option" where
  "huff_code c = map_of huff_codes c"

definition tp_alphabet :: "u8 \<Rightarrow> bool" where
  "tp_alphabet c \<longleftrightarrow> huff_code c \<noteq> None"

definition huff_encode :: "bytes \<Rightarrow> bool list" where
  "huff_encode t = concat (map (\<lambda>c. the (huff_code c)) t)"

text \<open>The bits of a byte string, most significant first.\<close>

definition octet_bits :: "bytes \<Rightarrow> bool list" where
  "octet_bits w = map (\<lambda>i. bit (w ! (i div 8)) (7 - i mod 8)) [0..<8 * length w]"

lemma octet_bits_length [simp]: "length (octet_bits w) = 8 * length w"
  by (simp add: octet_bits_def)

lemma octet_bits_nth: "i < 8 * length w \<Longrightarrow> octet_bits w ! i = bit (w ! (i div 8)) (7 - i mod 8)"
  by (simp add: octet_bits_def)

subsection \<open>The table\<close>

definition entry_width :: "u8 \<Rightarrow> nat" where
  "entry_width e = 5 + (if e AND k_h2_tp_huff_wide \<noteq> 0 then 1 else 0)"

definition bval :: "bool list \<Rightarrow> nat" where
  "bval l = foldl (\<lambda>a b. 2 * a + of_bool b) 0 l"

text \<open>
  Every six bits of lookahead: a zero entry means no code is a prefix of them, any other entry
  names the character whose code is.
\<close>

lemma table_check6:
  "let l = [a, b, c, d, e, f]; v = k_h2_tp_huff ! bval l in
     (if v = 0 then list_all (\<lambda>(c, k). take (length k) l \<noteq> k) huff_codes
      else (v AND NOT k_h2_tp_huff_wide, take (entry_width v) l) \<in> set huff_codes)"
  by (cases a; cases b; cases c; cases d; cases e; cases f;
      simp add: bval_def Let_def k_h2_tp_huff_def entry_width_def k_h2_tp_huff_wide_def huff_codes_def)

lemma table_check:
  assumes "length l = 6"
  shows "if k_h2_tp_huff ! bval l = 0 then list_all (\<lambda>(c, k). take (length k) l \<noteq> k) huff_codes
    else (k_h2_tp_huff ! bval l AND NOT k_h2_tp_huff_wide,
          take (entry_width (k_h2_tp_huff ! bval l)) l) \<in> set huff_codes"
proof -
  have "l = [l ! 0, l ! 1, l ! 2, l ! 3, l ! 4, l ! 5]"
    using assms by (intro nth_equalityI) (auto simp: numeral_eq_Suc less_Suc_eq)
  then show ?thesis
    using table_check6[of "l ! 0" "l ! 1" "l ! 2" "l ! 3" "l ! 4" "l ! 5"] by (simp only: Let_def)
qed

lemma codes_check:
  "\<forall>(c, l) \<in> set huff_codes. length l \<in> {5, 6} \<and>
     (\<forall>(c', l') \<in> set huff_codes. take (min (length l) (length l')) l = take (min (length l) (length l')) l'
        \<longrightarrow> c = c' \<and> l = l')"
  by (simp add: huff_codes_def)

subsection \<open>Decoding bits\<close>

lemma bval_horner: "bval l = horner_sum of_bool 2 (rev l)"
proof (induction l rule: rev_induct)
  case Nil
  then show ?case by (simp add: bval_def)
next
  case (snoc b l)
  then show ?case by (simp add: bval_def)
qed

lemma unat_bval:
  assumes "(x :: u8) < 64"
  shows "unat x = bval (map (\<lambda>j. bit x (5 - j)) [0..<6])"
proof -
  have "rev (map (\<lambda>j. bit x (5 - j)) [0..<6]) = map (bit (unat x)) [0..<6]"
    by (simp add: upt_rec bit_unsigned_iff eval_nat_numeral)
  then have "bval (map (\<lambda>j. bit x (5 - j)) [0..<6]) = take_bit 6 (unat x)"
    by (simp only: bval_horner horner_sum_bit_eq_take_bit)
  moreover have "unat x < 64" using assms by (simp add: word_less_nat_alt)
  ultimately show ?thesis by (simp add: take_bit_nat_eq_self)
qed

lemma lookahead_bits:
  assumes "length w = 64" and "cur + 6 \<le> 504"
  shows "\<exists>x. huff_lookahead w cur = Some x \<and> unat x = bval (take 6 (drop cur (octet_bits w))) \<and> unat x < 64"
proof -
  let ?f = "cur div 8" and ?b = "cur mod 8"
  have f: "?f < 63" using assms(2) by linarith
  define two :: u32 where "two = push_bit 8 (ucast (w ! ?f)) OR ucast (w ! (?f + 1))"
  define x :: u8 where "x = ucast (drop_bit (16 - 6 - ?b) two AND 0x3f)"
  have look: "huff_lookahead w cur = Some x"
    using f assms(1) by (simp add: huff_lookahead_def k_h2_tp_huff_window_def Let_def x_def two_def)
  have m: "y AND 0x3f = take_bit 6 y" for y :: u32
    by (simp add: take_bit_eq_mask mask_numeral)
  have xb: "bit x n \<longleftrightarrow> n < 6 \<and> bit two (10 - ?b + n)" for n
    unfolding x_def m by (auto simp: bit_simps)
  have bits: "bit x (5 - j) = octet_bits w ! (cur + j)" if "j < 6" for j
  proof -
    have idx: "10 - ?b + (5 - j) = 15 - (?b + j)" using that by (simp)
    have c: "cur = 8 * ?f + ?b" by simp
    have j5: "5 - j < 6" by linarith
    have i: "cur + j < 8 * length w" using that assms by simp
    show ?thesis
    proof (cases "?b + j < 8")
      case True
      have d: "(cur + j) div 8 = ?f"
      proof (rule div_nat_eqI)
        show "8 * ?f \<le> cur + j" "cur + j < 8 * Suc ?f"
          unfolding mult_Suc_right using c True by linarith+
      qed
      moreover have "(cur + j) mod 8 = ?b + j"
        using c d mult_div_mod_eq[of 8 "cur + j"] by linarith
      moreover have "bit two (15 - (?b + j)) = bit (w ! ?f) (7 - (?b + j))"
        unfolding two_def using True by (auto simp: bit_simps dest: bit_imp_le_length)
      ultimately show ?thesis
        using j5 i xb[of "5 - j"] idx by (simp only: octet_bits_nth[OF i] simp_thms)
    next
      case False
      have b: "?b < 8" by simp
      have d: "(cur + j) div 8 = ?f + 1"
      proof (rule div_nat_eqI)
        show "8 * (?f + 1) \<le> cur + j" "cur + j < 8 * Suc (?f + 1)"
          unfolding mult_Suc_right distrib_left using c False b that by linarith+
      qed
      moreover have "(cur + j) mod 8 = ?b + j - 8"
        using c d False mult_div_mod_eq[of 8 "cur + j"] by linarith
      moreover have "bit two (15 - (?b + j)) = bit (w ! (?f + 1)) (15 - (?b + j))"
        unfolding two_def using False by (auto simp: bit_simps)
      moreover have "7 - (?b + j - 8) = 15 - (?b + j)" using False by linarith
      ultimately show ?thesis
        using j5 i xb[of "5 - j"] idx by (simp only: octet_bits_nth[OF i] simp_thms)
    qed
  qed
  have lt: "unat x < 64"
  proof -
    have "x = take_bit 6 x" by (rule bit_word_eqI) (auto simp: xb bit_simps)
    then have "unat x = take_bit 6 (unat x)" by (metis unsigned_take_bit_eq)
    moreover have "take_bit 6 (unat x) < 64" using take_bit_nat_less_exp[of 6 "unat x"] by simp
    ultimately show ?thesis by linarith
  qed
  have "map (\<lambda>j. bit x (5 - j)) [0..<6] = take 6 (drop cur (octet_bits w))"
    using assms by (intro nth_equalityI) (auto simp: bits)
  then have "unat x = bval (take 6 (drop cur (octet_bits w)))"
    using unat_bval[of x] lt by (simp add: word_less_nat_alt)
  with look lt show ?thesis by blast
qed

lemma entry_width_bounds: "5 \<le> entry_width e" "entry_width e \<le> 6"
  by (simp_all add: entry_width_def)

lemma huff_code_iff: "huff_code c = Some l \<longleftrightarrow> (c, l) \<in> set huff_codes"
proof -
  have "distinct (map fst huff_codes)" by (simp add: huff_codes_def)
  then show ?thesis by (simp add: huff_code_def)
qed

lemma huff_code_length: "huff_code c = Some l \<Longrightarrow> length l \<in> {5, 6}"
  using codes_check by (auto simp: huff_code_iff)

lemma huff_prefix_free:
  assumes "huff_code c = Some l" and "huff_code c' = Some l'"
    and "take (length l) b = l" and "take (length l') b = l'"
  shows "c = c' \<and> l = l'"
proof -
  have "take (min (length l) (length l')) l = take (min (length l) (length l')) l'"
    using assms(3,4) by (metis min.commute min.idem take_take min.left_idem)
  then show ?thesis using codes_check assms(1,2) unfolding huff_code_iff by blast
qed

text \<open>One character off the front of a bit string that has at least six bits.\<close>

lemma table_entry:
  assumes "6 \<le> length b"
  shows "(k_h2_tp_huff ! bval (take 6 b) \<noteq> 0 \<longrightarrow>
       huff_code (k_h2_tp_huff ! bval (take 6 b) AND NOT k_h2_tp_huff_wide) =
         Some (take (entry_width (k_h2_tp_huff ! bval (take 6 b))) b)) \<and>
     (huff_code c = Some l \<and> take (length l) b = l \<longrightarrow>
       k_h2_tp_huff ! bval (take 6 b) \<noteq> 0 \<and>
       k_h2_tp_huff ! bval (take 6 b) AND NOT k_h2_tp_huff_wide = c \<and>
       entry_width (k_h2_tp_huff ! bval (take 6 b)) = length l)"
proof -
  define v where "v = k_h2_tp_huff ! bval (take 6 b)"
  have len: "length (take 6 b) = 6" using assms by simp
  note chk = table_check[OF len, folded v_def]
  have tk: "take (entry_width v) (take 6 b) = take (entry_width v) b"
    using entry_width_bounds(2)[of v] by (simp add: min_def)
  have fwd: "huff_code (v AND NOT k_h2_tp_huff_wide) = Some (take (entry_width v) b)" if "v \<noteq> 0"
    using chk that tk by (simp add: huff_code_iff)
  moreover have "v \<noteq> 0 \<and> v AND NOT k_h2_tp_huff_wide = c \<and> entry_width v = length l"
    if c: "huff_code c = Some l" "take (length l) b = l"
  proof -
    have "length l \<le> 6" using huff_code_length[OF c(1)] by auto
    then have "take (length l) (take 6 b) = l" using c(2) by (simp add: min_def)
    then have "v \<noteq> 0" using chk c(1) by (auto simp: huff_code_iff list_all_iff)
    moreover have "take (length (take (entry_width v) b)) b = take (entry_width v) b"
      using assms entry_width_bounds(2)[of v] by simp
    ultimately have "v AND NOT k_h2_tp_huff_wide = c \<and> take (entry_width v) b = l"
      using huff_prefix_free[OF fwd c(1)] c(2) by simp
    moreover have "length (take (entry_width v) b) = entry_width v"
      using assms entry_width_bounds(2)[of v] by simp
    ultimately show ?thesis using \<open>v \<noteq> 0\<close> by auto
  qed
  ultimately show ?thesis unfolding v_def by blast
qed

primrec huff_dec :: "nat \<Rightarrow> bool list \<Rightarrow> (bytes \<times> bool list) option" where
  "huff_dec 0 b = Some ([], b)"
| "huff_dec (Suc n) b = (let v = k_h2_tp_huff ! bval (take 6 b) in
     if v = 0 then None
     else case huff_dec n (drop (entry_width v) b) of
         None \<Rightarrow> None
       | Some (t, r) \<Rightarrow> Some ((v AND NOT k_h2_tp_huff_wide) # t, r))"

lemma huff_dec_iff:
  "6 * n \<le> length b \<Longrightarrow> huff_dec n b = Some (t, r) \<longleftrightarrow>
     length t = n \<and> (\<forall>c \<in> set t. tp_alphabet c) \<and> b = huff_encode t @ r"
proof (induction n arbitrary: b t)
  case 0
  then show ?case by (auto simp: huff_encode_def)
next
  case (Suc n)
  define v where "v = k_h2_tp_huff ! bval (take 6 b)"
  have b6: "6 \<le> length b" using Suc.prems by simp
  note te = table_entry[OF b6, folded v_def]
  have IH: "huff_dec n (drop (entry_width v) b) = Some (t', r) \<longleftrightarrow>
     length t' = n \<and> (\<forall>c \<in> set t'. tp_alphabet c) \<and> drop (entry_width v) b = huff_encode t' @ r" for t'
    using Suc.prems entry_width_bounds(2)[of v] by (intro Suc.IH) simp
  have dec: "huff_dec (Suc n) b = Some (t, r) \<longleftrightarrow> v \<noteq> 0 \<and> (\<exists>t'. t = (v AND NOT k_h2_tp_huff_wide) # t' \<and>
      huff_dec n (drop (entry_width v) b) = Some (t', r))"
    unfolding v_def by (auto simp: Let_def split: option.splits)
  show ?case
  proof
    assume "huff_dec (Suc n) b = Some (t, r)"
    then obtain t' where v: "v \<noteq> 0" and t: "t = (v AND NOT k_h2_tp_huff_wide) # t'"
      and d: "huff_dec n (drop (entry_width v) b) = Some (t', r)" using dec by blast
    have code: "huff_code (v AND NOT k_h2_tp_huff_wide) = Some (take (entry_width v) b)" using te v by blast
    moreover have "b = take (entry_width v) b @ huff_encode t' @ r"
      using d IH append_take_drop_id[of "entry_width v" b] by simp
    ultimately show "length t = Suc n \<and> (\<forall>c \<in> set t. tp_alphabet c) \<and> b = huff_encode t @ r"
      using d IH t by (auto simp: huff_encode_def tp_alphabet_def)
  next
    assume A: "length t = Suc n \<and> (\<forall>c \<in> set t. tp_alphabet c) \<and> b = huff_encode t @ r"
    then obtain c t' where t: "t = c # t'" by (cases t) auto
    with A obtain l where l: "huff_code c = Some l" by (auto simp: tp_alphabet_def)
    have b: "b = l @ huff_encode t' @ r" using A t l by (simp add: huff_encode_def)
    have "v \<noteq> 0 \<and> v AND NOT k_h2_tp_huff_wide = c \<and> entry_width v = length l"
    proof -
      have "take (length l) b = l" using b by simp
      with l te show ?thesis by blast
    qed
    moreover have "drop (length l) b = huff_encode t' @ r" using b by simp
    moreover have "length t' = n \<and> (\<forall>c \<in> set t'. tp_alphabet c)" using A t by simp
    ultimately show "huff_dec (Suc n) b = Some (t, r)"
      using IH[of t'] t by (metis dec)
  qed
qed

lemma step_eq:
  assumes "length w = 64" and "i < 55" and "hx_bit c + 6 \<le> 504" and "length (hx_out c) = 55"
  shows "h2_huff_step w i c =
    (let v = k_h2_tp_huff ! bval (take 6 (drop (hx_bit c) (octet_bits w))) in
     Some (\<lparr>hx_out = (hx_out c)[i := v AND NOT k_h2_tp_huff_wide], hx_bit = hx_bit c + entry_width v,
            hx_invalid = hx_invalid c + (if v = 0 then 1 else 0)\<rparr>, False))"
proof -
  obtain x where x: "huff_lookahead w (hx_bit c) = Some x"
    "unat x = bval (take 6 (drop (hx_bit c) (octet_bits w)))" "unat x < 64"
    using lookahead_bits[OF assms(1,3)] by blast
  have tab: "length k_h2_tp_huff = 64" by (simp add: k_h2_tp_huff_def)
  have put: "put_bytes (hx_out c) i [y] = Some ((hx_out c)[i := y])" for y
    using assms(2,4) by (simp add: put_bytes_def upd_conv_take_nth_drop)
  show ?thesis
    using x assms(2) tab put
    by (simp add: h2_huff_step_def k_hpack_value_len_tp_def entry_width_def Let_def)
qed

lemma huff_loop:
  assumes "length w = 64"
  shows "i + n = 55 \<Longrightarrow> hx_bit c \<le> 6 * i \<Longrightarrow> length (hx_out c) = 55 \<Longrightarrow>
    \<exists>c'. bpf_loop_from n i (h2_huff_step w) c = Some c' \<and> length (hx_out c') = 55 \<and>
      hx_invalid c \<le> hx_invalid c' \<and>
      (case huff_dec n (drop (hx_bit c) (octet_bits w)) of
         None \<Rightarrow> hx_invalid c < hx_invalid c'
       | Some (t, r) \<Rightarrow> hx_invalid c' = hx_invalid c \<and> hx_out c' = take i (hx_out c) @ t \<and>
           hx_bit c' + length r = 512)"
proof (induction n arbitrary: i c)
  case 0
  then show ?case using assms by simp
next
  case (Suc n)
  define b where "b = drop (hx_bit c) (octet_bits w)"
  define v where "v = k_h2_tp_huff ! bval (take 6 b)"
  define c1 where "c1 = \<lparr>hx_out = (hx_out c)[i := v AND NOT k_h2_tp_huff_wide],
     hx_bit = hx_bit c + entry_width v, hx_invalid = hx_invalid c + (if v = 0 then 1 else 0)\<rparr>"
  have step: "h2_huff_step w i c = Some (c1, False)"
    using step_eq[OF assms, of i c] Suc.prems by (simp add: c1_def v_def b_def Let_def)
  have "hx_bit c1 \<le> 6 * Suc i"
    using Suc.prems entry_width_bounds(2)[of v] by (simp add: c1_def)
  moreover have "length (hx_out c1) = 55" using Suc.prems by (simp add: c1_def)
  ultimately obtain c' where c': "bpf_loop_from n (Suc i) (h2_huff_step w) c1 = Some c'"
    "length (hx_out c') = 55" "hx_invalid c1 \<le> hx_invalid c'"
    and d: "case huff_dec n (drop (hx_bit c1) (octet_bits w)) of
         None \<Rightarrow> hx_invalid c1 < hx_invalid c'
       | Some (t, r) \<Rightarrow> hx_invalid c' = hx_invalid c1 \<and> hx_out c' = take (Suc i) (hx_out c1) @ t \<and>
           hx_bit c' + length r = 512"
    using Suc.IH[of "Suc i" c1] Suc.prems(1) by auto
  have drop: "drop (hx_bit c1) (octet_bits w) = drop (entry_width v) b"
    by (simp add: c1_def b_def add.commute)
  have tk: "take (Suc i) (hx_out c1) = take i (hx_out c) @ [v AND NOT k_h2_tp_huff_wide]"
    using Suc.prems by (simp add: c1_def take_Suc_conv_app_nth)
  have dec: "huff_dec (Suc n) b = (if v = 0 then None
     else case huff_dec n (drop (entry_width v) b) of
         None \<Rightarrow> None | Some (t, r) \<Rightarrow> Some ((v AND NOT k_h2_tp_huff_wide) # t, r))"
    unfolding huff_dec.simps Let_def v_def ..
  have inv: "hx_invalid c1 = hx_invalid c + (if v = 0 then 1 else 0)" by (simp add: c1_def)
  have "case huff_dec (Suc n) b of
         None \<Rightarrow> hx_invalid c < hx_invalid c'
       | Some (t, r) \<Rightarrow> hx_invalid c' = hx_invalid c \<and> hx_out c' = take i (hx_out c) @ t \<and>
           hx_bit c' + length r = 512"
    unfolding dec using d[unfolded drop tk] c'(3) inv by (auto split: option.splits if_splits)
  then show ?case
    using step c' inv unfolding b_def[symmetric] by auto
qed

lemma huff_encode_length:
  "(\<forall>c \<in> set t. tp_alphabet c) \<Longrightarrow> 5 * length t \<le> length (huff_encode t) \<and> length (huff_encode t) \<le> 6 * length t"
proof (induction t)
  case Nil
  then show ?case by (simp add: huff_encode_def)
next
  case (Cons c t)
  then obtain l where "huff_code c = Some l" by (auto simp: tp_alphabet_def)
  moreover from this have "length l \<in> {5, 6}" by (rule huff_code_length)
  ultimately show ?case using Cons by (auto simp: huff_encode_def)
qed

lemma octet_bits_take: "len \<le> length w \<Longrightarrow> octet_bits (take len w) = take (8 * len) (octet_bits w)"
proof (rule nth_equalityI)
  fix i assume "len \<le> length w" and "i < length (octet_bits (take len w))"
  then have "i < 8 * len" "i < 8 * length w" "len \<le> length w" by auto
  moreover from this have "i div 8 < len" by linarith
  ultimately show "octet_bits (take len w) ! i = take (8 * len) (octet_bits w) ! i"
    by (simp add: octet_bits_nth)
qed simp

text \<open>The padding test of the last octet: its low \<open>pad\<close> bits are ones.\<close>

lemma pad_mask_iff:
  assumes "pad \<le> 7" 
  shows "(x :: u8) AND (push_bit pad 1 - 1) = push_bit pad 1 - 1 \<longleftrightarrow> (\<forall>j < pad. bit x j)"
proof -
  have m: "(push_bit pad 1 - 1 :: u8) = mask pad"
    by (simp add: mask_eq_exp_minus_1 push_bit_eq_mult)
  have "x AND mask pad = mask pad \<longleftrightarrow> (\<forall>j. j < pad \<and> j < 8 \<longrightarrow> bit x j)"
    by (auto simp: bit_eq_iff bit_simps)
  then show ?thesis unfolding m using assms by auto
qed

lemma tail_ones_iff:
  assumes "length w = 64" and "0 < len" and "len \<le> 64" and "pad \<le> 7" 
  shows "drop (8 * len - pad) (take (8 * len) (octet_bits w)) = replicate pad True \<longleftrightarrow>
    (\<forall>j < pad. bit (w ! (len - 1)) j)"
proof -
  define d where "d = drop (8 * len - pad) (take (8 * len) (octet_bits w))"
  have nth: "d ! i = bit (w ! (len - 1)) (pad - 1 - i)" if "i < pad" for i
  proof -
    define q where "q = 8 - pad + i"
    have k: "8 * len - pad + i = 8 * (len - 1) + q" and "q < 8"
      using assms that unfolding q_def by linarith+
    then have "(8 * len - pad + i) div 8 = len - 1" "(8 * len - pad + i) mod 8 = q"
      unfolding k by simp_all
    moreover have "7 - q = pad - 1 - i" using that assms(4) unfolding q_def by linarith
    ultimately show ?thesis using assms that by (simp add: octet_bits_nth d_def)
  qed
  have "length d = pad" using assms by (simp add: d_def)
  then have "d = replicate pad True \<longleftrightarrow> (\<forall>i < pad. bit (w ! (len - 1)) (pad - 1 - i))"
    by (auto simp: list_eq_iff_nth_eq nth)
  also have "\<dots> \<longleftrightarrow> (\<forall>j < pad. bit (w ! (len - 1)) j)"
  proof safe
    fix j assume a: "\<forall>i < pad. bit (w ! (len - 1)) (pad - 1 - i)" and j: "j < pad"
    have "pad - 1 - (pad - 1 - j) = j" using j by linarith
    with a[rule_format, of "pad - 1 - j"] j show "bit (w ! (len - 1)) j" by simp
  qed simp
  finally show ?thesis unfolding d_def .
qed

definition tp_value_shape :: "bytes \<Rightarrow> bool" where
  "tp_value_shape t \<longleftrightarrow> t ! 0 = 0x30 \<and> t ! 1 = 0x30 \<and> t ! k_tp_val_dash1 = 0x2d \<and>
     t ! k_tp_val_dash2 = 0x2d \<and> t ! k_tp_val_dash3 = 0x2d"

lemma decode_unfold:
  assumes w: "length w = 64" and "length out = 55" and len: "35 \<le> len" "len \<le> 42"
  shows "case huff_dec 55 (octet_bits w) of
      None \<Rightarrow> \<exists>t. h2_huff_decode_tp w len out = Some (t, False)
    | Some (t, r) \<Rightarrow> h2_huff_decode_tp w len out =
        Some (t, (512 - length r + 7) div 8 = len \<and>
          (\<forall>j < len * 8 - (512 - length r). bit (w ! (len - 1)) j) \<and> tp_value_shape t)"
proof -
  let ?c = "\<lparr>hx_out = out, hx_bit = 0, hx_invalid = 0\<rparr>"
  obtain c' where c': "bpf_loop_from 55 0 (h2_huff_step w) ?c = Some c'"
    "length (hx_out c') = 55"
    and d0: "case huff_dec 55 (drop (hx_bit ?c) (octet_bits w)) of
         None \<Rightarrow> hx_invalid ?c < hx_invalid c'
       | Some (t, r) \<Rightarrow> hx_invalid c' = hx_invalid ?c \<and> hx_out c' = take 0 (hx_out ?c) @ t \<and>
           hx_bit c' + length r = 512"
    using huff_loop[OF w, of 0 55 ?c] assms(2) by (metis (no_types, lifting) add_0 h2_huff_ctx.select_convs le0 mult_0_right)
  have d: "case huff_dec 55 (octet_bits w) of
         None \<Rightarrow> 0 < hx_invalid c'
       | Some (t, r) \<Rightarrow> hx_invalid c' = 0 \<and> hx_out c' = t \<and> hx_bit c' + length r = 512"
    using d0 by (auto split: option.splits)
  have rng: "\<not> (len < k_h2_tp_huff_min \<or> len > k_h2_tp_huff_max)"
    using len by (simp add: k_h2_tp_huff_min_def k_h2_tp_huff_max_def)
  have loop: "bpf_loop k_hpack_value_len_tp (h2_huff_step w) ?c = Some c'"
    using c' by (simp add: bpf_loop_def k_hpack_value_len_tp_def)
  show ?thesis
  proof (cases "huff_dec 55 (octet_bits w)")
    case None
    then show ?thesis using d rng loop by (simp add: h2_huff_decode_tp_def Let_def)
  next
    case (Some tr)
    obtain t r where tr: "tr = (t, r)" by (cases tr)
    from d Some tr have inv: "hx_invalid c' = 0" and out: "hx_out c' = t" and bit: "hx_bit c' = 512 - length r"
      by auto
    define p where "p = len * 8 - (512 - length r)"
    have rd: "rd w (min (len - 1) (k_h2_tp_huff_window - 1)) = Some (w ! (len - 1))"
      using w len by (simp add: k_h2_tp_huff_window_def)
    have p7: "p \<le> 7" if "(512 - length r + 7) div 8 = len"
      using that unfolding p_def by linarith
    have "h2_huff_decode_tp w len out =
        Some (t, (512 - length r + 7) div 8 = len \<and> (\<forall>j < p. bit (w ! (len - 1)) j) \<and> tp_value_shape t)"
      using rng loop inv out bit c'(2) rd p7 pad_mask_iff[of p "w ! (len - 1)"]
      by (cases "(512 - length r + 7) div 8 = len")
         (auto simp: h2_huff_decode_tp_def Let_def p_def[symmetric] tp_value_shape_def tp_layout)
    then show ?thesis using Some tr p_def by simp
  qed
qed

lemma decode_out_of_range: "len < 35 \<or> 42 < len \<Longrightarrow> h2_huff_decode_tp w len out = Some (out, False)"
  by (auto simp: h2_huff_decode_tp_def k_h2_tp_huff_min_def k_h2_tp_huff_max_def)

text \<open>The octets are the code of the value, filled up with at most seven ones.\<close>

definition huff_octets :: "bytes \<Rightarrow> bytes \<Rightarrow> bool" where
  "huff_octets enc t \<longleftrightarrow> (\<exists>p < 8. octet_bits enc = huff_encode t @ replicate p True)"

lemma huff_octets_len:
  assumes "huff_octets enc t" and "length t = 55" and "\<forall>c \<in> set t. tp_alphabet c"
  shows "35 \<le> length enc" and "length enc \<le> 42" and "(length (huff_encode t) + 7) div 8 = length enc"
proof -
  obtain p where p: "p < 8" "octet_bits enc = huff_encode t @ replicate p True"
    using assms(1) by (auto simp: huff_octets_def)
  have "8 * length enc = length (huff_encode t) + p"
    using arg_cong[OF p(2), of length] by simp
  moreover have "275 \<le> length (huff_encode t)" "length (huff_encode t) \<le> 330"
    using huff_encode_length[OF assms(3)] assms(2) by simp_all
  ultimately show "35 \<le> length enc" "length enc \<le> 42" "(length (huff_encode t) + 7) div 8 = length enc"
    using p(1) by linarith+
qed

lemma huff_octets_tail:
  assumes w: "length w = 64" and len: "0 < len" "len \<le> 64" and b: "octet_bits w = huff_encode t @ r"
    and fit: "(length (huff_encode t) + 7) div 8 = len"
  shows "huff_octets (take len w) t \<longleftrightarrow> (\<forall>j < len * 8 - length (huff_encode t). bit (w ! (len - 1)) j)"
proof -
  define p where "p = len * 8 - length (huff_encode t)"
  have p: "p \<le> 7" "8 * len - p = length (huff_encode t)" "length (huff_encode t) \<le> 8 * len"
    using fit unfolding p_def by linarith+
  have "octet_bits (take len w) = huff_encode t @ take p r"
    using w len b p by (simp add: octet_bits_take p_def mult.commute)
  moreover have "drop (8 * len - p) (take (8 * len) (octet_bits w)) = take p r"
    using b p by (simp add: p_def mult.commute)
  moreover have lp: "length (take p r) = p"
    using arg_cong[OF b, of length] w len p by (simp add: p_def)
  ultimately have "huff_octets (take len w) t \<longleftrightarrow> (\<exists>q < 8. take p r = replicate q True)"
    unfolding huff_octets_def by simp
  also have "\<dots> \<longleftrightarrow> take p r = replicate p True"
  proof
    assume "\<exists>q < 8. take p r = replicate q True"
    then obtain q where "take p r = replicate q True" by blast
    with lp show "take p r = replicate p True" by (metis length_replicate)
  next
    assume "take p r = replicate p True"
    with p(1) show "\<exists>q < 8. take p r = replicate q True" by (intro exI[of _ p]) simp
  qed
  finally have "huff_octets (take len w) t \<longleftrightarrow> take p r = replicate p True" .
  then show ?thesis
    using tail_ones_iff[OF w len p(1)] \<open>drop (8 * len - p) (take (8 * len) (octet_bits w)) = take p r\<close>
    unfolding p_def by simp
qed

lemma huff_decode_char:
  assumes w: "length w = 64" and "length out = 55" and "len \<le> 64"
  shows "(\<exists>t' ok. h2_huff_decode_tp w len out = Some (t', ok)) \<and>
    (h2_huff_decode_tp w len out = Some (t, True) \<longleftrightarrow>
     length t = 55 \<and> (\<forall>c \<in> set t. tp_alphabet c) \<and> tp_value_shape t \<and> huff_octets (take len w) t)"
proof (cases "35 \<le> len \<and> len \<le> 42")
  case False
  then have "h2_huff_decode_tp w len out = Some (out, False)" by (intro decode_out_of_range) auto
  moreover have "\<not> (length t = 55 \<and> (\<forall>c \<in> set t. tp_alphabet c) \<and> huff_octets (take len w) t)"
    using False huff_octets_len(1,2)[of "take len w" t] w assms(3) by auto
  ultimately show ?thesis by auto
next
  case True
  then have len: "35 \<le> len" "len \<le> 42" by auto
  note unf = decode_unfold[OF w assms(2) len]
  have dec: "huff_dec 55 (octet_bits w) = Some (t', r) \<longleftrightarrow>
      length t' = 55 \<and> (\<forall>c \<in> set t'. tp_alphabet c) \<and> octet_bits w = huff_encode t' @ r" for t' r
    using w by (intro huff_dec_iff) simp
  show ?thesis
  proof (cases "huff_dec 55 (octet_bits w)")
    case None
    then have "\<exists>t'. h2_huff_decode_tp w len out = Some (t', False)" using unf by simp
    moreover have "\<not> (length t = 55 \<and> (\<forall>c \<in> set t. tp_alphabet c) \<and> huff_octets (take len w) t)"
    proof
      assume a: "length t = 55 \<and> (\<forall>c \<in> set t. tp_alphabet c) \<and> huff_octets (take len w) t"
      then obtain p where "take (8 * len) (octet_bits w) = huff_encode t @ replicate p True"
        using w len by (auto simp: huff_octets_def octet_bits_take)
      then have "octet_bits w = huff_encode t @ replicate p True @ drop (8 * len) (octet_bits w)"
        using append_take_drop_id[of "8 * len" "octet_bits w"] by simp
      then show False using a None dec by fastforce
    qed
    ultimately show ?thesis by auto
  next
    case (Some tr)
    obtain t' r where tr: "tr = (t', r)" by (cases tr)
    have t': "length t' = 55" "\<forall>c \<in> set t'. tp_alphabet c" "octet_bits w = huff_encode t' @ r"
      using Some tr dec by auto
    have r: "512 - length r = length (huff_encode t')"
      using arg_cong[OF t'(3), of length] w by simp
    have run: "h2_huff_decode_tp w len out = Some (t', (length (huff_encode t') + 7) div 8 = len \<and>
          (\<forall>j < len * 8 - length (huff_encode t'). bit (w ! (len - 1)) j) \<and> tp_value_shape t')"
      using unf Some tr r by simp
    have uniq: "t = t'"
      if U: "length t = 55" "\<forall>c \<in> set t. tp_alphabet c" "huff_octets (take len w) t"
    proof -
      obtain p where "take (8 * len) (octet_bits w) = huff_encode t @ replicate p True"
        using U w len by (auto simp: huff_octets_def octet_bits_take)
      then have "octet_bits w = huff_encode t @ replicate p True @ drop (8 * len) (octet_bits w)"
        using append_take_drop_id[of "8 * len" "octet_bits w"] by simp
      then have "huff_dec 55 (octet_bits w) = Some (t, replicate p True @ drop (8 * len) (octet_bits w))"
        using dec U by blast
      with Some tr show ?thesis by simp
    qed
    have tail: "(length (huff_encode t') + 7) div 8 = len \<and>
          (\<forall>j < len * 8 - length (huff_encode t'). bit (w ! (len - 1)) j) \<longleftrightarrow> huff_octets (take len w) t'"
      using huff_octets_tail[OF w _ assms(3) t'(3)] huff_octets_len(3)[OF _ t'(1,2), of "take len w"] len w by auto
    show ?thesis using run tail uniq t' by auto
  qed
qed

text \<open>
  C13: the decoder is memory safe, and it accepts \<open>len\<close> octets of its window with the value \<open>t\<close>
  exactly when \<open>t\<close> has the 55 characters and the layout of a traceparent value and the octets
  are the RFC 7541 Huffman code of \<open>t\<close> padded with at most seven ones. Every encoding of a value
  decodes to that value, and nothing else is accepted.
\<close>

theorem huff_decode_iff:
  assumes w: "length w = 64" and "length out = 55" and "len \<le> 64"
  shows "(\<exists>t' ok. h2_huff_decode_tp w len out = Some (t', ok)) \<and>
    (h2_huff_decode_tp w len out = Some (t, True) \<longleftrightarrow>
     length t = 55 \<and> (\<forall>c \<in> set t. tp_alphabet c) \<and> tp_value_shape t \<and> huff_octets (take len w) t)"
  using assms by (rule huff_decode_char)

lemma octet_bits_Cons: "octet_bits (b # w) = map (bit b) [7, 6, 5, 4, 3, 2, 1, 0] @ octet_bits w"
proof (rule nth_equalityI)
  fix i assume i: "i < length (octet_bits (b # w))"
  show "octet_bits (b # w) ! i = (map (bit b) [7, 6, 5, 4, 3, 2, 1, 0] @ octet_bits w) ! i"
  proof (cases "i < 8")
    case True
    then have "i \<in> {0, 1, 2, 3, 4, 5, 6, 7}" by auto
    with i show ?thesis by (auto simp: octet_bits_nth nth_append)
  next
    case False
    then obtain k where k: "i = k + 8" by (metis add.commute le_Suc_ex not_less)
    moreover have "(k + 8) div 8 = Suc (k div 8)" by simp
    ultimately show ?thesis using i by (simp add: octet_bits_nth nth_append)
  qed
qed simp

lemma octet_bits_Nil: "octet_bits [] = []"
  by (simp add: octet_bits_def)

definition sample_tp_value :: bytes where
  "sample_tp_value = ascii ''00-aaaaaaaaaaaaaaaaaaaaaaaaaaaaaaaa-bbbbbbbbbbbbbbbb-01''"

definition sample_huff :: bytes where
  "sample_huff = [0x00, 0x16, 0x18, 0xc6, 0x31, 0x8c, 0x63, 0x18, 0xc6, 0x31, 0x8c, 0x63, 0x18, 0xc6, 0x31, 0x8c, 0x63, 0x18, 0xc6, 0x31, 0x8c, 0x63, 0x5a, 0x38, 0xe3, 0x8e, 0x38, 0xe3, 0x8e, 0x38, 0xe3, 0x8e, 0x38, 0xe3, 0x8d, 0x60, 0x07]"

lemma sample_huff_octets: "huff_octets sample_huff sample_tp_value"
proof -
  have "octet_bits sample_huff = huff_encode sample_tp_value @ [True, True]"
    by (simp add: sample_huff_def octet_bits_Cons octet_bits_Nil huff_encode_def sample_tp_value_def
      ascii_def huff_code_def huff_codes_def)
  moreover have "replicate 2 True = [True, True]" by (simp add: numeral_2_eq_2)
  ultimately show ?thesis unfolding huff_octets_def by (intro exI[of _ 2]) simp
qed

theorem huff_decode_iff_witness:
  "h2_huff_decode_tp (sample_huff @ replicate 27 0) 37 (replicate 55 0) = Some (sample_tp_value, True)"
proof -
  have "length sample_tp_value = 55" "\<forall>c \<in> set sample_tp_value. tp_alphabet c" "tp_value_shape sample_tp_value"
    by (simp_all add: sample_tp_value_def ascii_def tp_alphabet_def huff_code_def huff_codes_def
      tp_value_shape_def tp_layout)
  moreover have "length sample_huff = 37" by (simp add: sample_huff_def)
  ultimately show ?thesis
    using huff_decode_iff[of "sample_huff @ replicate 27 0" "replicate 55 0" 37 sample_tp_value]
      sample_huff_octets by simp
qed

end
