(* ===== verification/Hpack_Traceparent.thy ===== *)
theory Hpack_Traceparent
  imports H2_Huffman
begin

section \<open>Traceparent fields in HPACK blocks\<close>

text \<open>
  Models \<open>bpf/common/h2_tp_scan.h\<close> and \<open>bpf/generictracer/hpack_traceparent_parse.h\<close>: the
  classification of a candidate field, the scan for the header by name, the scan for values
  whose name is only a table index, and the decoding of what they find. The main theorem takes
  a traceparent from its serialisation through either encoding back to the ids it carries.
\<close>

subsection \<open>Constants\<close>

definition k_hpack_tp_name :: bytes where "k_hpack_tp_name = ascii ''traceparent''"
definition k_hpack_tp_huffman :: bytes where
  "k_hpack_tp_huffman = [0x4d, 0x83, 0x21, 0x6b, 0x1d, 0x85, 0xa9, 0x3f]"
definition k_hpack_tp_name_len :: nat where "k_hpack_tp_name_len = 11"
definition k_hpack_tp_name_huffman_len :: nat where "k_hpack_tp_name_huffman_len = 8"
definition k_hpack_tp_name_offset :: nat where "k_hpack_tp_name_offset = 2"
definition k_hpack_tp_val_offset :: nat where "k_hpack_tp_val_offset = 14"
definition k_hpack_tp_val_offset_huffman :: nat where "k_hpack_tp_val_offset_huffman = 11"
definition k_hpack_tp_max_scan :: nat where "k_hpack_tp_max_scan = 247"
definition k_h2_tp_hpack_size :: nat where "k_h2_tp_hpack_size = 69"
definition k_h2_tp_hpack_huffman_size :: nat where "k_h2_tp_hpack_huffman_size = 66"
definition k_h2_nlb_plain :: u8 where "k_h2_nlb_plain = 11"
definition k_h2_nlb_huffman :: u8 where "k_h2_nlb_huffman = 0x88"
definition k_h2_tp_need_name_huffman :: nat where "k_h2_tp_need_name_huffman = 10"
definition k_h2_tp_need_name_plain :: nat where "k_h2_tp_need_name_plain = 13"
definition k_h2_tp_need_indexed_value :: nat where "k_h2_tp_need_indexed_value = 56"
definition k_h2_tp_hpack_huff_min :: nat where "k_h2_tp_hpack_huff_min = 46"
definition k_h2_tp_huff_at_max :: nat where "k_h2_tp_huff_at_max = 261"
definition k_kprobes_http2_buf_size :: nat where "k_kprobes_http2_buf_size = 256"

lemmas hpack_consts = k_hpack_tp_name_len_def k_hpack_tp_name_huffman_len_def
  k_hpack_tp_name_offset_def k_hpack_tp_val_offset_def k_hpack_tp_val_offset_huffman_def
  k_hpack_tp_max_scan_def k_h2_tp_hpack_size_def k_h2_tp_hpack_huffman_size_def
  k_h2_nlb_plain_def k_h2_nlb_huffman_def k_h2_tp_need_name_huffman_def
  k_h2_tp_need_name_plain_def k_h2_tp_need_indexed_value_def k_h2_tp_hpack_huff_min_def
  k_h2_tp_huff_at_max_def k_kprobes_http2_buf_size_def k_hpack_value_len_tp_def
  k_h2_tp_huff_min_def k_h2_tp_huff_max_def k_h2_tp_huff_window_def

subsection \<open>Classifying a candidate\<close>

definition h2_tp_match_name_plain :: "bytes \<Rightarrow> nat \<Rightarrow> bool option" where
  "h2_tp_match_name_plain b p = do {
     s \<leftarrow> rdn b (p + k_hpack_tp_name_offset) k_hpack_tp_name_len;
     Some (s = k_hpack_tp_name) }"

definition h2_tp_match_name_huffman :: "bytes \<Rightarrow> nat \<Rightarrow> bool option" where
  "h2_tp_match_name_huffman b p = do {
     s \<leftarrow> rdn b (p + k_hpack_tp_name_offset) k_hpack_tp_name_huffman_len;
     Some (s = k_hpack_tp_huffman) }"

definition h2_tp_match_plain :: "bytes \<Rightarrow> nat \<Rightarrow> bool option" where
  "h2_tp_match_plain b p = do {
     name \<leftarrow> h2_tp_match_name_plain b p;
     if \<not> name then Some False else do {
     v \<leftarrow> rd b (p + k_hpack_tp_name_offset + k_hpack_tp_name_len);
     Some (unat v = k_hpack_value_len_tp) }}"

definition h2_tp_match_huffman :: "bytes \<Rightarrow> nat \<Rightarrow> bool option" where
  "h2_tp_match_huffman b p = do {
     name \<leftarrow> h2_tp_match_name_huffman b p;
     if \<not> name then Some False else do {
     v \<leftarrow> rd b (p + k_hpack_tp_name_offset + k_hpack_tp_name_huffman_len);
     Some (unat v = k_hpack_value_len_tp) }}"

definition h2_tp_match_indexed_value :: "bytes \<Rightarrow> nat \<Rightarrow> bool option" where
  "h2_tp_match_indexed_value b p = do {
     head \<leftarrow> match_seq (map (\<lambda>c v. v = c) [word_of_nat k_hpack_value_len_tp, 0x30, 0x30, 0x2d]) b p;
     if \<not> head then Some False else do {
     d2 \<leftarrow> rd b (p + 1 + k_tp_val_dash2);
     if d2 \<noteq> 0x2d then Some False else do {
     d3 \<leftarrow> rd b (p + 1 + k_tp_val_dash3);
     Some (d3 = 0x2d) }}}"

definition h2_tp_is_candidate :: "u8 \<Rightarrow> u8 \<Rightarrow> u8 \<Rightarrow> bool" where
  "h2_tp_is_candidate b0 b1 b2 =
     (if unat b0 = k_hpack_value_len_tp then b1 = 0x30 \<and> b2 = 0x30
      else if \<not> h2_hpack_is_literal b0 then False
      else if b1 = k_h2_nlb_plain then b2 = k_hpack_tp_name ! 0
      else b1 = k_h2_nlb_huffman \<and> b2 = k_hpack_tp_huffman ! 0)"

datatype h2_tp_kind = k_h2_tp_none | k_h2_tp_present | k_h2_tp_adoptable

text \<open>The pointers \<open>p\<close> and \<open>end\<close> are offsets into the packet or buffer.\<close>

definition h2_tp_classify :: "bytes \<Rightarrow> nat \<Rightarrow> nat \<Rightarrow> h2_tp_kind option" where
  "h2_tp_classify b p e =
     (if p + k_h2_tp_need_name_huffman > e then Some k_h2_tp_none
      else do {
        p0 \<leftarrow> rd b p;
        if unat p0 = k_hpack_value_len_tp then
          (if p + k_h2_tp_need_indexed_value \<le> e then do {
             m \<leftarrow> h2_tp_match_indexed_value b p;
             Some (if m then k_h2_tp_present else k_h2_tp_none) }
           else Some k_h2_tp_none)
        else do {
          p1 \<leftarrow> rd b (p + 1);
          if p1 = k_h2_nlb_huffman then do {
            full \<leftarrow> (if p + k_h2_tp_hpack_huffman_size \<le> e then h2_tp_match_huffman b p else Some False);
            if full then Some k_h2_tp_adoptable
            else do {
              name \<leftarrow> h2_tp_match_name_huffman b p;
              Some (if name then k_h2_tp_present else k_h2_tp_none) }}
          else if p1 = k_h2_nlb_plain \<and> p + k_h2_tp_need_name_plain \<le> e then do {
            full \<leftarrow> (if p + k_h2_tp_hpack_size \<le> e then h2_tp_match_plain b p else Some False);
            if full then Some k_h2_tp_adoptable
            else do {
              name \<leftarrow> h2_tp_match_name_plain b p;
              Some (if name then k_h2_tp_present else k_h2_tp_none) }}
          else Some k_h2_tp_none }})"

subsection \<open>Parsing a value\<close>

definition try_parse_tp_value :: "bytes \<Rightarrow> nat \<Rightarrow> tp_info \<Rightarrow> (tp_info \<times> bool) option" where
  "try_parse_tp_value b val tp = do {
     d1 \<leftarrow> rd b (val + k_tp_val_dash1);
     if d1 \<noteq> 0x2d then Some (tp, False) else do {
     d2 \<leftarrow> rd b (val + k_tp_val_dash2);
     if d2 \<noteq> 0x2d then Some (tp, False) else do {
     d3 \<leftarrow> rd b (val + k_tp_val_dash3);
     if d3 \<noteq> 0x2d then Some (tp, False) else do {
     tid \<leftarrow> decode_hex b (val + k_tp_val_trace_id_start) (TRACE_ID_SIZE_BYTES * 2);
     par \<leftarrow> decode_hex b (val + k_tp_val_span_id_start) (SPAN_ID_SIZE_BYTES * 2);
     fl \<leftarrow> decode_hex b (val + k_tp_val_flags_start) 2;
     f \<leftarrow> rd fl 0;
     Some (tp\<lparr>tp_trace_id := tid, tp_parent_id := par, tp_flags := f\<rparr>, True) }}}}"

definition k_hex_chars :: "u8 \<Rightarrow> bool" where
  "k_hex_chars c \<longleftrightarrow> (0x30 \<le> c \<and> c \<le> 0x39) \<or> (0x61 \<le> c \<and> c \<le> 0x66) \<or> (0x41 \<le> c \<and> c \<le> 0x46)"

text \<open>The eight characters at the edges of the ids that are checked for being hexadecimal.\<close>

definition hex_edges :: "nat list" where
  "hex_edges = [k_tp_val_trace_id_start, k_tp_val_trace_id_start + 1, k_tp_val_dash2 - 2,
     k_tp_val_dash2 - 1, k_tp_val_span_id_start, k_tp_val_span_id_start + 1,
     k_tp_val_dash3 - 2, k_tp_val_dash3 - 1]"

primrec all_hex_at :: "bytes \<Rightarrow> nat \<Rightarrow> nat list \<Rightarrow> bool option" where
  "all_hex_at b val [] = Some True"
| "all_hex_at b val (k # ks) = do {
     c \<leftarrow> rd b (val + k);
     rest \<leftarrow> all_hex_at b val ks;
     Some (k_hex_chars c \<and> rest) }"

text \<open>The tests of one turn of the loop of \<open>find_hpack_traceparent_value\<close>, before parsing.\<close>

definition indexed_value_at :: "bytes \<Rightarrow> nat \<Rightarrow> bool option" where
  "indexed_value_at data i = do {
     v \<leftarrow> rd data i;
     if unat v \<noteq> k_hpack_value_len_tp then Some False else do {
     head \<leftarrow> match_seq (map (\<lambda>c v. v = c) [0x30, 0x30, 0x2d]) data (i + 1);
     if \<not> head then Some False else do {
     d2 \<leftarrow> rd data (i + 1 + k_tp_val_dash2);
     if d2 \<noteq> 0x2d then Some False else do {
     d3 \<leftarrow> rd data (i + 1 + k_tp_val_dash3);
     if d3 \<noteq> 0x2d then Some False else all_hex_at data (i + 1) hex_edges }}}}"

primrec value_scan :: "nat \<Rightarrow> bytes \<Rightarrow> nat \<Rightarrow> tp_info \<Rightarrow> (tp_info \<times> bool) option" where
  "value_scan 0 data i tp = Some (tp, False)"
| "value_scan (Suc n) data i tp = do {
     hit \<leftarrow> indexed_value_at data i;
     if hit then try_parse_tp_value data (i + 1) tp else value_scan n data (Suc i) tp }"

definition find_hpack_traceparent_value :: "bytes \<Rightarrow> nat \<Rightarrow> tp_info \<Rightarrow> (tp_info \<times> bool) option" where
  "find_hpack_traceparent_value data data_len tp =
     (if data_len < k_hpack_value_len_tp + 1 then Some (tp, False)
      else let max_pos = data_len - k_hpack_value_len_tp - 1
           in value_scan (min k_hpack_tp_max_scan (max_pos + 1)) data 0 tp)"

subsection \<open>Values without a name\<close>

definition h2_huff_scan_step ::
  "bytes \<Rightarrow> nat \<Rightarrow> nat \<Rightarrow> nat \<Rightarrow> h2_tp_huff_scan \<Rightarrow> (h2_tp_huff_scan \<times> bool) option" where
  "h2_huff_scan_step base off max_pos i scan =
     (if i \<ge> k_hpack_tp_max_scan \<or> i > max_pos then Some (scan, True)
      else do {
        b \<leftarrow> rd base ((off + i) mod k_kprobes_http2_buf_size);
        if \<not> h2_tp_huff_len_plausible b \<or> i + 1 \<le> unat (hs_resume scan) then Some (scan, False)
        else let cand = unat (hs_count scan) in
          if cand \<ge> k_h2_tp_huff_max_candidates then Some (scan, True)
          else Some (scan\<lparr>hs_at := (hs_at scan)[cand := word_of_nat (i + 1)],
                          hs_len := (hs_len scan)[cand := b AND NOT k_hpack_huffman_flag],
                          hs_count := word_of_nat (cand + 1)\<rparr>, False) })"

definition find_hpack_traceparent_huffman ::
  "bytes \<Rightarrow> nat \<Rightarrow> nat \<Rightarrow> h2_tp_huff_scan \<Rightarrow> (h2_tp_huff_scan \<times> bool) option" where
  "find_hpack_traceparent_huffman base off data_len scan =
     (let scan = scan\<lparr>hs_count := 0, hs_idx := 0\<rparr> in
      if data_len < k_h2_tp_huff_min + 1 then Some (scan, False)
      else do {
        scan \<leftarrow> bpf_loop k_hpack_tp_max_scan
          (h2_huff_scan_step base off (data_len - k_h2_tp_huff_min - 1)) scan;
        Some (scan, hs_count scan \<noteq> 0) })"

text \<open>
  The window \<open>w\<close>: 35 octets copied unconditionally, the next seven only inside the data, zeroes
  after them. The scratch buffers are the caller's; the window's old content is overwritten.
\<close>

definition huff_window :: "bytes \<Rightarrow> nat \<Rightarrow> nat \<Rightarrow> bytes option" where
  "huff_window data data_len val_at = do {
     low \<leftarrow> rdn data val_at k_h2_tp_huff_min;
     mid \<leftarrow> those (map (\<lambda>i. if val_at + i < data_len then rd data (val_at + i) else Some 0)
              [k_h2_tp_huff_min..<k_h2_tp_huff_max]);
     Some (low @ mid @ replicate (k_h2_tp_huff_window - k_h2_tp_huff_max) 0) }"

definition try_parse_tp_huffman_value ::
  "bytes \<Rightarrow> nat \<Rightarrow> h2_tp_huff_candidate \<Rightarrow> bytes \<Rightarrow> tp_info \<Rightarrow> (tp_info \<times> bool) option" where
  "try_parse_tp_huffman_value data data_len huff out tp =
     (let val_at = min (unat (hc_at huff)) k_h2_tp_huff_at_max; vlen = unat (hc_len huff) in
      if vlen = 0 \<or> val_at + vlen > data_len then Some (tp, False)
      else do {
        w \<leftarrow> huff_window data data_len val_at;
        (out, ok) \<leftarrow> h2_huff_decode_tp w vlen out;
        if \<not> ok then Some (tp, False) else try_parse_tp_value out 0 tp })"

subsection \<open>The scan by name\<close>

text \<open>
  One turn of the loop of \<open>parse_hpack_traceparent\<close>: continue, a plain value at an offset, or a
  Huffman value at an offset with its length.
\<close>

datatype name_hit = Next | Plain nat | Huff nat u8

definition value_after_name :: "bytes \<Rightarrow> nat \<Rightarrow> nat \<Rightarrow> nat \<Rightarrow> name_hit option" where
  "value_after_name data data_len val_at size_left = do {
     vlb \<leftarrow> rd data (val_at - 1);
     Some (if unat vlb = k_hpack_value_len_tp
           then (if size_left > data_len then Next else Plain val_at)
           else if h2_tp_huff_len_plausible vlb then Huff val_at (vlb AND NOT k_hpack_huffman_flag)
           else Next) }"

definition name_hit_at :: "bytes \<Rightarrow> nat \<Rightarrow> nat \<Rightarrow> name_hit option" where
  "name_hit_at data data_len i = do {
     b0 \<leftarrow> rd data i;
     if \<not> h2_hpack_is_literal b0 then Some Next else do {
     name_len_byte \<leftarrow> rd data (i + 1);
     if unat name_len_byte = k_hpack_tp_name_len then
       (if i + k_hpack_tp_val_offset > data_len then Some Next
        else do {
          s \<leftarrow> rdn data (i + k_hpack_tp_name_offset) k_hpack_tp_name_len;
          if s \<noteq> k_hpack_tp_name then Some Next
          else value_after_name data data_len (i + k_hpack_tp_val_offset) (i + k_h2_tp_hpack_size) })
     else if name_len_byte = word_of_nat k_hpack_tp_name_huffman_len OR 0x80 then
       (if i + k_hpack_tp_val_offset_huffman > data_len then Some Next
        else do {
          s \<leftarrow> rdn data (i + k_hpack_tp_name_offset) k_hpack_tp_name_huffman_len;
          if s \<noteq> k_hpack_tp_huffman then Some Next
          else value_after_name data data_len (i + k_hpack_tp_val_offset_huffman)
                 (i + k_h2_tp_hpack_huffman_size) })
     else Some Next }}"

primrec name_scan ::
  "nat \<Rightarrow> bytes \<Rightarrow> nat \<Rightarrow> nat \<Rightarrow> tp_info \<Rightarrow> (tp_info \<times> h2_tp_huff_candidate \<times> bool) option" where
  "name_scan 0 data data_len i tp = Some (tp, \<lparr>hc_at = 0, hc_len = 0\<rparr>, False)"
| "name_scan (Suc n) data data_len i tp = do {
     hit \<leftarrow> name_hit_at data data_len i;
     case hit of
       Next \<Rightarrow> name_scan n data data_len (Suc i) tp
     | Plain val \<Rightarrow> do {
         (tp, ok) \<leftarrow> try_parse_tp_value data val tp;
         Some (tp, \<lparr>hc_at = 0, hc_len = 0\<rparr>, ok) }
     | Huff val len \<Rightarrow> Some (tp, \<lparr>hc_at = word_of_nat val, hc_len = len\<rparr>, False) }"

definition parse_hpack_traceparent ::
  "bytes \<Rightarrow> nat \<Rightarrow> tp_info \<Rightarrow> (tp_info \<times> h2_tp_huff_candidate \<times> bool) option" where
  "parse_hpack_traceparent data data_len tp =
     (if data_len \<ge> k_h2_tp_hpack_huff_min
      then let max_pos = data_len - k_h2_tp_hpack_huff_min
           in name_scan (min k_hpack_tp_max_scan (max_pos + 1)) data data_len 0 tp
      else Some (tp, \<lparr>hc_at = 0, hc_len = 0\<rparr>, False))"

subsection \<open>Serialised values\<close>

lemma flag_digits: "[0x30, 0x30 + (f AND k_flag_sampled)] = hex_digits (f AND k_flag_sampled)"
proof -
  have "f AND 1 = 0 \<or> f AND 1 = 1" by (simp add: and_one_eq mod2_eq_if)
  moreover have "hex ! 0 = 0x30" "hex ! 1 = 0x31" by (simp_all add: hex_def ascii_def)
  ultimately show ?thesis by (auto simp: hex_digits_def k_flag_sampled_def)
qed

lemma make_tp_string_parts:
  assumes "tp_wf tp"
  shows "make_tp_string tp = ascii ''00-'' @ concat (map hex_digits (tp_trace_id tp)) @ ascii ''-''
    @ concat (map hex_digits (tp_span_id tp)) @ ascii ''-'' @ concat (map hex_digits [tp_flags tp AND k_flag_sampled])"
  using assms by (simp add: make_tp_string_def encode_hex_def tp_wf_def flag_digits)

lemma make_tp_string_length: "tp_wf tp \<Longrightarrow> length (make_tp_string tp) = 55"
  by (simp add: make_tp_string_parts tp_wf_def tp_layout ascii_def hex_digits_def)

lemma decode_hex_at:
  assumes "b = p @ concat (map hex_digits src) @ q" and "length p = off" and "n = 2 * length src"
  shows "decode_hex b off n = Some src"
  using assms decode_hex_pairs_append[of src p q] by (simp add: decode_hex_def)

text \<open>What a receiver takes over from a sender.\<close>

definition adopt :: "tp_info \<Rightarrow> tp_info \<Rightarrow> tp_info" where
  "adopt src tp = tp\<lparr>tp_trace_id := tp_trace_id src, tp_parent_id := tp_span_id src,
     tp_flags := tp_flags src AND k_flag_sampled\<rparr>"

lemma try_parse_make:
  assumes wf: "tp_wf src" and b: "b = pre @ make_tp_string src @ post" and "val = length pre"
  shows "try_parse_tp_value b val tp = Some (adopt src tp, True)"
proof -
  define T where "T = concat (map hex_digits (tp_trace_id src))"
  define S where "S = concat (map hex_digits (tp_span_id src))"
  define F where "F = concat (map hex_digits [tp_flags src AND k_flag_sampled])"
  have len: "length T = 32" "length S = 16" "length F = 2"
    using wf by (simp_all add: T_def S_def F_def tp_wf_def tp_layout hex_digits_def)
  have b': "b = pre @ ascii ''00-'' @ T @ ascii ''-'' @ S @ ascii ''-'' @ F @ post"
    using b make_tp_string_parts[OF wf] by (simp add: T_def S_def F_def)
  have d: "rd b (val + 2) = Some 0x2d" "rd b (val + 35) = Some 0x2d" "rd b (val + 52) = Some 0x2d"
    using assms(3) len unfolding b' by (simp_all add: rd_def nth_append ascii_def)
  have "decode_hex b (val + 3) 32 = Some (tp_trace_id src)"
    using assms(3) wf by (intro decode_hex_at[of _ "pre @ ascii ''00-''" _ "ascii ''-'' @ S @ ascii ''-'' @ F @ post"])
      (simp_all add: b' T_def[symmetric] ascii_def tp_wf_def tp_layout)
  moreover have "decode_hex b (val + 36) 16 = Some (tp_span_id src)"
    using assms(3) wf len by (intro decode_hex_at[of _ "pre @ ascii ''00-'' @ T @ ascii ''-''" _ "ascii ''-'' @ F @ post"])
      (simp_all add: b' S_def[symmetric] ascii_def tp_wf_def tp_layout)
  moreover have "decode_hex b (val + 53) 2 = Some [tp_flags src AND k_flag_sampled]"
    using assms(3) len by (intro decode_hex_at[of _ "pre @ ascii ''00-'' @ T @ ascii ''-'' @ S @ ascii ''-''" _ "post"])
      (simp_all add: b' F_def ascii_def)
  ultimately show ?thesis
    using d by (simp add: try_parse_tp_value_def tp_layout adopt_def)
qed

lemma hex_alphabet: "\<forall>n < 16. tp_alphabet (hex ! n)"
proof -
  have "list_all tp_alphabet hex"
    by (simp add: hex_def ascii_def tp_alphabet_def huff_code_def huff_codes_def)
  then show ?thesis by (simp add: list_all_length)
qed

lemma make_tp_string_alphabet:
  assumes "tp_wf tp"
  shows "\<forall>c \<in> set (make_tp_string tp). tp_alphabet c"
proof -
  have dig: "\<forall>c \<in> set (hex_digits p). tp_alphabet c" for p
    using hex_alphabet nibble_bounds[of p] by (auto simp: hex_digits_def)
  have "tp_alphabet 0x30" "tp_alphabet 0x2d"
    by (simp_all add: tp_alphabet_def huff_code_def huff_codes_def)
  with dig show ?thesis by (auto simp: make_tp_string_parts[OF assms] ascii_def)
qed

lemma make_tp_string_shape:
  assumes "tp_wf tp"
  shows "tp_value_shape (make_tp_string tp)"
proof -
  have "length (concat (map hex_digits (tp_trace_id tp))) = 32" "length (concat (map hex_digits (tp_span_id tp))) = 16"
    using assms by (simp_all add: tp_wf_def tp_layout)
  then show ?thesis
    by (simp add: tp_value_shape_def make_tp_string_parts[OF assms] nth_append ascii_def tp_layout)
qed

subsection \<open>The scans stay inside the block\<close>

lemma decode_hex_pairs_in: "k + 2 * n \<le> length src \<Longrightarrow> \<exists>r. decode_hex_pairs n src k = Some r \<and> length r = n"
proof (induction n arbitrary: k)
  case 0
  then show ?case by simp
next
  case (Suc n)
  have "\<exists>r. decode_hex_pairs n src (k + 2) = Some r \<and> length r = n"
    using Suc.prems by (intro Suc.IH) simp
  then obtain r where "decode_hex_pairs n src (k + 2) = Some r" "length r = n" by blast
  moreover obtain v where "hex_pair (src ! k) (src ! (k + 1)) = Some v" by (simp add: hex_pair_in)
  ultimately show ?case using Suc.prems by simp
qed

lemma try_parse_in [in_bounds]:
  assumes "val + 55 \<le> length b"
  shows "\<exists>tp' ok. try_parse_tp_value b val tp = Some (tp', ok)"
proof -
  obtain x where "decode_hex b (val + 3) 32 = Some x"
    using decode_hex_pairs_in[of "val + 3" 16 b] assms by (auto simp: decode_hex_def)
  moreover obtain y where "decode_hex b (val + 36) 16 = Some y"
    using decode_hex_pairs_in[of "val + 36" 8 b] assms by (auto simp: decode_hex_def)
  moreover obtain z where "decode_hex b (val + 53) 2 = Some z" "length z = 1"
    using decode_hex_pairs_in[of "val + 53" 1 b] assms by (auto simp: decode_hex_def)
  ultimately show ?thesis
    using assms by (auto simp: try_parse_tp_value_def tp_layout)
qed

text \<open>One turn of the scan by name as a total function.\<close>

definition value_spec :: "bytes \<Rightarrow> nat \<Rightarrow> nat \<Rightarrow> nat \<Rightarrow> name_hit" where
  "value_spec data data_len val_at size_left =
     (if data ! (val_at - 1) = 55 then (if size_left > data_len then Next else Plain val_at)
      else if h2_tp_huff_len_plausible (data ! (val_at - 1))
      then Huff val_at (data ! (val_at - 1) AND NOT k_hpack_huffman_flag) else Next)"

definition name_hit_spec :: "bytes \<Rightarrow> nat \<Rightarrow> nat \<Rightarrow> name_hit" where
  "name_hit_spec data data_len i =
     (if \<not> h2_hpack_is_literal (data ! i) then Next
      else if data ! (i + 1) = 11 \<and> take 11 (drop (i + 2) data) = k_hpack_tp_name
      then value_spec data data_len (i + 14) (i + 69)
      else if data ! (i + 1) = 0x88 \<and> take 8 (drop (i + 2) data) = k_hpack_tp_huffman
      then value_spec data data_len (i + 11) (i + 66)
      else Next)"

lemma unat_u8_eq: "n < 256 \<Longrightarrow> unat (x :: u8) = n \<longleftrightarrow> x = word_of_nat n"
  by (auto simp: unat_of_nat)

lemma name_hit_in [in_bounds]:
  assumes "i + 46 \<le> data_len" and "data_len \<le> length data"
  shows "name_hit_at data data_len i = Some (name_hit_spec data data_len i)"
proof -
  have v: "value_after_name data data_len (i + k) sz = Some (value_spec data data_len (i + k) sz)"
    if "0 < k" "k \<le> 14" for k sz
    using assms that unat_u8_eq[of 55 "data ! (i + k - 1)"]
    by (simp add: value_after_name_def value_spec_def hpack_consts)
  have n11: "unat x = 11 \<longleftrightarrow> x = 11" for x :: u8 using unat_u8_eq[of 11 x] by simp
  show ?thesis
    using assms v[of 14 "i + 69"] v[of 11 "i + 66"]
    by (auto simp: name_hit_at_def name_hit_spec_def hpack_consts n11)
qed

text \<open>What the loop does with the first position that is a hit.\<close>

definition use_hit :: "bytes \<Rightarrow> tp_info \<Rightarrow> name_hit \<Rightarrow> (tp_info \<times> h2_tp_huff_candidate \<times> bool) option" where
  "use_hit data tp hit =
     (case hit of
        Next \<Rightarrow> Some (tp, \<lparr>hc_at = 0, hc_len = 0\<rparr>, False)
      | Plain val \<Rightarrow> do {
          (tp, ok) \<leftarrow> try_parse_tp_value data val tp;
          Some (tp, \<lparr>hc_at = 0, hc_len = 0\<rparr>, ok) }
      | Huff val len \<Rightarrow> Some (tp, \<lparr>hc_at = word_of_nat val, hc_len = len\<rparr>, False))"

lemma name_scan_find:
  assumes "\<forall>k. i \<le> k \<and> k < i + n \<longrightarrow> k + 46 \<le> data_len" and "data_len \<le> length data"
  shows "name_scan n data data_len i tp =
    use_hit data tp (case find (\<lambda>k. name_hit_spec data data_len k \<noteq> Next) [i..<i + n] of
       None \<Rightarrow> Next | Some k \<Rightarrow> name_hit_spec data data_len k)"
  using assms(1)
proof (induction n arbitrary: i)
  case 0
  then show ?case by (simp add: use_hit_def)
next
  case (Suc n)
  have hit: "name_hit_at data data_len i = Some (name_hit_spec data data_len i)"
    using Suc.prems assms(2) by (intro name_hit_in) auto
  have IH: "name_scan n data data_len (Suc i) tp =
    use_hit data tp (case find (\<lambda>k. name_hit_spec data data_len k \<noteq> Next) [Suc i..<Suc i + n] of
       None \<Rightarrow> Next | Some k \<Rightarrow> name_hit_spec data data_len k)"
    using Suc.prems by (intro Suc.IH) auto
  have up: "[i..<i + Suc n] = i # [Suc i..<Suc i + n]" by (simp add: upt_conv_Cons)
  show ?case
    unfolding up using hit IH
    by (cases "name_hit_spec data data_len i") (simp_all add: use_hit_def)
qed

definition first_hit :: "bytes \<Rightarrow> nat \<Rightarrow> name_hit" where
  "first_hit data data_len =
     (case first_below (min 247 (data_len - 45)) (\<lambda>k. name_hit_spec data data_len k \<noteq> Next) of
        None \<Rightarrow> Next | Some k \<Rightarrow> name_hit_spec data data_len k)"

lemma parse_first_hit:
  assumes "data_len \<le> length data"
  shows "parse_hpack_traceparent data data_len tp = use_hit data tp (first_hit data data_len)"
proof (cases "46 \<le> data_len")
  case True
  then have n: "min 247 (data_len - 46 + 1) = min 247 (data_len - 45)" by simp
  have "parse_hpack_traceparent data data_len tp = name_scan (min 247 (data_len - 46 + 1)) data data_len 0 tp"
    using True by (simp only: parse_hpack_traceparent_def hpack_consts Let_def if_True)
  moreover have "\<forall>k. 0 \<le> k \<and> k < 0 + min 247 (data_len - 45) \<longrightarrow> k + 46 \<le> data_len" by auto
  ultimately show ?thesis
    using name_scan_find[of 0 "min 247 (data_len - 45)" data_len data tp] assms
    by (simp only: n first_hit_def first_below_def add_0)
next
  case False
  then show ?thesis
    by (simp add: parse_hpack_traceparent_def first_hit_def first_below_def hpack_consts use_hit_def)
qed

lemma plausible_len:
  assumes "h2_tp_huff_len_plausible x"
  shows "35 \<le> unat (x AND NOT k_hpack_huffman_flag)" "unat (x AND NOT k_hpack_huffman_flag) \<le> 42"
  using assms by (auto simp: h2_tp_huff_len_plausible_def k_h2_tp_huff_min_def k_h2_tp_huff_max_def
      Let_def split: if_splits)

lemma name_hit_cases:
  "name_hit_spec data data_len i = Next \<or>
   name_hit_spec data data_len i = value_spec data data_len (i + 14) (i + 69) \<or>
   name_hit_spec data data_len i = value_spec data data_len (i + 11) (i + 66)"
  by (simp add: name_hit_spec_def)

lemma value_spec_hits:
  "value_spec data data_len at sz = Plain v \<Longrightarrow> v = at \<and> sz \<le> data_len"
  "value_spec data data_len at sz = Huff v l \<Longrightarrow> v = at \<and> 35 \<le> unat l \<and> unat l \<le> 42"
  using plausible_len[of "data ! (at - 1)"] by (auto simp: value_spec_def split: if_splits)

lemma first_hit_bounds:
  "first_hit data data_len = Plain v \<Longrightarrow> v + 55 \<le> data_len"
  "first_hit data data_len = Huff v l \<Longrightarrow> v \<le> 261 \<and> 35 \<le> unat l \<and> unat l \<le> 42"
proof -
  have k: "\<exists>k < 247. name_hit_spec data data_len k = h" if "first_hit data data_len = h" "h \<noteq> Next" for h
    using that by (auto simp: first_hit_def first_below_Some split: option.splits)
  show "v + 55 \<le> data_len" if h: "first_hit data data_len = Plain v"
  proof -
    obtain k where "name_hit_spec data data_len k = Plain v" using k[OF h] by blast
    then show ?thesis using name_hit_cases[of data data_len k] value_spec_hits(1)[of data data_len _ _ v]
      by fastforce
  qed
  show "v \<le> 261 \<and> 35 \<le> unat l \<and> unat l \<le> 42" if h: "first_hit data data_len = Huff v l"
  proof -
    obtain k where "k < 247" "name_hit_spec data data_len k = Huff v l" using k[OF h] by blast
    then show ?thesis using name_hit_cases[of data data_len k] value_spec_hits(2)[of data data_len _ _ v l]
      by fastforce
  qed
qed

lemma window_take:
  assumes "lo \<le> hi" and "at + lo \<le> length data" and "n \<le> hi" and "at + n \<le> len" and "len \<le> length data"
  shows "take n (take lo (drop at data) @ map (\<lambda>i. if at + i < len then data ! (at + i) else 0) [lo..<hi] @ r) =
    take n (drop at data)"
  using assms by (intro nth_equalityI) (auto simp: nth_append)

lemma huff_window_in:
  assumes "val_at + 35 \<le> length data" and "data_len \<le> length data"
  shows "\<exists>w. huff_window data data_len val_at = Some w \<and> length w = 64 \<and>
    (\<forall>n \<le> 42. val_at + n \<le> data_len \<longrightarrow> take n w = take n (drop val_at data))"
proof -
  define mid where "mid = map (\<lambda>i. if val_at + i < data_len then data ! (val_at + i) else 0) [35..<42]"
  have "those (map (\<lambda>i. if val_at + i < data_len then rd data (val_at + i) else Some 0) xs) =
      Some (map (\<lambda>i. if val_at + i < data_len then data ! (val_at + i) else 0) xs)" for xs
    using assms(2) by (induction xs) auto
  then have th: "those (map (\<lambda>i. if val_at + i < data_len then rd data (val_at + i) else Some 0) [35..<42]) =
      Some mid" unfolding mid_def .
  have lm: "length mid = 7" unfolding mid_def length_map length_upt by simp
  have "huff_window data data_len val_at = Some (take 35 (drop val_at data) @ mid @ replicate 22 0)"
    unfolding huff_window_def hpack_consts th using assms(1) by simp
  moreover have "length (take 35 (drop val_at data) @ mid @ replicate 22 0) = 64" using assms(1) lm by simp
  moreover have "take n (take 35 (drop val_at data) @ mid @ replicate 22 0) = take n (drop val_at data)"
    if "n \<le> 42" "val_at + n \<le> data_len" for n
    unfolding mid_def using that assms by (intro window_take) simp_all
  ultimately show ?thesis by blast
qed

lemma use_hit_candidate:
  assumes "use_hit data tp hit = Some (tp', c, ok)" and "hc_len c \<noteq> 0"
  shows "\<exists>v. hit = Huff v (hc_len c) \<and> hc_at c = word_of_nat v"
  using assms by (cases hit) (auto simp: use_hit_def split: bind_splits)

text \<open>
  C28: memory safety of traceparent extraction from an HPACK block of any content. The scan by
  name returns, and decoding the Huffman candidate it leaves behind returns, without an access
  outside the block, the decode window or the output buffer.
\<close>

theorem hpack_parse_safe:
  assumes "data_len \<le> length data" and "length out = 55"
  shows "\<exists>tp' c ok. parse_hpack_traceparent data data_len tp = Some (tp', c, ok) \<and>
     (\<exists>r. try_parse_tp_huffman_value data data_len c out tp'' = Some r)"
proof -
  obtain tp' c ok where p: "use_hit data tp (first_hit data data_len) = Some (tp', c, ok)"
  proof (cases "first_hit data data_len")
    case (Plain v)
    then have "v + 55 \<le> length data" using first_hit_bounds(1) assms(1) by fastforce
    with Plain that show ?thesis using try_parse_in[of v data tp] by (auto simp: use_hit_def)
  qed (auto simp: use_hit_def intro: that)
  have "\<exists>r. try_parse_tp_huffman_value data data_len c out tp'' = Some r"
  proof (cases "hc_len c = 0 \<or> min (unat (hc_at c)) 261 + unat (hc_len c) > data_len")
    case True
    then show ?thesis by (auto simp: try_parse_tp_huffman_value_def hpack_consts Let_def)
  next
    case False
    then obtain v where "first_hit data data_len = Huff v (hc_len c)"
      using use_hit_candidate[OF p] by blast
    then have l: "35 \<le> unat (hc_len c)" "unat (hc_len c) \<le> 42" using first_hit_bounds(2) by blast+
    then obtain w where w: "huff_window data data_len (min (unat (hc_at c)) 261) = Some w" "length w = 64"
      using huff_window_in[of "min (unat (hc_at c)) 261" data data_len] False assms(1) by fastforce
    obtain t ok' where d: "h2_huff_decode_tp w (unat (hc_len c)) out = Some (t, ok')"
      using huff_decode_char[OF w(2) assms(2), of "unat (hc_len c)"] l by fastforce
    have "length t = 55" if ok'
      using huff_decode_char[OF w(2) assms(2), of "unat (hc_len c)" t] l d that by simp
    then show ?thesis
      using False w d try_parse_in[of 0 t tp'']
      by (auto simp: try_parse_tp_huffman_value_def hpack_consts Let_def)
  qed
  then show ?thesis using p parse_first_hit[OF assms(1)] by auto
qed

text \<open>
  The forms a traceparent field takes on the wire: a literal with its name plain or Huffman
  coded, and its value plain or Huffman coded.
\<close>

definition tp_field :: "u8 \<Rightarrow> bool \<Rightarrow> u8 \<Rightarrow> bytes \<Rightarrow> bytes" where
  "tp_field lit huff_name vlb val =
     [lit] @ (if huff_name then 0x88 # k_hpack_tp_huffman else 11 # k_hpack_tp_name) @ [vlb] @ val"

lemma tp_name_lengths: "length k_hpack_tp_name = 11" "length k_hpack_tp_huffman = 8"
  by (simp_all add: k_hpack_tp_name_def k_hpack_tp_huffman_def ascii_def)

lemma tp_field_head:
  assumes "data = pre @ tp_field lit hn vlb val @ post" and "h2_hpack_is_literal lit"
  shows "name_hit_spec data data_len (length pre) =
    value_spec data data_len (length pre + (if hn then 11 else 14)) (length pre + (if hn then 66 else 69)) \<and>
    data ! (length pre + (if hn then 11 else 14) - 1) = vlb \<and>
    drop (length pre + (if hn then 11 else 14)) data = val @ post"
proof -
  show ?thesis
    using assms tp_name_lengths by (cases hn) (simp_all add: name_hit_spec_def tp_field_def nth_append)
qed

lemma first_hit_at:
  assumes "\<forall>i < k. name_hit_spec data data_len i = Next" and "name_hit_spec data data_len k \<noteq> Next"
    and "k < 247" and "k + 46 \<le> data_len"
  shows "first_hit data data_len = name_hit_spec data data_len k"
proof -
  have "first_below (min 247 (data_len - 45)) (\<lambda>k. name_hit_spec data data_len k \<noteq> Next) = Some k"
    using assms by (simp add: first_below_Some)
  then show ?thesis by (simp add: first_hit_def)
qed

lemma plausible_vlb:
  assumes "35 \<le> n" and "n \<le> 42"
  shows "h2_tp_huff_len_plausible (word_of_nat (128 + n))"
    and "unat (word_of_nat (128 + n) AND NOT k_hpack_huffman_flag) = n"
    and "word_of_nat (128 + n) \<noteq> (55 :: u8)"
proof -
  have "n \<in> {35, 36, 37, 38, 39, 40, 41, 42}" using assms by auto
  then show "h2_tp_huff_len_plausible (word_of_nat (128 + n))"
    "unat (word_of_nat (128 + n) AND NOT k_hpack_huffman_flag) = n" "word_of_nat (128 + n) \<noteq> (55 :: u8)"
    by (auto simp: h2_tp_huff_len_plausible_def k_hpack_huffman_flag_def k_h2_tp_huff_min_def
        k_h2_tp_huff_max_def Let_def)
qed

text \<open>
  C14: end to end. A traceparent serialised by \<open>make_tp_string\<close> and carried in an HPACK block as a
  literal field, with name and value each plain or Huffman coded, is recovered: the scan by
  name, followed by the Huffman decode when the scan asks for it, yields its trace id, its span
  id as parent and its sampled flag, provided no earlier position of the block looks like one.
\<close>

theorem hpack_roundtrip:
  assumes wf: "tp_wf src" and lit: "h2_hpack_is_literal lit"
    and data: "data = pre @ tp_field lit hn vlb val @ post"
    and len: "length pre + length (tp_field lit hn vlb val) \<le> data_len" "data_len \<le> length data"
    and first: "length pre < 247" "\<forall>i < length pre. name_hit_spec data data_len i = Next"
    and val: "(vlb = 55 \<and> val = make_tp_string src) \<or>
       (vlb = word_of_nat (128 + length val) \<and> huff_octets val (make_tp_string src))"
    and out: "length out = 55"
  shows "\<exists>tp' c ok. parse_hpack_traceparent data data_len tp = Some (tp', c, ok) \<and>
     (if ok then tp' = adopt src tp
      else try_parse_tp_huffman_value data data_len c out tp' = Some (adopt src tp, True))"
proof -
  define at where "at = length pre + (if hn then 11 else 14)"
  have flen: "length (tp_field lit hn vlb val) = (if hn then 11 else 14) + length val"
    by (simp add: tp_field_def k_hpack_tp_name_def k_hpack_tp_huffman_def ascii_def)
  note head = tp_field_head[OF data lit, of data_len, folded at_def]
  have valpos: "data = take at data @ val @ post" "length (take at data) = at"
    using head len flen at_def append_take_drop_id[of at data] by auto
  from val show ?thesis
  proof
    assume v: "vlb = 55 \<and> val = make_tp_string src"
    then have lv: "length val = 55" using make_tp_string_length[OF wf] by simp
    have "name_hit_spec data data_len (length pre) = Plain at"
      using head v len flen lv at_def by (simp add: value_spec_def split: if_splits)
    moreover from this have "first_hit data data_len = Plain at"
      using first_hit_at[OF first(2) _ first(1)] len flen lv by (auto split: if_splits)
    moreover have "try_parse_tp_value data at tp = Some (adopt src tp, True)"
      using try_parse_make[OF wf, of data "take at data" post at] valpos v by auto
    ultimately show ?thesis
      using parse_first_hit[OF len(2), of tp] by (auto simp: use_hit_def)
  next
    assume v: "vlb = word_of_nat (128 + length val) \<and> huff_octets val (make_tp_string src)"
    then have lv: "35 \<le> length val" "length val \<le> 42"
      using huff_octets_len(1,2) make_tp_string_length[OF wf] make_tp_string_alphabet[OF wf] by blast+
    define l where "l = vlb AND NOT k_hpack_huffman_flag"
    have l: "unat l = length val" using plausible_vlb(2)[OF lv] v by (simp add: l_def)
    have "name_hit_spec data data_len (length pre) = Huff at l"
      using head v plausible_vlb[OF lv] by (simp add: value_spec_def l_def)
    moreover from this have "first_hit data data_len = Huff at l"
      using first_hit_at[OF first(2) _ first(1)] len flen lv by (auto split: if_splits)
    ultimately have parse: "parse_hpack_traceparent data data_len tp =
        Some (tp, \<lparr>hc_at = word_of_nat at, hc_len = l\<rparr>, False)"
      using parse_first_hit[OF len(2), of tp] by (simp add: use_hit_def)
    have at: "at \<le> 261" "at + length val \<le> data_len" using first(1) len flen by (auto simp: at_def)
    then have uat: "unat (word_of_nat at :: u16) = at" by (simp add: unat_of_nat)
    obtain w where w: "huff_window data data_len at = Some w" "length w = 64"
      "take (length val) w = take (length val) (drop at data)"
      using huff_window_in[of at data data_len] at lv len(2) by fastforce
    have "take (length val) w = val" using w(3) head by simp
    then have "h2_huff_decode_tp w (length val) out = Some (make_tp_string src, True)"
      using huff_decode_char[OF w(2) out, of "length val" "make_tp_string src"] lv v
        make_tp_string_length[OF wf] make_tp_string_alphabet[OF wf] make_tp_string_shape[OF wf] by simp
    moreover have "try_parse_tp_value (make_tp_string src) 0 tp = Some (adopt src tp, True)"
      using try_parse_make[OF wf, of "make_tp_string src" "[]" "[]" 0] by simp
    ultimately have "try_parse_tp_huffman_value data data_len \<lparr>hc_at = word_of_nat at, hc_len = l\<rparr> out tp =
        Some (adopt src tp, True)"
      using at lv l uat w(1) by (auto simp add: try_parse_tp_huffman_value_def hpack_consts Let_def min_def)
    with parse show ?thesis by auto
  qed
qed

text \<open>A complete field with a plain value in front of some bytes, by its parts.\<close>

lemma tp_field_prefix_iff:
  "(\<exists>v rest. length v = 55 \<and> s = tp_field lit hn 55 v @ rest) \<longleftrightarrow>
     (if hn then 66 \<le> length s \<and> s ! 0 = lit \<and> s ! 1 = 0x88 \<and> take 8 (drop 2 s) = k_hpack_tp_huffman \<and> s ! 10 = 55
      else 69 \<le> length s \<and> s ! 0 = lit \<and> s ! 1 = 11 \<and> take 11 (drop 2 s) = k_hpack_tp_name \<and> s ! 13 = 55)"
  (is "?L \<longleftrightarrow> ?R")
proof
  assume ?L
  then show ?R using tp_name_lengths by (auto simp: tp_field_def nth_append)
next
  assume R: ?R
  define n where "n = (if hn then 8 else 11 :: nat)"
  have n: "n \<le> 11" "n + 58 \<le> length s" using R by (auto simp: n_def split: if_splits)
  have "s = take 2 s @ drop 2 s" by simp
  also have "take 2 s = [s ! 0, s ! 1]" 
    using n by (intro nth_equalityI) (auto simp: less_2_cases_iff)
  also have "drop 2 s = take n (drop 2 s) @ drop (n + 2) s"
    by (metis append_take_drop_id drop_drop)
  also have "drop (n + 2) s = s ! (n + 2) # drop (n + 3) s"
    using n by (simp add: Cons_nth_drop_Suc[symmetric] numeral_eq_Suc)
  also have "drop (n + 3) s = take 55 (drop (n + 3) s) @ drop 55 (drop (n + 3) s)"
    by (rule append_take_drop_id[symmetric])
  finally have s: "s = [s ! 0, s ! 1] @ take n (drop 2 s) @ s ! (n + 2) # take 55 (drop (n + 3) s) @ drop 55 (drop (n + 3) s)" by simp
  have "s = tp_field lit hn 55 (take 55 (drop (n + 3) s)) @ drop 55 (drop (n + 3) s)"
    by (subst s) (use R in \<open>auto simp: tp_field_def n_def split: if_splits\<close>)
  moreover have "length (take 55 (drop (n + 3) s)) = 55" using n by simp
  ultimately show ?L by blast
qed

text \<open>
  Classifying a candidate position never reads past the end it is given, and calls it
  adoptable exactly when a complete field with a plain 55-byte value starts there, its name
  plain or Huffman coded.
\<close>

lemma h2_tp_classify_adoptable:
  assumes "e \<le> length b"
  shows "(\<exists>k. h2_tp_classify b p e = Some k) \<and>
    (h2_tp_classify b p e = Some k_h2_tp_adoptable \<longleftrightarrow>
      (\<exists>lit hn v rest. lit \<noteq> 55 \<and> length v = 55 \<and> take (e - p) (drop p b) = tp_field lit hn 55 v @ rest))"
proof (cases "p + 10 \<le> e")
  case False
  then have "h2_tp_classify b p e = Some k_h2_tp_none" by (simp add: h2_tp_classify_def hpack_consts)
  moreover have "length (take (e - p) (drop p b)) < 10" using False by simp
  moreover have "\<not> (\<exists>v rest. length v = 55 \<and> take (e - p) (drop p b) = tp_field lit hn 55 v @ rest)" for lit hn
    unfolding tp_field_prefix_iff using False by auto
  ultimately show ?thesis by auto
next
  case True
  define s where "s = take (e - p) (drop p b)"
  have n55: "unat x = 55 \<longleftrightarrow> x = 55" for x :: u8 using unat_u8_eq[of 55 x] by simp
  have R: "(\<exists>lit hn v rest. lit \<noteq> 55 \<and> length v = 55 \<and> s = tp_field lit hn 55 v @ rest) \<longleftrightarrow>
     (b ! p \<noteq> 55 \<and> (p + 66 \<le> e \<and> b ! (p + 1) = 0x88 \<and> take 8 (drop (p + 2) b) = k_hpack_tp_huffman \<and> b ! (p + 10) = 55 \<or>
      p + 69 \<le> e \<and> b ! (p + 1) = 11 \<and> take 11 (drop (p + 2) b) = k_hpack_tp_name \<and> b ! (p + 13) = 55))"
  proof -
    have len: "length s = e - p" using assms True by (simp add: s_def)
    have lens: "66 \<le> length s \<longleftrightarrow> p + 66 \<le> e" "69 \<le> length s \<longleftrightarrow> p + 69 \<le> e"
      unfolding len by linarith+
    have nth: "s ! i = b ! (p + i)" if "p + i < e" for i
      using that assms by (simp add: s_def)
    have td: "take n (drop i s) = take n (drop (p + i) b)" if "p + i + n \<le> e" for i n
      using that by (simp add: s_def drop_take min_def add.commute)
    have "(\<exists>lit hn v rest. lit \<noteq> 55 \<and> length v = 55 \<and> s = tp_field lit hn 55 v @ rest) \<longleftrightarrow>
        (\<exists>lit hn. lit \<noteq> 55 \<and> (\<exists>v rest. length v = 55 \<and> s = tp_field lit hn 55 v @ rest))" by blast
    also have "\<dots> \<longleftrightarrow> s ! 0 \<noteq> 55 \<and>
      (66 \<le> length s \<and> s ! 1 = 0x88 \<and> take 8 (drop 2 s) = k_hpack_tp_huffman \<and> s ! 10 = 55 \<or>
       69 \<le> length s \<and> s ! 1 = 11 \<and> take 11 (drop 2 s) = k_hpack_tp_name \<and> s ! 13 = 55)"
      unfolding tp_field_prefix_iff by (auto split: if_splits)
    also have "s ! 0 = b ! p" using nth[of 0] True by simp
    also have "(66 \<le> length s \<and> s ! 1 = 0x88 \<and> take 8 (drop 2 s) = k_hpack_tp_huffman \<and> s ! 10 = 55) \<longleftrightarrow>
      (p + 66 \<le> e \<and> b ! (p + 1) = 0x88 \<and> take 8 (drop (p + 2) b) = k_hpack_tp_huffman \<and> b ! (p + 10) = 55)"
      unfolding lens using nth[of 1] nth[of 10] td[of 2 8] True by (cases "p + 66 \<le> e") simp_all
    also have "(69 \<le> length s \<and> s ! 1 = 11 \<and> take 11 (drop 2 s) = k_hpack_tp_name \<and> s ! 13 = 55) \<longleftrightarrow>
      (p + 69 \<le> e \<and> b ! (p + 1) = 11 \<and> take 11 (drop (p + 2) b) = k_hpack_tp_name \<and> b ! (p + 13) = 55)"
      unfolding lens using nth[of 1] nth[of 13] td[of 2 11] True by (cases "p + 69 \<le> e") simp_all
    finally show ?thesis .
  qed
  have idx: "\<exists>m. h2_tp_match_indexed_value b p = Some m" if "p + 56 \<le> e"
    using that assms by (auto simp: h2_tp_match_indexed_value_def hpack_consts tp_layout)
  consider "b ! p = 55" | "b ! p \<noteq> 55" "b ! (p + 1) = 0x88" | "b ! p \<noteq> 55" "b ! (p + 1) = 11"
    | "b ! p \<noteq> 55" "b ! (p + 1) \<noteq> 0x88" "b ! (p + 1) \<noteq> 11" by blast
  then have "(\<exists>k. h2_tp_classify b p e = Some k) \<and> (h2_tp_classify b p e = Some k_h2_tp_adoptable \<longleftrightarrow>
     (b ! p \<noteq> 55 \<and> (p + 66 \<le> e \<and> b ! (p + 1) = 0x88 \<and> take 8 (drop (p + 2) b) = k_hpack_tp_huffman \<and> b ! (p + 10) = 55 \<or>
      p + 69 \<le> e \<and> b ! (p + 1) = 11 \<and> take 11 (drop (p + 2) b) = k_hpack_tp_name \<and> b ! (p + 13) = 55)))"
  proof cases
    case 1
    then show ?thesis using True assms idx by (auto simp: h2_tp_classify_def hpack_consts n55 split: if_splits)
  next
    case 2
    then show ?thesis using True assms
      by (auto simp: h2_tp_classify_def hpack_consts n55 h2_tp_match_huffman_def h2_tp_match_name_huffman_def add.commute[of _ p])
  next
    case 3
    then show ?thesis using True assms
      by (auto simp: h2_tp_classify_def hpack_consts n55 h2_tp_match_plain_def h2_tp_match_name_plain_def add.commute[of _ p])
  next
    case 4
    then show ?thesis using True assms by (auto simp: h2_tp_classify_def hpack_consts n55)
  qed
  then show ?thesis unfolding s_def[symmetric] R .
qed

definition sample_tp :: tp_info where
  "sample_tp = \<lparr>tp_trace_id = replicate 16 0xab, tp_span_id = replicate 8 0xcd,
     tp_parent_id = replicate 8 0, tp_ts = 0, tp_flags = 1\<rparr>"

definition sample_block :: bytes where
  "sample_block = [0x82] @ tp_field 0x40 False 55 (make_tp_string sample_tp) @ []"

lemma sample_tp_wf: "tp_wf sample_tp"
  by (simp add: sample_tp_def tp_wf_def tp_layout)

lemma sample_block_length: "length sample_block = 70"
  using make_tp_string_length[OF sample_tp_wf] by (simp add: sample_block_def tp_field_def tp_name_lengths)

theorem hpack_parse_safe_witness:
  "\<forall>tp. \<exists>tp' c ok. parse_hpack_traceparent sample_block 70 tp = Some (tp', c, ok) \<and>
     (\<exists>r. try_parse_tp_huffman_value sample_block 70 c (replicate 55 0) tp = Some r)"
  using hpack_parse_safe[of 70 sample_block "replicate 55 0"] sample_block_length by simp

theorem hpack_roundtrip_witness:
  "\<forall>tp. \<exists>tp' c ok. parse_hpack_traceparent sample_block 70 tp = Some (tp', c, ok) \<and>
     (if ok then tp' = adopt sample_tp tp
      else try_parse_tp_huffman_value sample_block 70 c (replicate 55 0) tp' = Some (adopt sample_tp tp, True))"
proof
  fix tp
  have "\<forall>i < length [0x82 :: u8]. name_hit_spec sample_block 70 i = Next"
    by (simp add: name_hit_spec_def sample_block_def h2_hpack_is_literal_def)
  then show "\<exists>tp' c ok. parse_hpack_traceparent sample_block 70 tp = Some (tp', c, ok) \<and>
     (if ok then tp' = adopt sample_tp tp
      else try_parse_tp_huffman_value sample_block 70 c (replicate 55 0) tp' = Some (adopt sample_tp tp, True))"
    using sample_block_length
    by (intro hpack_roundtrip[where src = sample_tp and lit = "0x40" and pre = "[0x82]" and hn = False
          and vlb = "55" and val = "make_tp_string sample_tp" and post = "[]"])
       (simp_all add: sample_tp_wf sample_block_def h2_hpack_is_literal_def)
qed

lemma h2_tp_classify_adoptable_example:
  "h2_tp_classify sample_block 1 70 = Some k_h2_tp_adoptable"
proof -
  have "take (70 - 1) (drop 1 sample_block) = tp_field 0x40 False 55 (make_tp_string sample_tp) @ []"
    using sample_block_length by (simp add: sample_block_def)
  moreover have "(0x40 :: u8) \<noteq> 55" by simp
  ultimately have "\<exists>lit hn v rest. lit \<noteq> 55 \<and> length v = 55 \<and>
      take (70 - 1) (drop 1 sample_block) = tp_field lit hn 55 v @ rest"
    using make_tp_string_length[OF sample_tp_wf] by blast
  then show ?thesis
    using h2_tp_classify_adoptable[of 70 sample_block 1] sample_block_length by simp
qed

subsection \<open>Candidates without a name\<close>

definition candidate_ok :: "bytes \<Rightarrow> nat \<Rightarrow> nat \<Rightarrow> u16 \<Rightarrow> u16 \<Rightarrow> u8 \<Rightarrow> bool" where
  "candidate_ok base off data_len resume at l \<longleftrightarrow>
     35 \<le> unat l \<and> unat l \<le> 42 \<and> unat resume < unat at \<and> unat at \<le> 247 \<and> unat at + 35 \<le> data_len \<and>
     l = base ! ((off + unat at - 1) mod 256) AND NOT k_hpack_huffman_flag"

definition scan_inv :: "bytes \<Rightarrow> nat \<Rightarrow> nat \<Rightarrow> u16 \<Rightarrow> h2_tp_huff_scan \<Rightarrow> bool" where
  "scan_inv base off data_len resume scan \<longleftrightarrow>
     length (hs_at scan) = 3 \<and> length (hs_len scan) = 3 \<and> unat (hs_count scan) \<le> 3 \<and>
     hs_resume scan = resume \<and>
     (\<forall>c < unat (hs_count scan). candidate_ok base off data_len resume (hs_at scan ! c) (hs_len scan ! c))"

lemma scan_step_inv [keeps_inv]:
  assumes "scan_inv base off data_len resume scan" and "length base = 256" and "36 \<le> data_len"
  shows "\<exists>scan' stop. h2_huff_scan_step base off (data_len - 36) i scan = Some (scan', stop) \<and>
    scan_inv base off data_len resume scan'"
proof (cases "i \<ge> 247 \<or> i > data_len - 36")
  case True
  then show ?thesis using assms(1) by (auto simp: h2_huff_scan_step_def hpack_consts)
next
  case False
  define b where "b = base ! ((off + i) mod 256)"
  have rd: "rd base ((off + i) mod 256) = Some b" using assms(2) by (simp add: b_def)
  show ?thesis
  proof (cases "h2_tp_huff_len_plausible b \<and> unat resume < i + 1 \<and> unat (hs_count scan) < 3")
    case True
    define c where "c = unat (hs_count scan)"
    define a1 :: u16 where "a1 = word_of_nat (i + 1)"
    define c1 :: u8 where "c1 = word_of_nat (c + 1)"
    define s1 where "s1 = scan\<lparr>hs_at := (hs_at scan)[c := a1],
      hs_len := (hs_len scan)[c := b AND NOT k_hpack_huffman_flag], hs_count := c1\<rparr>"
    have c3: "c < 3" using True by (simp add: c_def)
    have step: "h2_huff_scan_step base off (data_len - 36) i scan = Some (s1, False)"
      using rd True False assms(1) unfolding s1_def a1_def c1_def c_def
      by (auto simp: h2_huff_scan_step_def hpack_consts k_h2_tp_huff_max_candidates_def scan_inv_def Let_def)
    have at: "unat a1 = i + 1" unfolding a1_def using False by (simp only: unat_of_nat) simp
    have cnt: "unat c1 = Suc c" unfolding c1_def using c3 by (simp only: unat_of_nat) simp
    have new: "candidate_ok base off data_len resume a1 (b AND NOT k_hpack_huffman_flag)"
      unfolding candidate_ok_def at using True False plausible_len[of b] assms(3) by (auto simp: b_def)
    have "scan_inv base off data_len resume s1"
      using assms(1) c3 new unfolding scan_inv_def s1_def c_def[symmetric]
      by (simp add: cnt) (auto simp: nth_list_update less_Suc_eq)
    with step show ?thesis by blast
  next
    case no: False
    then have "\<exists>stop. h2_huff_scan_step base off (data_len - 36) i scan = Some (scan, stop)"
      using rd False assms(1)
      by (auto simp: h2_huff_scan_step_def hpack_consts k_h2_tp_huff_max_candidates_def scan_inv_def Let_def)
    then show ?thesis using assms(1) by blast
  qed
qed

text \<open>
  C29: the scan for Huffman values without a name, over a full capture buffer, stays in bounds
  and keeps its record well formed: at most three candidates, each announced by a plausible
  length octet, past the offset to resume from, and with room for the shortest value.
\<close>

theorem huff_scan_candidates:
  assumes "length base = 256" and "length (hs_at scan) = 3" and "length (hs_len scan) = 3"
  shows "\<exists>scan' ok. find_hpack_traceparent_huffman base off data_len scan = Some (scan', ok) \<and>
    scan_inv base off data_len (hs_resume scan) scan' \<and> (ok \<longleftrightarrow> hs_count scan' \<noteq> 0)"
proof -
  define s0 where "s0 = scan\<lparr>hs_count := 0, hs_idx := 0\<rparr>"
  have inv: "scan_inv base off data_len (hs_resume scan) s0"
    using assms by (simp add: scan_inv_def s0_def)
  show ?thesis
  proof (cases "data_len < 36")
    case True
    then show ?thesis
      using inv by (auto simp: find_hpack_traceparent_huffman_def hpack_consts s0_def Let_def)
  next
    case False
    have "\<exists>t. bpf_loop 247 (h2_huff_scan_step base off (data_len - 36)) s0 = Some t \<and>
        scan_inv base off data_len (hs_resume scan) t"
      by (rule bpf_loop_inv[where P = "\<lambda>_ t. scan_inv base off data_len (hs_resume scan) t"])
         (use inv scan_step_inv[OF _ assms(1), of off data_len "hs_resume scan"] False in \<open>fastforce+\<close>)
    then show ?thesis
      using False by (auto simp: find_hpack_traceparent_huffman_def hpack_consts s0_def Let_def)
  qed
qed

definition sample_scan :: h2_tp_huff_scan where
  "sample_scan = \<lparr>hs_at = [0, 0, 0], hs_len = [0, 0, 0], hs_count = 0, hs_idx = 0, hs_done = 0, hs_resume = 0\<rparr>"

theorem huff_scan_candidates_witness:
  "\<exists>scan' ok. find_hpack_traceparent_huffman (replicate 256 0xa5) 9 100 sample_scan = Some (scan', ok) \<and>
    scan_inv (replicate 256 0xa5) 9 100 0 scan' \<and> (ok \<longleftrightarrow> hs_count scan' \<noteq> 0)"
  using huff_scan_candidates[of "replicate 256 0xa5" sample_scan 9 100] by (simp add: sample_scan_def)

end
