(* ===== verification/Http2_Requests.thy ===== *)
theory Http2_Requests
  imports Http_Requests Hpack_Traceparent
begin

section \<open>HTTP/2 and gRPC requests\<close>

text \<open>
  Models \<open>bpf/generictracer/protocol_http2.h\<close>: the programs that walk the frames of a buffer, start the
  record of a request at its HEADERS frame, find its trace context, report the request when its stream
  ends, and carry a frame that the end of a read cut over to the next read.

  The programs call each other by tail calls, of which the kernel allows a limited number in a row. A
  program is a function of the tail calls it may make: a tail call that fails returns, one that succeeds
  does not. \<open>h2_run n\<close> runs a program with \<open>n\<close> tail calls left.
\<close>

unbundle bit_operations_syntax

subsection \<open>State\<close>

definition http2_conn_flag_ssl :: u8 where "http2_conn_flag_ssl = 1"
definition http2_conn_flag_new :: u8 where "http2_conn_flag_new = 2"
definition h2_hpack_req_unreliable :: u8 where "h2_hpack_req_unreliable = 1"
definition h2_hpack_resp_unreliable :: u8 where "h2_hpack_resp_unreliable = 2"
definition h2_hpack_new_connection :: u8 where "h2_hpack_new_connection = 4"
definition k_event_type_k_http2_request :: u8 where "k_event_type_k_http2_request = 7"
definition k_event_type_k_http2_request_headers :: u8 where "k_event_type_k_http2_request_headers = 25"
definition k_event_type_k_http2_response_headers :: u8 where "k_event_type_k_http2_response_headers = 26"
definition k_kprobes_http2_ret_buf_size :: nat where "k_kprobes_http2_ret_buf_size = 64"
definition k_iovec_max_len :: u32 where "k_iovec_max_len = 8192"
definition k_h2_default_max_frame_size :: u32 where "k_h2_default_max_frame_size = 16384"
definition k_h2_max_payload :: nat where "k_h2_max_payload = 247"
definition k_frame_header_len :: u32 where "k_frame_header_len = 9"
definition FramePushPromise :: u8 where "FramePushPromise = 5"
definition FrameContinuation :: u8 where "FrameContinuation = 9"
definition k_max_loop_iterations :: nat where "k_max_loop_iterations = 4"
definition k_iterations :: u8 where "k_iterations = 24"

definition zero_http2_request :: http2_grpc_request where
  "zero_http2_request = \<lparr>h2r_flags = 0, h2r_ssl = 0, h2r_type = 0, h2r_parent_status = k_parent_status_none,
     h2r_conn_info = zero_conn, h2r_start_monotime_ns = 0, h2r_end_monotime_ns = 0,
     h2r_data = replicate k_kprobes_http2_buf_size 0, h2r_ret_data = replicate k_kprobes_http2_ret_buf_size 0, h2r_len = 0,
     h2r_stream_id = 0, h2r_hpack_flags = 0, h2r_pid = \<lparr>pi_host_pid = 0, pi_user_pid = 0, pi_ns = 0\<rparr>,
     h2r_new_conn_id = 0, h2r_tp = zero_tp\<rparr>"

text \<open>
  The state of the walk over one buffer. What \<open>gc_prev_info\<close> holds matters only while
  \<open>gc_has_prev_info\<close> is set.
\<close>

record grpc_frames_ctx =
  gc_prev_info :: http2_grpc_request
  gc_has_prev_info :: bool
  gc_iterations :: u8
  gc_terminate_search :: bool
  gc_pos :: u32
  gc_saved_buf_pos :: u32
  gc_saved_stream_id :: u32
  gc_args :: call_protocol_args
  gc_stream :: http2_conn_stream
  gc_huff :: h2_tp_huff_candidate
  gc_huff_scan :: h2_tp_huff_scan

datatype h2_prog = GrpcFrames | StartFrame | StartServer | ServerHuffscan | ServerHuffman | ServerFinalize | ServerCommit | EndFrame

text \<open>A program that was replaced by a tail call or returned, or one that goes on.\<close>

datatype flow = Ended http_world | Going grpc_frames_ctx http_world

type_synonym h2_call = "h2_prog \<Rightarrow> grpc_frames_ctx \<Rightarrow> http_world \<Rightarrow> http_world option"

definition h2_at :: "http_world \<Rightarrow> http2_conn_stream \<Rightarrow> http2_grpc_request option" where
  "h2_at w s = ongoing_http2_grpc (hw_rt w) s"

definition put_h2 :: "http2_conn_stream \<Rightarrow> http2_grpc_request \<Rightarrow> http_world \<Rightarrow> http_world" where
  "put_h2 s r w = w\<lparr>hw_rt := (hw_rt w)\<lparr>ongoing_http2_grpc := (ongoing_http2_grpc (hw_rt w))(s \<mapsto> r)\<rparr>\<rparr>"

definition del_h2 :: "http2_conn_stream \<Rightarrow> http_world \<Rightarrow> http_world" where
  "del_h2 s w = w\<lparr>hw_rt := (hw_rt w)\<lparr>ongoing_http2_grpc := map_del s (ongoing_http2_grpc (hw_rt w))\<rparr>\<rparr>"

definition h2_conn_at :: "http_world \<Rightarrow> pid_connection_info \<Rightarrow> http2_conn_info_data option" where
  "h2_conn_at w pc = ongoing_http2_connections (hw_rt w) pc"

text \<open>A write through a pointer to the entry of a connection.\<close>

definition upd_h2_conn :: "pid_connection_info \<Rightarrow> (http2_conn_info_data \<Rightarrow> http2_conn_info_data) \<Rightarrow> http_world \<Rightarrow> http_world" where
  "upd_h2_conn pc f w = w\<lparr>hw_rt := (hw_rt w)\<lparr>ongoing_http2_connections :=
     (ongoing_http2_connections (hw_rt w))(pc := map_option f (ongoing_http2_connections (hw_rt w) pc))\<rparr>\<rparr>"

text \<open>The memory a program reads: that of the environment, with the per-CPU buffer of joined reads.\<close>

definition h2_mem :: "http_env \<Rightarrow> http_world \<Rightarrow> mem" where
  "h2_mem v w = (case hw_h2_joined w of None \<Rightarrow> h_mem v
     | Some joined \<Rightarrow> (\<lambda>a. case mem_of (hv_joined_at v) joined a of None \<Rightarrow> h_mem v a | Some b \<Rightarrow> Some b))"

text \<open>The address \<open>pos\<close> bytes into the buffer; \<open>pos\<close> is an \<open>int\<close>.\<close>

definition buf_at :: "call_protocol_args \<Rightarrow> u32 \<Rightarrow> nat" where
  "buf_at args pos = nat (int (ca_u_buf args) + sint pos)"

definition http2_flag_ssl :: "u8 \<Rightarrow> u8" where
  "http2_flag_ssl flags = flags AND http2_conn_flag_ssl"

definition http2_flag_new :: "u8 \<Rightarrow> u8" where
  "http2_flag_new flags = flags AND http2_conn_flag_new"

text \<open>The scratch record: everything but the capture buffers is cleared.\<close>

definition empty_http2_info :: "http_world \<Rightarrow> http2_grpc_request option" where
  "empty_http2_info w = map_option (\<lambda>r. zero_http2_request\<lparr>h2r_data := h2r_data r, h2r_ret_data := h2r_ret_data r\<rparr>) (hw_h2_info w)"

definition uniqueHTTP2ConnId :: "trace_env \<Rightarrow> pid_connection_info \<Rightarrow> trace_maps \<Rightarrow> u64 \<times> trace_maps" where
  "uniqueHTTP2ConnId e p_conn st =
     (push_bit 32 (ucast (en_rnd e (rnd_pos st))) OR
        ucast (push_bit 16 (ucast (d_port (pc_conn p_conn))) OR ucast (s_port (pc_conn p_conn)) :: u32),
      st\<lparr>rnd_pos := Suc (rnd_pos st)\<rparr>)"

subsection \<open>Trace context of a stream\<close>

definition adopt_injected_trace :: "http2_conn_stream \<Rightarrow> tp_info \<Rightarrow> trace_maps \<Rightarrow> tp_info option" where
  "adopt_injected_trace s_key tp st =
     (let conn = pc_conn (hs_pid_conn s_key);
          e_key = sort_egress_key \<lparr>ek_s_port = s_port conn, ek_d_port = d_port conn, ek_stream_id = hs_stream_id s_key\<rparr>
      in case outgoing_trace_map st e_key of
           None \<Rightarrow> None
         | Some injected \<Rightarrow>
             if tpp_pid injected = pc_pid (hs_pid_conn s_key) \<and> tpp_valid injected \<noteq> 0 \<and> tpp_written injected \<noteq> 0 \<and>
                valid_trace (tp_trace_id (tpp_tp injected))
             then Some (tp\<lparr>tp_trace_id := tp_trace_id (tpp_tp injected), tp_span_id := tp_span_id (tpp_tp injected),
                           tp_parent_id := tp_parent_id (tpp_tp injected), tp_flags := tp_flags (tpp_tp injected)\<rparr>)
             else None)"

text \<open>The offset of the header block in the captured frame, and its length.\<close>

definition h2_hpack_window :: "http2_grpc_request \<Rightarrow> nat \<times> nat" where
  "h2_hpack_window r =
     (let flags = h2r_data r ! 4;
          padded = (if bit flags 3 then 1 else 0);
          prefix = padded + (if bit flags 5 then k_h2_priority_prefix_len else 0);
          frame_len = be_nat (take 3 (h2r_data r));
          raw_len = min frame_len k_h2_max_payload;
          skip = prefix + padded * unat (h2r_data r ! k_h2_frame_header_len)
      in (k_h2_frame_header_len + prefix, raw_len - skip))"

text \<open>What follows the captured frame in the record is the other capture buffer.\<close>

definition hpack_block :: "http2_grpc_request \<Rightarrow> nat \<Rightarrow> bytes" where
  "hpack_block r off = drop off (h2r_data r @ h2r_ret_data r)"

definition poison_request :: "u8 \<Rightarrow> http2_grpc_request \<Rightarrow> http2_grpc_request" where
  "poison_request flags r = r\<lparr>h2r_hpack_flags := h2r_hpack_flags r OR (flags AND (h2_hpack_req_unreliable OR h2_hpack_resp_unreliable))\<rparr>"

definition http2_poison_hpack :: "http2_conn_stream \<Rightarrow> u8 \<Rightarrow> http_world \<Rightarrow> http_world" where
  "http2_poison_hpack stream flags w =
     (let w = upd_h2_conn (hs_pid_conn stream) (\<lambda>c.
            let c = (if flags AND h2_hpack_req_unreliable \<noteq> 0 then c\<lparr>hc_req_hpack_poisoned := 1\<rparr> else c)
            in if flags AND h2_hpack_resp_unreliable \<noteq> 0 then c\<lparr>hc_resp_hpack_poisoned := 1\<rparr> else c) w
      in case h2_at w stream of None \<Rightarrow> w | Some r \<Rightarrow> put_h2 stream (poison_request flags r) w)"

text \<open>The copy of the record the walk keeps is poisoned as well.\<close>

definition poison_prev :: "u8 \<Rightarrow> grpc_frames_ctx \<Rightarrow> grpc_frames_ctx" where
  "poison_prev flags g = g\<lparr>gc_prev_info := poison_request flags (gc_prev_info g)\<rparr>"

definition hpack_flags_of :: "http2_conn_info_data \<Rightarrow> u8" where
  "hpack_flags_of c = hc_req_hpack_poisoned c * h2_hpack_req_unreliable OR hc_resp_hpack_poisoned c * h2_hpack_resp_unreliable"

subsection \<open>Events\<close>

definition http2_emit_hpack_event :: "http_env \<Rightarrow> grpc_frames_ctx \<Rightarrow> frame_header \<Rightarrow> u8 \<Rightarrow> http_world \<Rightarrow> bool \<times> http_world" where
  "http2_emit_hpack_event v g frame event_type w =
     (let (ok, rg) = events_ringbuf_reserve (tv_ring (hv_tcp v)) (h_ring w);
          w = put_proto ((tw_proto (hw_tcp w))\<lparr>pm_ring := rg\<rparr>) w
      in if \<not> ok then (False, w)
         else let args = gc_args g; pc = hs_pid_conn (gc_stream g); conn = h2_conn_at w pc;
                  request = (event_type = k_event_type_k_http2_request_headers);
                  buf = buf_at args (gc_pos g);
                  event = zero_http2_request\<lparr>h2r_flags := event_type, h2r_ssl := ca_ssl args,
                    h2r_type := request_type_by_direction (ca_direction args) (if request then PACKET_TYPE_REQUEST else PACKET_TYPE_RESPONSE),
                    h2r_pid := task_pid (en_task (h_env v)), h2r_stream_id := fh_stream_id frame,
                    h2r_len := ca_bytes_len args - gc_pos g,
                    h2r_new_conn_id := (case conn of None \<Rightarrow> 0 | Some c \<Rightarrow> hc_id c),
                    h2r_hpack_flags := (case conn of None \<Rightarrow> h2_hpack_req_unreliable OR h2_hpack_resp_unreliable
                      | Some c \<Rightarrow> hpack_flags_of c OR (if http2_flag_new (hc_flags c) \<noteq> 0 then h2_hpack_new_connection else 0))\<rparr>;
                  event = (if request then event\<lparr>h2r_data := probe_read_z (h2_mem v w) buf k_kprobes_http2_buf_size\<rparr>
                           else event\<lparr>h2r_ret_data := probe_read_z (h2_mem v w) buf k_kprobes_http2_ret_buf_size\<rparr>);
                  w = upd_h2_conn pc (\<lambda>c. c\<lparr>hc_flags := hc_flags c AND NOT http2_conn_flag_new\<rparr>) w;
                  rg = bpf_ringbuf_submit (Http2Event event) (get_flags (tv_ring (hv_tcp v)) (h_ring w)) (h_ring w)
              in (True, put_proto ((tw_proto (hw_tcp w))\<lparr>pm_ring := rg\<rparr>) w))"

subsection \<open>The start of a request\<close>

definition http2_grpc_start_finalize_server ::
  "http_env \<Rightarrow> http2_conn_stream \<Rightarrow> http2_grpc_request \<Rightarrow> tp_info_pid \<Rightarrow> bool \<Rightarrow> u8 \<Rightarrow> u16 \<Rightarrow> http_world \<Rightarrow> http_world" where
  "http2_grpc_start_finalize_server v s_key h2g_info tp_p found_tp ssl orig_dport w =
     (let (tp, st) = (if \<not> found_tp
            then let (tp, st) = new_trace_id (h_env v) (tpp_tp tp_p) (h_traces w)
                 in (sample_new_trace (h_env v) (hw_rt w) (tp\<lparr>tp_parent_id := replicate SPAN_ID_SIZE_BYTES 0\<rparr>), st)
            else (sample_remote_child (h_env v) (hw_rt w) (tpp_tp tp_p), h_traces w));
          tp_p = tp_p\<lparr>tpp_tp := tp\<rparr>;
          h2g_info = h2g_info\<lparr>h2r_tp := tp\<rparr>;
          st = set_trace_info_for_connection (h2r_conn_info h2g_info) TRACE_TYPE_SERVER tp_p st;
          (tp_p, st) = server_or_client_trace (h_env v) (h_cfg v) (hw_rt w) k_event_type_http_request (h2r_conn_info h2g_info)
            k_lw_thread_none tp_p ssl orig_dport 0 BPF_ANY st;
          st = st\<lparr>server_traces := (server_traces st)(trace_key_from_pid_tid (h_env v) (hw_rt w) \<mapsto> tp_p)\<rparr>;
          w = put_h2 s_key h2g_info (put_scratch tp_p (put_traces st (w\<lparr>hw_h2_info := Some h2g_info\<rparr>)))
      in if http_server_index_enabled v
         then put_traces (index_http_server_context (hw_rt w) s_key tp (h_traces w)) w else w)"

text \<open>The record of a request from its HEADERS frame; the part of \<open>http2_grpc_start\<close> both kinds share.\<close>

definition init_http2_request ::
  "http_env \<Rightarrow> http2_conn_stream \<Rightarrow> nat \<Rightarrow> u32 \<Rightarrow> u8 \<Rightarrow> u16 \<Rightarrow> http_connection_metadata \<Rightarrow> u64 \<Rightarrow> http2_grpc_request \<Rightarrow> http_world
   \<Rightarrow> http2_grpc_request" where
  "init_http2_request v s_key u_buf len ssl orig_dport meta start_time r w =
     (let captured = unat (bpf_clamp_umax len (of_nat k_kprobes_http2_buf_size)); conn = h2_conn_at w (hs_pid_conn s_key)
      in r\<lparr>h2r_flags := k_event_type_k_http2_request, h2r_start_monotime_ns := start_time, h2r_len := len, h2r_ssl := ssl,
           h2r_pid := cm_pid meta, h2r_type := cm_type meta,
           h2r_conn_info := fixup_connection_info (pc_conn (hs_pid_conn s_key))
             (if cm_type meta = k_event_type_http_client then 1 else 0) orig_dport,
           h2r_new_conn_id := (case conn of None \<Rightarrow> 0 | Some c \<Rightarrow> hc_id c), h2r_stream_id := hs_stream_id s_key,
           h2r_hpack_flags := (case conn of None \<Rightarrow> h2_hpack_req_unreliable OR h2_hpack_resp_unreliable | Some c \<Rightarrow> hpack_flags_of c),
           h2r_data := probe_read_z (h2_mem v w) u_buf captured @ replicate (k_kprobes_http2_buf_size - captured) 0\<rparr>)"

text \<open>The context of a client request, and its record stored.\<close>

definition http2_grpc_start_client ::
  "http_env \<Rightarrow> http2_conn_stream \<Rightarrow> http2_grpc_request \<Rightarrow> tp_info_pid \<Rightarrow> u8 \<Rightarrow> u16 \<Rightarrow> http_world \<Rightarrow> http_world" where
  "http2_grpc_start_client v s_key h2g_info tp_p ssl orig_dport w =
     (let pc = hs_pid_conn s_key;
          w = (case cp_support_connect_info (h_traces w) pc of
                 None \<Rightarrow> w
               | Some cp \<Rightarrow>
                   let (t, w) = http_now v w; st = h_traces w;
                       cp = cp\<lparr>cp_t_key := trace_key_from_pid_tid (h_env v) (hw_rt w), cp_ts := t\<rparr>
                   in put_traces (st\<lparr>cp_support_connect_info := (cp_support_connect_info st)(pc \<mapsto> cp)\<rparr>) w);
          (status, tp, st) = find_trace_for_client_request (h_env v) (h_cfg v) (hw_rt w) pc orig_dport k_lw_thread_none
            (tpp_tp tp_p) (h_traces w);
          (status', tp) = (case adopt_injected_trace s_key tp st of None \<Rightarrow> (status, tp) | Some tp \<Rightarrow> (k_parent_status_live, tp));
          (tp, st) = (if status = k_parent_status_none \<and> \<not> valid_trace (tp_trace_id tp)
            then let (tp, st) = new_trace_id (h_env v) tp st
                 in (sample_new_trace (h_env v) (hw_rt w) (tp\<lparr>tp_parent_id := replicate SPAN_ID_SIZE_BYTES 0\<rparr>), st)
            else (tp, st));
          tp_p = tp_p\<lparr>tpp_tp := tp\<rparr>;
          h2g_info = h2g_info\<lparr>h2r_parent_status := status', h2r_tp := tp\<rparr>;
          st = set_trace_info_for_connection (h2r_conn_info h2g_info) TRACE_TYPE_CLIENT tp_p st;
          (tp_p, st) = server_or_client_trace (h_env v) (h_cfg v) (hw_rt w) k_event_type_http_client (h2r_conn_info h2g_info)
            k_lw_thread_none tp_p ssl orig_dport (hs_stream_id s_key) BPF_NOEXIST st
      in put_h2 s_key h2g_info (put_scratch tp_p (put_traces st (w\<lparr>hw_h2_info := Some h2g_info\<rparr>))))"

definition http2_grpc_start ::
  "http_env \<Rightarrow> h2_call \<Rightarrow> grpc_frames_ctx \<Rightarrow> nat \<Rightarrow> u32 \<Rightarrow> http_world \<Rightarrow> flow" where
  "http2_grpc_start v call g u_buf len w =
     (let s_key = gc_stream g; args = gc_args g
      in case h2_at w s_key of
           Some existing \<Rightarrow>
             Going g (if h2r_type existing = k_event_type_http_client
                then (case adopt_injected_trace s_key (h2r_tp existing) (h_traces w) of None \<Rightarrow> w
                      | Some tp \<Rightarrow> put_h2 s_key (existing\<lparr>h2r_tp := tp, h2r_parent_status := k_parent_status_live\<rparr>) w)
                else w)
         | None \<Rightarrow> (case empty_http2_info w of
             None \<Rightarrow> Going g w
           | Some r \<Rightarrow>
               let w = w\<lparr>hw_h2_info := Some r\<rparr>
               in case connection_meta_by_direction v w (ca_direction args) PACKET_TYPE_REQUEST of
                    None \<Rightarrow> Going g w
                  | Some meta \<Rightarrow>
                      let (t, w) = http_now v w;
                          r = init_http2_request v s_key u_buf len (ca_ssl args) (ca_orig_dport args) meta t r w;
                          w = w\<lparr>hw_h2_info := Some r\<rparr>
                      in case h_scratch w of
                           None \<Rightarrow> Going g (put_h2 s_key r w)
                         | Some tp_p \<Rightarrow>
                             let (t, w) = http_now v w;
                                 (span, st) = read_urand (h_env v) SPAN_ID_SIZE_BYTES (h_traces w);
                                 tp_p = tp_p\<lparr>tpp_tp := (tpp_tp tp_p)\<lparr>tp_trace_id := replicate TRACE_ID_SIZE_BYTES 0,
                                     tp_parent_id := replicate SPAN_ID_SIZE_BYTES 0, tp_ts := t, tp_flags := 1, tp_span_id := span\<rparr>,
                                   tpp_valid := 1, tpp_written := 0, tpp_pid := pc_pid (hs_pid_conn s_key), tpp_req_type := cm_type meta\<rparr>;
                                 w = put_scratch tp_p (put_traces st w)
                             in if cm_type meta \<noteq> k_event_type_http_client
                                then (case call StartServer g w of
                                        Some w \<Rightarrow> Ended w
                                      | None \<Rightarrow> Going g (http2_poison_hpack s_key (h2_hpack_req_unreliable OR h2_hpack_resp_unreliable) w))
                                else Going g (http2_grpc_start_client v s_key r tp_p (ca_ssl args) (ca_orig_dport args) w)))"

subsection \<open>The end of a request\<close>

definition http2_grpc_end :: "http_env \<Rightarrow> http2_conn_stream \<Rightarrow> http2_grpc_request \<Rightarrow> nat \<Rightarrow> http_world \<Rightarrow> http_world" where
  "http2_grpc_end v stream prev_info u_buf w =
     (let (t, w) = http_now v w;
          prev_info = prev_info\<lparr>h2r_end_monotime_ns := t,
            h2r_hpack_flags := (case h2_conn_at w (hs_pid_conn stream) of
                None \<Rightarrow> h2r_hpack_flags prev_info OR (h2_hpack_req_unreliable OR h2_hpack_resp_unreliable)
              | Some c \<Rightarrow> hpack_flags_of c)\<rparr>;
          (ok, rg) = events_ringbuf_reserve (tv_ring (hv_tcp v)) (h_ring w);
          rg = (if ok
            then bpf_ringbuf_submit (Http2Event (prev_info\<lparr>h2r_ret_data := probe_read_z (h2_mem v w) u_buf k_kprobes_http2_ret_buf_size\<rparr>))
                   (get_flags (tv_ring (hv_tcp v)) rg) rg
            else rg);
          w = put_proto ((tw_proto (hw_tcp w))\<lparr>pm_ring := rg\<rparr>) w;
          w = (if h2r_type prev_info = k_event_type_http_client
               then put_traces (obi_ctx_restore_server (h_env v) (h_cfg v) (hw_rt w) (Some (h2r_tp prev_info)) (h_traces w)) w
               else if h2r_type prev_info = k_event_type_http_request \<and> http_server_index_enabled v
               then put_traces (unindex_http_server_trace (pc_pid (hs_pid_conn stream)) (h2r_tp prev_info) (h_traces w)) w
               else w);
          w = del_h2 stream w; st = h_traces w; conn = pc_conn (hs_pid_conn stream);
          e_key = sort_egress_key \<lparr>ek_s_port = s_port conn, ek_d_port = d_port conn, ek_stream_id = hs_stream_id stream\<rparr>
      in put_traces (st\<lparr>outgoing_trace_map := map_del e_key (outgoing_trace_map st)\<rparr>) w)"

subsection \<open>Frames\<close>

text \<open>A failed read leaves zeroes in the header.\<close>

definition frame_of :: "bytes \<Rightarrow> frame_header" where
  "frame_of d = (let h = raw_frame_header d
     in h\<lparr>fh_length := take_bit 24 (bswap32 (push_bit 8 (fh_length h))),
          fh_stream_id := take_bit 31 (bswap32 (push_bit 1 (fh_stream_id h)))\<rparr>)"

definition next_frame :: "http_env \<Rightarrow> grpc_frames_ctx \<Rightarrow> http_world \<Rightarrow> frame_header" where
  "next_frame v g w = frame_of (probe_read_z (h2_mem v w) (buf_at (gc_args g) (gc_pos g)) k_h2_frame_header_len)"

definition h2_tracks_cut_frames :: "grpc_frames_ctx \<Rightarrow> bool" where
  "h2_tracks_cut_frames g \<longleftrightarrow> ca_direction (gc_args g) = TCP_RECV \<and> sint (ca_bytes_len (gc_args g)) < sint k_iovec_max_len"

definition h2_keeps_cut_frame :: "grpc_frames_ctx \<Rightarrow> frame_header \<Rightarrow> bool" where
  "h2_keeps_cut_frame g frame \<longleftrightarrow> h2_tracks_cut_frames g \<and>
     (let remaining = ca_bytes_len (gc_args g) - gc_pos g; frame_size = fh_length frame + k_frame_header_len
      in remaining < k_frame_header_len \<or>
         is_headers_frame frame \<and> frame_size > remaining \<and> frame_size \<le> of_nat k_kprobes_http2_buf_size)"

definition h2_frame_plausible :: "frame_header \<Rightarrow> bool" where
  "h2_frame_plausible frame \<longleftrightarrow> fh_type frame \<le> FrameContinuation \<and> fh_length frame \<le> k_h2_default_max_frame_size"

definition h2_frame_header_plausible :: "http_env \<Rightarrow> nat \<Rightarrow> http_world \<Rightarrow> bool" where
  "h2_frame_header_plausible v at w = (case probe_read (h2_mem v w) at k_h2_frame_header_len of
     None \<Rightarrow> False
   | Some d \<Rightarrow> let h = raw_frame_header d
       in h2_frame_plausible (h\<lparr>fh_length := take_bit 24 (bswap32 (push_bit 8 (fh_length h)))\<rparr>))"

text \<open>The next read starts inside the frame this one ended in: the frame is kept, or its rest is skipped.\<close>

definition h2_save_cut_frame :: "http_env \<Rightarrow> grpc_frames_ctx \<Rightarrow> http_world \<Rightarrow> http_world" where
  "h2_save_cut_frame v g w =
     (if \<not> h2_tracks_cut_frames g then w
      else case hw_h2_cut w of
        None \<Rightarrow> w
      | Some cf \<Rightarrow>
          let cf = cf\<lparr>cf_skip := 0, cf_len := 0\<rparr>; bytes_len = ca_bytes_len (gc_args g); pos = gc_pos g;
              remaining = bytes_len - pos; frame = next_frame v g w; frame_size = fh_length frame + k_frame_header_len;
              store = (\<lambda>cf. let w = w\<lparr>hw_h2_cut := Some cf\<rparr>
                in if cf_skip cf \<noteq> 0 \<or> cf_len cf \<noteq> 0
                   then w\<lparr>h2_cut_frames := (h2_cut_frames w)(ca_pid_conn (gc_args g) \<mapsto> cf)\<rparr> else w)
          in if pos > bytes_len then store (cf\<lparr>cf_skip := pos - bytes_len\<rparr>)
             else if pos < bytes_len
             then (if h2_keeps_cut_frame g frame
                   then let len = bpf_clamp_umax remaining (of_nat k_kprobes_http2_buf_size);
                            at = bpf_clamp_umax pos k_iovec_max_len
                        in store (cf\<lparr>cf_data := probe_read_z (h2_mem v w) (ca_u_buf (gc_args g) + unat at) (unat len)
                             @ drop (unat len) (cf_data cf), cf_len := ucast len\<rparr>)
                   else if frame_size \<le> remaining \<or> is_invalid_frame frame \<or> \<not> h2_frame_plausible frame
                   then w\<lparr>hw_h2_cut := Some cf\<rparr>
                   else store (cf\<lparr>cf_skip := frame_size - remaining\<rparr>))
             else store cf)"

text \<open>Where the first whole frame of this read begins, once the header of the kept frame is complete.\<close>

definition cut_frame_next :: "h2_cut_frame \<Rightarrow> u32 \<Rightarrow> u32" where
  "cut_frame_next cf kept =
     (if kept \<ge> k_frame_header_len
      then let frame_size = of_nat (be_nat (take 3 (cf_data cf))) + k_frame_header_len
           in if frame_size > kept then frame_size - kept else 0
      else 0)"

definition h2_resume_cut_frame :: "http_env \<Rightarrow> grpc_frames_ctx \<Rightarrow> http_world \<Rightarrow> grpc_frames_ctx \<times> http_world" where
  "h2_resume_cut_frame v g w =
     (if ca_direction (gc_args g) \<noteq> TCP_RECV then (g, w)
      else case h2_cut_frames w (ca_pid_conn (gc_args g)) of
        None \<Rightarrow> (g, w)
      | Some cf \<Rightarrow>
          let pc = ca_pid_conn (gc_args g); read_len = ca_bytes_len (gc_args g); buf = ca_u_buf (gc_args g)
          in if cf_skip cf \<ge> read_len \<and> h2_tracks_cut_frames g
             then (g\<lparr>gc_pos := read_len\<rparr>,
                   w\<lparr>h2_cut_frames := (h2_cut_frames w)(pc \<mapsto> cf\<lparr>cf_skip := cf_skip cf - read_len\<rparr>)\<rparr>)
             else let (g, w) = (if cf_skip cf \<noteq> 0 \<and> cf_skip cf < read_len \<and>
                         (read_len - cf_skip cf < k_frame_header_len \<or> h2_frame_header_plausible v (buf + unat (cf_skip cf)) w)
                       then (g\<lparr>gc_pos := cf_skip cf\<rparr>, w)
                       else if cf_skip cf = 0 \<and> cf_len cf \<noteq> 0
                       then let kept = bpf_clamp_umax (ucast (cf_len cf)) (of_nat k_kprobes_http2_buf_size);
                                len = bpf_clamp_umax read_len k_iovec_max_len; nxt = cut_frame_next cf kept
                            in case hw_h2_joined w of
                                 None \<Rightarrow> (g, w)
                               | Some joined \<Rightarrow>
                                   if nxt = 0 \<or> nxt + k_frame_header_len > len \<or> h2_frame_header_plausible v (buf + unat nxt) w
                                   then (g\<lparr>gc_args := (gc_args g)\<lparr>ca_u_buf := hv_joined_at v, ca_bytes_len := kept + len\<rparr>\<rparr>,
                                         w\<lparr>hw_h2_joined := Some (take (unat kept) (cf_data cf) @
                                           probe_read_z (h2_mem v w) buf (unat len) @ drop (unat kept + unat len) joined)\<rparr>)
                                   else (g, w)
                       else (g, w))
                  in (g, w\<lparr>h2_cut_frames := map_del pc (h2_cut_frames w)\<rparr>))"

subsection \<open>The walk over a buffer\<close>

definition update_prev_info :: "grpc_frames_ctx \<Rightarrow> http_world \<Rightarrow> grpc_frames_ctx" where
  "update_prev_info g w = (case h2_at w (gc_stream g) of
     None \<Rightarrow> g\<lparr>gc_has_prev_info := False\<rparr>
   | Some r \<Rightarrow> g\<lparr>gc_prev_info := r, gc_has_prev_info := True\<rparr>)"

definition h2_response_direction :: "u8 \<Rightarrow> u8 \<Rightarrow> bool" where
  "h2_response_direction type direction \<longleftrightarrow> request_type_by_direction direction PACKET_TYPE_RESPONSE = type"

definition h2_forget_stream :: "grpc_frames_ctx \<Rightarrow> grpc_frames_ctx" where
  "h2_forget_stream g = g\<lparr>gc_has_prev_info := False, gc_saved_stream_id := 0\<rparr>"

definition h2_poison_unscanned :: "grpc_frames_ctx \<Rightarrow> http_world \<Rightarrow> grpc_frames_ctx \<times> http_world" where
  "h2_poison_unscanned g w =
     (let both = h2_hpack_req_unreliable OR h2_hpack_resp_unreliable
      in (if gc_has_prev_info g then poison_prev both g else g, http2_poison_hpack (gc_stream g) both w))"

text \<open>A tail call after which the program returns.\<close>

definition h2_tail_call :: "h2_call \<Rightarrow> h2_prog \<Rightarrow> grpc_frames_ctx \<Rightarrow> http_world \<Rightarrow> http_world" where
  "h2_tail_call call prog g w = (case call prog g w of Some w \<Rightarrow> w | None \<Rightarrow> snd (h2_poison_unscanned g w))"

definition resume_frame_scan :: "http_env \<Rightarrow> h2_call \<Rightarrow> grpc_frames_ctx \<Rightarrow> http_world \<Rightarrow> http_world" where
  "resume_frame_scan v call g w =
     (let frame = next_frame v g w;
          g = (if h2_keeps_cut_frame g frame then g else g\<lparr>gc_pos := gc_pos g + (fh_length frame + k_frame_header_len)\<rparr>)
      in if \<not> gc_terminate_search g \<and> sint (gc_pos g) < sint (ca_bytes_len (gc_args g))
         then h2_tail_call call GrpcFrames g w else h2_save_cut_frame v g w)"

text \<open>The header block of a frame is shipped; the tables are unreliable if it is not shipped or not whole.\<close>

definition emit_headers :: "http_env \<Rightarrow> grpc_frames_ctx \<Rightarrow> frame_header \<Rightarrow> u8 \<Rightarrow> u8 \<Rightarrow> nat \<Rightarrow> http_world \<Rightarrow> grpc_frames_ctx \<times> http_world" where
  "emit_headers v g frame event_type poison capture_size w =
     (let spoil = (\<lambda>(g, w). (if gc_has_prev_info g then poison_prev poison g else g, http2_poison_hpack (gc_stream g) poison w));
          (ok, w) = http2_emit_hpack_event v g frame event_type w;
          (g, w) = (if ok then (g, w) else spoil (g, w))
      in if unat (fh_length frame + k_frame_header_len) > capture_size then spoil (g, w) else (g, w))"

definition handle_headers_frame :: "http_env \<Rightarrow> h2_call \<Rightarrow> grpc_frames_ctx \<Rightarrow> frame_header \<Rightarrow> http_world \<Rightarrow> flow" where
  "handle_headers_frame v call g frame w =
     (let g = g\<lparr>gc_stream := (gc_stream g)\<lparr>hs_stream_id := fh_stream_id frame\<rparr>\<rparr>;
          g = update_prev_info g w
      in if gc_has_prev_info g
         then let g = g\<lparr>gc_saved_stream_id := fh_stream_id frame, gc_saved_buf_pos := gc_pos g\<rparr>;
                  (g, w) = (if h2_response_direction (h2r_type (gc_prev_info g)) (ca_direction (gc_args g))
                    then emit_headers v g frame k_event_type_k_http2_response_headers h2_hpack_resp_unreliable
                           k_kprobes_http2_ret_buf_size w
                    else emit_headers v g frame k_event_type_k_http2_request_headers h2_hpack_req_unreliable
                           k_kprobes_http2_buf_size w)
              in if http_grpc_stream_ended frame then Ended (h2_tail_call call EndFrame g w) else Going g w
         else if is_flags_only_frame frame \<and> http_grpc_stream_ended frame then Going g w
         else let (g, w) = emit_headers v g frame k_event_type_k_http2_request_headers h2_hpack_req_unreliable
                    k_kprobes_http2_buf_size w
              in Ended (h2_tail_call call StartFrame g w))"

definition handle_data_stream_end :: "h2_call \<Rightarrow> grpc_frames_ctx \<Rightarrow> frame_header \<Rightarrow> http_world \<Rightarrow> flow" where
  "handle_data_stream_end call g frame w =
     (case h2_at w \<lparr>hs_pid_conn = ca_pid_conn (gc_args g), hs_stream_id = fh_stream_id frame\<rparr> of
        None \<Rightarrow> Going g w
      | Some info \<Rightarrow>
          if \<not> h2_response_direction (h2r_type info) (ca_direction (gc_args g)) then Going g w
          else let g = (if gc_saved_stream_id g \<noteq> fh_stream_id frame
                     then g\<lparr>gc_saved_buf_pos := gc_pos g, gc_saved_stream_id := fh_stream_id frame\<rparr> else g);
                   g = g\<lparr>gc_stream := (gc_stream g)\<lparr>hs_stream_id := fh_stream_id frame\<rparr>\<rparr>
               in Ended (h2_tail_call call EndFrame (update_prev_info g w) w))"

definition handle_data_frame :: "h2_call \<Rightarrow> grpc_frames_ctx \<Rightarrow> http_world \<Rightarrow> http_world" where
  "handle_data_frame call g w =
     (if \<not> gc_has_prev_info g \<or> gc_saved_stream_id g = 0 then w
      else if h2_response_direction (h2r_type (gc_prev_info g)) (ca_direction (gc_args g))
      then (case call EndFrame (g\<lparr>gc_stream := \<lparr>hs_pid_conn = ca_pid_conn (gc_args g), hs_stream_id = gc_saved_stream_id g\<rparr>\<rparr>) w of
              None \<Rightarrow> w | Some w \<Rightarrow> w)
      else w)"

text \<open>One turn of the loop over the frames: the program ended, the loop is left, or it goes on.\<close>

datatype turn = TurnEnded http_world | TurnBreak grpc_frames_ctx http_world | TurnNext grpc_frames_ctx http_world

definition note_push_promise :: "grpc_frames_ctx \<Rightarrow> frame_header \<Rightarrow> http_world \<Rightarrow> grpc_frames_ctx \<times> http_world" where
  "note_push_promise g frame w =
     (if fh_type frame = FramePushPromise
      then let g = update_prev_info (g\<lparr>gc_stream := (gc_stream g)\<lparr>hs_stream_id := fh_stream_id frame\<rparr>\<rparr>) w
           in (if gc_has_prev_info g then poison_prev h2_hpack_resp_unreliable g else g,
               http2_poison_hpack (gc_stream g) h2_hpack_resp_unreliable w)
      else (g, w))"

text \<open>The step past a frame, and the end of a stream with a DATA frame before it.\<close>

definition pass_frame :: "grpc_frames_ctx \<Rightarrow> frame_header \<Rightarrow> http_world \<Rightarrow> turn" where
  "pass_frame g frame w =
     (let frame_size = fh_length frame + k_frame_header_len
      in if frame_size \<ge> ca_bytes_len (gc_args g) - gc_pos g then TurnBreak (g\<lparr>gc_terminate_search := True\<rparr>) w
         else TurnNext (g\<lparr>gc_pos := gc_pos g + frame_size\<rparr>) w)"

definition data_turn :: "h2_call \<Rightarrow> grpc_frames_ctx \<Rightarrow> frame_header \<Rightarrow> http_world \<Rightarrow> turn" where
  "data_turn call g frame w =
     (if is_invalid_frame frame then TurnBreak (g\<lparr>gc_terminate_search := True\<rparr>) w
      else if http_grpc_data_stream_ended frame
      then (case handle_data_stream_end call g frame w of Ended w \<Rightarrow> TurnEnded w | Going g w \<Rightarrow> pass_frame g frame w)
      else pass_frame g frame w)"

definition frames_turn :: "http_env \<Rightarrow> h2_call \<Rightarrow> grpc_frames_ctx \<Rightarrow> http_world \<Rightarrow> turn" where
  "frames_turn v call g w =
     (let g = g\<lparr>gc_iterations := gc_iterations g + 1\<rparr>
      in if sint (gc_pos g) \<ge> sint (ca_bytes_len (gc_args g)) then TurnBreak g w
         else let frame = next_frame v g w
         in if h2_keeps_cut_frame g frame then TurnBreak (g\<lparr>gc_terminate_search := True\<rparr>) w
            else let (g, w) = note_push_promise g frame w
            in if is_headers_frame frame
               then (case handle_headers_frame v call g frame w of Ended w \<Rightarrow> TurnEnded w | Going g w \<Rightarrow> data_turn call g frame w)
               else data_turn call g frame w)"

primrec frames_loop :: "nat \<Rightarrow> http_env \<Rightarrow> h2_call \<Rightarrow> grpc_frames_ctx \<Rightarrow> http_world \<Rightarrow> flow" where
  "frames_loop 0 v call g w = Going g w"
| "frames_loop (Suc n) v call g w = (case frames_turn v call g w of
     TurnEnded w \<Rightarrow> Ended w
   | TurnBreak g w \<Rightarrow> Going g w
   | TurnNext g w \<Rightarrow> frames_loop n v call g w)"

definition obi_protocol_http2_grpc_frames :: "http_env \<Rightarrow> h2_call \<Rightarrow> grpc_frames_ctx \<Rightarrow> http_world \<Rightarrow> http_world" where
  "obi_protocol_http2_grpc_frames v call g w = (case frames_loop k_max_loop_iterations v call g w of
     Ended w \<Rightarrow> w
   | Going g w \<Rightarrow>
       if \<not> gc_terminate_search g \<and> gc_iterations g < k_iterations then h2_tail_call call GrpcFrames g w
       else let (g, w) = (if \<not> gc_terminate_search g \<and> sint (gc_pos g) < sint (ca_bytes_len (gc_args g))
                  then h2_poison_unscanned g w else (g, w))
            in handle_data_frame call g (h2_save_cut_frame v g w))"

subsection \<open>The programs of a frame\<close>

definition obi_protocol_http2_grpc_handle_start_frame :: "http_env \<Rightarrow> h2_call \<Rightarrow> grpc_frames_ctx \<Rightarrow> http_world \<Rightarrow> http_world" where
  "obi_protocol_http2_grpc_handle_start_frame v call g w =
     (case http2_grpc_start v call g (buf_at (gc_args g) (gc_pos g)) (ca_bytes_len (gc_args g) - gc_pos g) w of
        Ended w \<Rightarrow> w
      | Going g w \<Rightarrow> resume_frame_scan v call g w)"

definition h2_server_huffscan :: "grpc_frames_ctx \<Rightarrow> http2_grpc_request \<Rightarrow> bool \<times> grpc_frames_ctx" where
  "h2_server_huffscan g h2g_info =
     (let (hpack_off, hpack_len) = h2_hpack_window h2g_info; scan = (gc_huff_scan g)\<lparr>hs_done := 1\<rparr>
      in case find_hpack_traceparent_huffman (h2r_data h2g_info) hpack_off hpack_len scan of
           None \<Rightarrow> (False, g\<lparr>gc_huff_scan := scan\<rparr>)
         | Some (scan, found) \<Rightarrow>
             if found then (True, g\<lparr>gc_huff_scan := scan, gc_huff := \<lparr>hc_at = hs_at scan ! 0, hc_len = hs_len scan ! 0\<rparr>\<rparr>)
             else (False, g\<lparr>gc_huff_scan := scan\<rparr>))"

definition zero_huff_scan :: h2_tp_huff_scan where
  "zero_huff_scan = \<lparr>hs_at = replicate k_h2_tp_huff_max_candidates 0, hs_len = replicate k_h2_tp_huff_max_candidates 0,
     hs_count = 0, hs_idx = 0, hs_done = 0, hs_resume = 0\<rparr>"

definition obi_protocol_http2_grpc_handle_start_frame_server ::
  "http_env \<Rightarrow> h2_call \<Rightarrow> grpc_frames_ctx \<Rightarrow> http_world \<Rightarrow> http_world" where
  "obi_protocol_http2_grpc_handle_start_frame_server v call g w = (case (hw_h2_info w, h_scratch w) of
     (Some h2g_info, Some tp_p) \<Rightarrow>
       let (hpack_off, hpack_len) = h2_hpack_window h2g_info;
           g = g\<lparr>gc_huff_scan := zero_huff_scan\<rparr>;
           (tp, huff, found) = (case parse_hpack_traceparent (hpack_block h2g_info hpack_off) hpack_len (tpp_tp tp_p) of
              None \<Rightarrow> (tpp_tp tp_p, \<lparr>hc_at = 0, hc_len = 0\<rparr>, False) | Some x \<Rightarrow> x);
           g = g\<lparr>gc_huff := huff\<rparr>; w = put_scratch (tp_p\<lparr>tpp_tp := tp\<rparr>) w
       in if found then h2_tail_call call ServerFinalize g w
          else if g_bpf_loop_enabled v
          then h2_tail_call call (if hc_len huff \<noteq> 0 then ServerHuffman else ServerHuffscan) g w
          else h2_tail_call call ServerFinalize g w
   | _ \<Rightarrow> w)"

definition obi_protocol_http2_grpc_handle_start_frame_server_huffscan ::
  "http_env \<Rightarrow> h2_call \<Rightarrow> grpc_frames_ctx \<Rightarrow> http_world \<Rightarrow> http_world" where
  "obi_protocol_http2_grpc_handle_start_frame_server_huffscan v call g w = (case hw_h2_info w of
     None \<Rightarrow> w
   | Some h2g_info \<Rightarrow>
       let (found, g) = h2_server_huffscan g h2g_info
       in h2_tail_call call (if found then ServerHuffman else ServerFinalize) g w)"

text \<open>A value that cannot be decoded makes the walk try the next candidate, or scan again past a full list.\<close>

definition obi_protocol_http2_grpc_handle_start_frame_server_huffman ::
  "http_env \<Rightarrow> h2_call \<Rightarrow> grpc_frames_ctx \<Rightarrow> http_world \<Rightarrow> http_world" where
  "obi_protocol_http2_grpc_handle_start_frame_server_huffman v call g w =
     (if \<not> g_bpf_loop_enabled v then h2_tail_call call ServerFinalize g w
      else case (hw_h2_info w, h_scratch w) of
        (Some h2g_info, Some tp_p) \<Rightarrow>
          if \<not> hw_huff_mem w then w
          else let (hpack_off, hpack_len) = h2_hpack_window h2g_info;
                   (tp, ok) = (case try_parse_tp_huffman_value (hpack_block h2g_info hpack_off) hpack_len (gc_huff g)
                       (replicate k_hpack_value_len_tp 0) (tpp_tp tp_p) of
                     None \<Rightarrow> (tpp_tp tp_p, False) | Some x \<Rightarrow> x);
                   w = put_scratch (tp_p\<lparr>tpp_tp := tp\<rparr>) w; scan = gc_huff_scan g; next_idx = hs_idx scan + 1
               in if ok then h2_tail_call call ServerCommit g w
                  else if hs_done scan = 0 then h2_tail_call call ServerHuffscan g w
                  else if next_idx < hs_count scan \<and> unat next_idx < k_h2_tp_huff_max_candidates
                  then h2_tail_call call ServerHuffman (g\<lparr>gc_huff := \<lparr>hc_at = hs_at scan ! unat next_idx, hc_len = hs_len scan ! unat next_idx\<rparr>,
                         gc_huff_scan := scan\<lparr>hs_idx := next_idx\<rparr>\<rparr>) w
                  else let (ended, g, w) = (if unat (hs_count scan) = k_h2_tp_huff_max_candidates
                         then let g = g\<lparr>gc_huff_scan := scan\<lparr>hs_resume := hs_at scan ! (k_h2_tp_huff_max_candidates - 1)\<rparr>\<rparr>
                              in (case call ServerHuffscan g w of Some w \<Rightarrow> (True, g, w)
                                  | None \<Rightarrow> (case h2_poison_unscanned g w of (g, w) \<Rightarrow> (False, g, w)))
                         else (False, g, w))
                       in if ended then w else h2_tail_call call ServerFinalize g w
      | _ \<Rightarrow> w)"

definition h2_server_commit :: "http_env \<Rightarrow> h2_call \<Rightarrow> grpc_frames_ctx \<Rightarrow> http2_grpc_request \<Rightarrow> tp_info_pid \<Rightarrow> http_world \<Rightarrow> http_world" where
  "h2_server_commit v call g h2g_info tp_p w =
     resume_frame_scan v call g (http2_grpc_start_finalize_server v (gc_stream g) h2g_info tp_p (valid_trace (tp_trace_id (tpp_tp tp_p)))
       (ca_ssl (gc_args g)) (ca_orig_dport (gc_args g)) w)"

definition obi_protocol_http2_grpc_handle_start_frame_server_finalize ::
  "http_env \<Rightarrow> h2_call \<Rightarrow> grpc_frames_ctx \<Rightarrow> http_world \<Rightarrow> http_world" where
  "obi_protocol_http2_grpc_handle_start_frame_server_finalize v call g w = (case (hw_h2_info w, h_scratch w) of
     (Some h2g_info, Some tp_p) \<Rightarrow>
       let (tp, w) = (if valid_trace (tp_trace_id (tpp_tp tp_p)) then (tpp_tp tp_p, w)
              else case find_trace_for_server_request (h_cfg v) (pc_conn (hs_pid_conn (gc_stream g))) (tpp_tp tp_p)
                     k_event_type_http_request (h_traces w) of (_, tp, st) \<Rightarrow> (tp, put_traces st w));
           tp = (if valid_trace (tp_trace_id tp) then tp
              else case h2_hpack_window h2g_info of (hpack_off, hpack_len) \<Rightarrow>
                (case find_hpack_traceparent_value (hpack_block h2g_info hpack_off) hpack_len tp of None \<Rightarrow> tp | Some (tp, _) \<Rightarrow> tp));
           tp_p = tp_p\<lparr>tpp_tp := tp\<rparr>
       in h2_server_commit v call g h2g_info tp_p (put_scratch tp_p w)
   | _ \<Rightarrow> w)"

definition obi_protocol_http2_grpc_handle_start_frame_server_commit ::
  "http_env \<Rightarrow> h2_call \<Rightarrow> grpc_frames_ctx \<Rightarrow> http_world \<Rightarrow> http_world" where
  "obi_protocol_http2_grpc_handle_start_frame_server_commit v call g w = (case (hw_h2_info w, h_scratch w) of
     (Some h2g_info, Some tp_p) \<Rightarrow> h2_server_commit v call g h2g_info tp_p w
   | _ \<Rightarrow> w)"

definition obi_protocol_http2_grpc_handle_end_frame :: "http_env \<Rightarrow> h2_call \<Rightarrow> grpc_frames_ctx \<Rightarrow> http_world \<Rightarrow> http_world" where
  "obi_protocol_http2_grpc_handle_end_frame v call g w =
     (let args = gc_args g
      in if request_type_by_direction (ca_direction args) PACKET_TYPE_RESPONSE = h2r_type (gc_prev_info g)
         then let w = http2_grpc_end v (gc_stream g) (gc_prev_info g)
                    (ca_u_buf args + unat (bpf_clamp_umax (gc_saved_buf_pos g) k_iovec_max_len)) w;
                  w = w\<lparr>hw_active_ssl := map_del (ca_pid_conn args) (hw_active_ssl w)\<rparr>
              in resume_frame_scan v call (h2_forget_stream g) w
         else resume_frame_scan v call g w)"

fun h2_program :: "http_env \<Rightarrow> h2_call \<Rightarrow> h2_prog \<Rightarrow> grpc_frames_ctx \<Rightarrow> http_world \<Rightarrow> http_world" where
  "h2_program v call GrpcFrames = obi_protocol_http2_grpc_frames v call"
| "h2_program v call StartFrame = obi_protocol_http2_grpc_handle_start_frame v call"
| "h2_program v call StartServer = obi_protocol_http2_grpc_handle_start_frame_server v call"
| "h2_program v call ServerHuffscan = obi_protocol_http2_grpc_handle_start_frame_server_huffscan v call"
| "h2_program v call ServerHuffman = obi_protocol_http2_grpc_handle_start_frame_server_huffman v call"
| "h2_program v call ServerFinalize = obi_protocol_http2_grpc_handle_start_frame_server_finalize v call"
| "h2_program v call ServerCommit = obi_protocol_http2_grpc_handle_start_frame_server_commit v call"
| "h2_program v call EndFrame = obi_protocol_http2_grpc_handle_end_frame v call"

primrec h2_run :: "nat \<Rightarrow> http_env \<Rightarrow> h2_prog \<Rightarrow> grpc_frames_ctx \<Rightarrow> http_world \<Rightarrow> http_world" where
  "h2_run 0 v prog g w = h2_program v (\<lambda>_ _ _. None) prog g w"
| "h2_run (Suc n) v prog g w = h2_program v (\<lambda>q g w. Some (h2_run n v q g w)) prog g w"

definition start_frames_ctx :: "call_protocol_args \<Rightarrow> grpc_frames_ctx" where
  "start_frames_ctx args = \<lparr>gc_prev_info = zero_http2_request, gc_has_prev_info = False, gc_iterations = 0,
     gc_terminate_search = False, gc_pos = 0, gc_saved_buf_pos = 0, gc_saved_stream_id = 0, gc_args = args,
     gc_stream = \<lparr>hs_pid_conn = ca_pid_conn args, hs_stream_id = 0\<rparr>, gc_huff = \<lparr>hc_at = 0, hc_len = 0\<rparr>,
     gc_huff_scan = zero_huff_scan\<rparr>"

definition obi_protocol_http2 :: "http_env \<Rightarrow> call_protocol_args \<Rightarrow> http_world \<Rightarrow> http_world" where
  "obi_protocol_http2 v args w =
     (if \<not> hw_grpc_mem w then w
      else let (g, w) = h2_resume_cut_frame v (start_frames_ctx args) w
           in case hv_tail_calls v of 0 \<Rightarrow> w | Suc n \<Rightarrow> h2_run n v GrpcFrames g w)"

subsection \<open>HTTP/2 programs and HTTP/1 requests\<close>

text \<open>The programs touch neither the records nor the reports of HTTP/1 requests.\<close>

lemma neutral_cong: "(\<And>pc. http_at w' pc = http_at w pc) \<Longrightarrow> http_reports (h_ring w') = http_reports (h_ring w) \<Longrightarrow> neutral a w' = neutral a w"
  by (simp add: neutral_def open_http_def)

lemma h2_neutral_simps [simp]:
  "neutral a (put_h2 s r w) = neutral a w"
  "neutral a (del_h2 s w) = neutral a w"
  "neutral a (upd_h2_conn pc f w) = neutral a w"
  "neutral a (w\<lparr>hw_h2_info := i\<rparr>) = neutral a w"
  "neutral a (w\<lparr>hw_h2_cut := c\<rparr>) = neutral a w"
  "neutral a (w\<lparr>hw_h2_joined := j\<rparr>) = neutral a w"
  "neutral a (w\<lparr>h2_cut_frames := m\<rparr>) = neutral a w"
  "neutral a (w\<lparr>hw_active_ssl := s'\<rparr>) = neutral a w"
  "neutral a (w\<lparr>hw_h2_cut := c, h2_cut_frames := m\<rparr>) = neutral a w"
  by (rule neutral_cong; simp add: put_h2_def del_h2_def upd_h2_conn_def http_at_def)+

lemma poison_neutral [simp]: "neutral a (http2_poison_hpack s fl w) = neutral a w"
  by (simp add: http2_poison_hpack_def Let_def split: option.split)

lemma put_ring_neutral: "http_reports rg = http_reports (h_ring w) \<Longrightarrow> neutral a (put_proto (p\<lparr>pm_ring := rg\<rparr>) w) = neutral a w"
  by (rule neutral_cong) simp_all

lemma reserve_http_reports [simp]: "http_reports (snd (events_ringbuf_reserve re rg)) = http_reports rg"
  by (simp add: http_reports_def events_ringbuf_reserve_def shipped_def Let_def)

lemma submit_h2_http_reports [simp]: "http_reports (bpf_ringbuf_submit (Http2Event e) fl rg) = http_reports rg"
  by (simp add: http_reports_def bpf_ringbuf_submit_def shipped_def)

lemma h2_h_ring_simps [simp]:
  "h_ring (upd_h2_conn pc f w) = h_ring w" "h_ring (put_h2 s r w) = h_ring w" "h_ring (del_h2 s w) = h_ring w"
  by (simp_all add: upd_h2_conn_def put_h2_def del_h2_def)

lemma emit_event_neutral [simp]: "neutral a (snd (http2_emit_hpack_event v g frame ty w)) = neutral a w"
  by (simp add: http2_emit_hpack_event_def Let_def case_prod_beta put_ring_neutral)

lemma finalize_neutral [simp]: "neutral a (http2_grpc_start_finalize_server v s r tp_p f ssl dp w) = neutral a w"
  by (simp add: http2_grpc_start_finalize_server_def Let_def case_prod_beta)

lemma start_client_neutral [simp]: "neutral a (http2_grpc_start_client v s r tp_p ssl dp w) = neutral a w"
  by (simp add: http2_grpc_start_client_def Let_def case_prod_beta split: option.split)

lemma end_neutral [simp]: "neutral a (http2_grpc_end v s r u w) = neutral a w"
  by (simp add: http2_grpc_end_def Let_def case_prod_beta put_ring_neutral)

lemma save_cut_neutral [simp]: "neutral a (h2_save_cut_frame v g w) = neutral a w"
  by (simp add: h2_save_cut_frame_def Let_def split: option.split)

lemma resume_cut_neutral [simp]: "neutral a (snd (h2_resume_cut_frame v g w)) = neutral a w"
  by (simp add: h2_resume_cut_frame_def Let_def case_prod_beta split: option.split)

lemma poison_unscanned_neutral [simp]: "neutral a (snd (h2_poison_unscanned g w)) = neutral a w"
  by (simp add: h2_poison_unscanned_def Let_def)

lemma emit_headers_neutral [simp]: "neutral a (snd (emit_headers v g frame ty p n w)) = neutral a w"
  by (simp add: emit_headers_def Let_def case_prod_beta)

text \<open>A tail call that keeps to that, and what a program does with such calls.\<close>

definition calm :: "http_world \<Rightarrow> h2_call \<Rightarrow> bool" where
  "calm a call \<longleftrightarrow> (\<forall>q g w w'. call q g w = Some w' \<longrightarrow> neutral a w \<longrightarrow> neutral a w')"

fun flow_world :: "flow \<Rightarrow> http_world" where
  "flow_world (Ended w) = w"
| "flow_world (Going g w) = w"

lemma tail_call_neutral: "calm a call \<Longrightarrow> neutral a w \<Longrightarrow> neutral a (h2_tail_call call q g w)"
  by (auto simp: h2_tail_call_def calm_def split: option.split)

lemma resume_neutral: "calm a call \<Longrightarrow> neutral a w \<Longrightarrow> neutral a (resume_frame_scan v call g w)"
  by (simp add: resume_frame_scan_def Let_def tail_call_neutral)

lemma headers_neutral: "calm a call \<Longrightarrow> neutral a w \<Longrightarrow> neutral a (flow_world (handle_headers_frame v call g frame w))"
  by (simp add: handle_headers_frame_def Let_def case_prod_beta tail_call_neutral)

lemma data_end_neutral: "calm a call \<Longrightarrow> neutral a w \<Longrightarrow> neutral a (flow_world (handle_data_stream_end call g frame w))"
  by (simp add: handle_data_stream_end_def Let_def tail_call_neutral split: option.split)

lemma data_frame_neutral: "calm a call \<Longrightarrow> neutral a w \<Longrightarrow> neutral a (handle_data_frame call g w)"
  by (auto simp: handle_data_frame_def calm_def split: option.split)

lemma start_neutral: "calm a call \<Longrightarrow> neutral a w \<Longrightarrow> neutral a (flow_world (http2_grpc_start v call g u n w))"
  by (auto simp: http2_grpc_start_def Let_def case_prod_beta calm_def split: option.split)

fun turn_world :: "turn \<Rightarrow> http_world" where
  "turn_world (TurnEnded w) = w"
| "turn_world (TurnBreak g w) = w"
| "turn_world (TurnNext g w) = w"

lemma note_push_neutral [simp]: "neutral a (snd (note_push_promise g frame w)) = neutral a w"
  by (simp add: note_push_promise_def Let_def)

lemma pass_neutral [simp]: "neutral a (turn_world (pass_frame g frame w)) = neutral a w"
  by (simp add: pass_frame_def Let_def)

lemma data_turn_neutral: "calm a call \<Longrightarrow> neutral a w \<Longrightarrow> neutral a (turn_world (data_turn call g frame w))"
  using data_end_neutral[of a call w g frame] by (auto simp: data_turn_def split: flow.split)

lemma turn_neutral:
  assumes c: "calm a call" and n: "neutral a w"
  shows "neutral a (turn_world (frames_turn v call g w))"
proof -
  have h: "neutral a (turn_world (case handle_headers_frame v call g frame w of Ended w \<Rightarrow> TurnEnded w | Going g w \<Rightarrow> data_turn call g frame w))"
    if "neutral a w" for g frame w
    using headers_neutral[OF c that, of v g frame] data_turn_neutral[OF c] by (auto split: flow.split)
  show ?thesis using n by (simp add: frames_turn_def Let_def case_prod_beta h data_turn_neutral[OF c])
qed

lemma loop_neutral: "calm a call \<Longrightarrow> neutral a w \<Longrightarrow> neutral a (flow_world (frames_loop n v call g w))"
proof (induction n arbitrary: g w)
  case (Suc n)
  then show ?case using turn_neutral[OF Suc.prems, of v g] by (auto split: turn.split)
qed simp

lemma frames_neutral: "calm a call \<Longrightarrow> neutral a w \<Longrightarrow> neutral a (obi_protocol_http2_grpc_frames v call g w)"
  using loop_neutral[of a call w k_max_loop_iterations v g]
  by (auto simp: obi_protocol_http2_grpc_frames_def Let_def case_prod_beta tail_call_neutral data_frame_neutral split: flow.split)

lemma program_neutral:
  assumes c: "calm a call" and n: "neutral a w"
  shows "neutral a (h2_program v call q g w)"
proof (cases q)
  case GrpcFrames
  then show ?thesis using frames_neutral[OF assms] by simp
next
  case StartFrame
  then show ?thesis using start_neutral[OF assms, of v g "buf_at (gc_args g) (gc_pos g)" "ca_bytes_len (gc_args g) - gc_pos g"]
    by (auto simp: obi_protocol_http2_grpc_handle_start_frame_def resume_neutral[OF c] split: flow.split)
next
  case StartServer
  then show ?thesis using n
    by (simp add: obi_protocol_http2_grpc_handle_start_frame_server_def Let_def case_prod_beta tail_call_neutral[OF c] split: option.split)
next
  case ServerHuffscan
  then show ?thesis using n
    by (simp add: obi_protocol_http2_grpc_handle_start_frame_server_huffscan_def Let_def case_prod_beta tail_call_neutral[OF c]
        split: option.split)
next
  case ServerHuffman
  then show ?thesis using n c[unfolded calm_def]
    by (auto simp: obi_protocol_http2_grpc_handle_start_frame_server_huffman_def Let_def case_prod_beta tail_call_neutral[OF c]
        split: option.split)
next
  case ServerFinalize
  then show ?thesis using n
    by (simp add: obi_protocol_http2_grpc_handle_start_frame_server_finalize_def h2_server_commit_def Let_def case_prod_beta
        resume_neutral[OF c] split: option.split)
next
  case ServerCommit
  then show ?thesis using n
    by (simp add: obi_protocol_http2_grpc_handle_start_frame_server_commit_def h2_server_commit_def resume_neutral[OF c] split: option.split)
next
  case EndFrame
  then show ?thesis using n
    by (simp add: obi_protocol_http2_grpc_handle_end_frame_def Let_def resume_neutral[OF c])
qed

lemma run_neutral: "neutral a w \<Longrightarrow> neutral a (h2_run n v q g w)"
proof (induction n arbitrary: q g w)
  case 0
  then show ?case using program_neutral[of a "\<lambda>_ _ _. None" w v q g] by (simp add: calm_def)
next
  case (Suc n)
  have "calm a (\<lambda>q g w. Some (h2_run n v q g w))" using Suc.IH by (simp add: calm_def)
  then show ?case using program_neutral Suc.prems by simp
qed

lemma protocol_http2_neutral: "neutral a w \<Longrightarrow> neutral a (obi_protocol_http2 v args w)"
  by (simp add: obi_protocol_http2_def case_prod_beta run_neutral split: nat.split)

subsection \<open>Reports come from records\<close>

text \<open>Requests that were reported; the events that ship header blocks are not reports.\<close>

fun h2_report :: "obi_event \<Rightarrow> http2_grpc_request list" where
  "h2_report (Http2Event r) = (if h2r_flags r = k_event_type_k_http2_request_headers \<or> h2r_flags r = k_event_type_k_http2_response_headers
     then [] else [r])"
| "h2_report (HttpEvent i) = []"
| "h2_report (LargeBufferEvent lb) = []"
| "h2_report (TcpEvent r) = []"

definition h2_reports :: "obi_event ring_buf \<Rightarrow> http2_grpc_request list" where
  "h2_reports rg = concat (map h2_report (shipped rg))"

text \<open>What a report shares with the record of its request.\<close>

definition h2_core :: "http2_grpc_request \<Rightarrow> http2_grpc_request" where
  "h2_core r = r\<lparr>h2r_end_monotime_ns := 0, h2r_ret_data := [], h2r_hpack_flags := 0\<rparr>"

lemma core_poison [simp]: "h2_core (poison_request fl r) = h2_core r" "h2r_type (poison_request fl r) = h2r_type r"
  by (simp_all add: h2_core_def poison_request_def)

lemma core_type: "h2_core r = h2_core r' \<Longrightarrow> h2r_type r = h2r_type r'"
  by (drule arg_cong[of _ _ h2r_type]) (simp add: h2_core_def)

definition recorded :: "pid_connection_info \<Rightarrow> u8 \<Rightarrow> http_world \<Rightarrow> http2_grpc_request \<Rightarrow> bool" where
  "recorded pc d w r \<longleftrightarrow> (\<exists>s r0. hs_pid_conn s = pc \<and> h2_at w s = Some r0 \<and> h2_response_direction (h2r_type r0) d \<and> h2_core r = h2_core r0)"

text \<open>From \<open>w0\<close> to \<open>w\<close>, every open request the buffer can answer was open before, and so was every reported one.\<close>

definition from_records :: "pid_connection_info \<Rightarrow> u8 \<Rightarrow> http_world \<Rightarrow> http_world \<Rightarrow> bool" where
  "from_records pc d w0 w \<longleftrightarrow>
     (\<forall>s r. h2_at w s = Some r \<longrightarrow> hs_pid_conn s = pc \<longrightarrow> h2_response_direction (h2r_type r) d \<longrightarrow> recorded pc d w0 r) \<and>
     (\<exists>rs. h2_reports (h_ring w) = h2_reports (h_ring w0) @ rs \<and> (\<forall>r \<in> set rs. recorded pc d w0 r))"

lemma from_records_cong:
  "(\<And>s. h2_at w' s = h2_at w s) \<Longrightarrow> h2_reports (h_ring w') = h2_reports (h_ring w) \<Longrightarrow> from_records pc d w0 w' = from_records pc d w0 w"
  by (simp add: from_records_def)

lemma h2_at_simps [simp]:
  "h2_at (put_traces t w) s = h2_at w s"
  "h2_at (put_scratch x w) s = h2_at w s"
  "h2_at (put_proto p w) s = h2_at w s"
  "h2_at (snd (http_now v w)) s = h2_at w s"
  "h2_at (put_h2 s' r w) s = (if s = s' then Some r else h2_at w s)"
  "h2_at (del_h2 s' w) s = (if s = s' then None else h2_at w s)"
  "h2_at (upd_h2_conn pc f w) s = h2_at w s"
  "h2_at (w\<lparr>hw_h2_info := i\<rparr>) s = h2_at w s"
  "h2_at (w\<lparr>hw_h2_cut := c\<rparr>) s = h2_at w s"
  "h2_at (w\<lparr>hw_h2_joined := j\<rparr>) s = h2_at w s"
  "h2_at (w\<lparr>h2_cut_frames := m\<rparr>) s = h2_at w s"
  "h2_at (w\<lparr>hw_active_ssl := a\<rparr>) s = h2_at w s"
  "h2_at (w\<lparr>hw_h2_cut := c, h2_cut_frames := m\<rparr>) s = h2_at w s"
  by (simp_all add: h2_at_def put_traces_def put_scratch_def put_proto_def http_now_def put_h2_def del_h2_def upd_h2_conn_def case_prod_beta)

lemma from_records_simps [simp]:
  "from_records pc d w0 (put_traces t w) = from_records pc d w0 w"
  "from_records pc d w0 (put_scratch x w) = from_records pc d w0 w"
  "from_records pc d w0 (snd (http_now v w)) = from_records pc d w0 w"
  "from_records pc d w0 (upd_h2_conn pc' f w) = from_records pc d w0 w"
  "from_records pc d w0 (w\<lparr>hw_h2_info := i\<rparr>) = from_records pc d w0 w"
  "from_records pc d w0 (w\<lparr>hw_h2_cut := c\<rparr>) = from_records pc d w0 w"
  "from_records pc d w0 (w\<lparr>hw_h2_joined := j\<rparr>) = from_records pc d w0 w"
  "from_records pc d w0 (w\<lparr>h2_cut_frames := m\<rparr>) = from_records pc d w0 w"
  "from_records pc d w0 (w\<lparr>hw_active_ssl := a\<rparr>) = from_records pc d w0 w"
  "from_records pc d w0 (w\<lparr>hw_h2_cut := c, h2_cut_frames := m\<rparr>) = from_records pc d w0 w"
  by (rule from_records_cong; simp)+

lemma from_records_put: "\<not> h2_response_direction (h2r_type r) d \<Longrightarrow> from_records pc d w0 w \<Longrightarrow> from_records pc d w0 (put_h2 s r w)"
  by (auto simp: from_records_def)

lemma from_records_del: "from_records pc d w0 w \<Longrightarrow> from_records pc d w0 (del_h2 s w)"
  by (auto simp: from_records_def)

lemma recorded_core: "h2_core r = h2_core r' \<Longrightarrow> recorded pc d w0 r = recorded pc d w0 r'"
  by (simp add: recorded_def)

lemma from_records_poison: "from_records pc d w0 w \<Longrightarrow> from_records pc d w0 (http2_poison_hpack s fl w)"
  using recorded_core[OF core_poison(1)]
  by (auto simp: http2_poison_hpack_def from_records_def Let_def split: option.split)

lemma h2_ring_parts [simp]:
  "h2_reports (snd (events_ringbuf_reserve re rg)) = h2_reports rg"
  "h2_reports (bpf_ringbuf_submit (Http2Event e) fl rg) = h2_reports rg @ h2_report (Http2Event e)"
  by (simp_all add: h2_reports_def events_ringbuf_reserve_def bpf_ringbuf_submit_def shipped_def Let_def)

lemma from_records_ring:
  "h2_reports rg = h2_reports (h_ring w) \<Longrightarrow> from_records pc d w0 (put_proto (p\<lparr>pm_ring := rg\<rparr>) w) = from_records pc d w0 w"
  by (rule from_records_cong) simp_all

lemma from_records_report:
  assumes "recorded pc d w0 r" and "h2_core e = h2_core r" and "from_records pc d w0 w"
    and "h2_reports rg = h2_reports (h_ring w) @ h2_report (Http2Event e)"
  shows "from_records pc d w0 (put_proto (p\<lparr>pm_ring := rg\<rparr>) w)"
proof -
  obtain rs where "h2_reports (h_ring w) = h2_reports (h_ring w0) @ rs" "\<forall>r \<in> set rs. recorded pc d w0 r"
    using assms(3) by (auto simp: from_records_def)
  moreover have "\<forall>r \<in> set (h2_report (Http2Event e)). recorded pc d w0 r" using assms(1) recorded_core[OF assms(2)] by simp
  ultimately show ?thesis using assms(3,4) unfolding from_records_def by auto
qed

lemma emit_event_from [simp]:
  "ty \<in> {k_event_type_k_http2_request_headers, k_event_type_k_http2_response_headers} \<Longrightarrow>
     from_records pc d w0 (snd (http2_emit_hpack_event v g frame ty w)) = from_records pc d w0 w"
  by (auto simp: http2_emit_hpack_event_def Let_def case_prod_beta from_records_ring)

definition walk_ok :: "pid_connection_info \<Rightarrow> u8 \<Rightarrow> http_world \<Rightarrow> grpc_frames_ctx \<Rightarrow> bool" where
  "walk_ok pc d w0 g \<longleftrightarrow> hs_pid_conn (gc_stream g) = pc \<and> ca_pid_conn (gc_args g) = pc \<and> ca_direction (gc_args g) = d \<and>
     (gc_has_prev_info g \<longrightarrow> h2_response_direction (h2r_type (gc_prev_info g)) d \<longrightarrow> recorded pc d w0 (gc_prev_info g))"

lemma walk_ok_simps [simp]:
  "walk_ok pc d w0 (g\<lparr>gc_iterations := i\<rparr>) = walk_ok pc d w0 g"
  "walk_ok pc d w0 (g\<lparr>gc_terminate_search := t\<rparr>) = walk_ok pc d w0 g"
  "walk_ok pc d w0 (g\<lparr>gc_pos := p\<rparr>) = walk_ok pc d w0 g"
  "walk_ok pc d w0 (g\<lparr>gc_saved_stream_id := s, gc_saved_buf_pos := p\<rparr>) = walk_ok pc d w0 g"
  "walk_ok pc d w0 (g\<lparr>gc_saved_buf_pos := p, gc_saved_stream_id := s\<rparr>) = walk_ok pc d w0 g"
  "walk_ok pc d w0 (g\<lparr>gc_huff := h\<rparr>) = walk_ok pc d w0 g"
  "walk_ok pc d w0 (g\<lparr>gc_huff_scan := hs\<rparr>) = walk_ok pc d w0 g"
  "walk_ok pc d w0 (g\<lparr>gc_huff_scan := hs, gc_huff := h\<rparr>) = walk_ok pc d w0 g"
  "walk_ok pc d w0 (g\<lparr>gc_huff := h, gc_huff_scan := hs\<rparr>) = walk_ok pc d w0 g"
  "walk_ok pc d w0 (g\<lparr>gc_stream := (gc_stream g)\<lparr>hs_stream_id := sid\<rparr>\<rparr>) = walk_ok pc d w0 g"
  "walk_ok pc d w0 (g\<lparr>gc_saved_buf_pos := p, gc_saved_stream_id := s, gc_stream := (gc_stream g)\<lparr>hs_stream_id := sid\<rparr>\<rparr>) = walk_ok pc d w0 g"
  "walk_ok pc d w0 (g\<lparr>gc_args := (gc_args g)\<lparr>ca_u_buf := u, ca_bytes_len := n\<rparr>\<rparr>) = walk_ok pc d w0 g"
  "walk_ok pc d w0 (poison_prev fl g) = walk_ok pc d w0 g"
  using recorded_core[OF core_poison(1)] by (simp_all add: walk_ok_def poison_prev_def)

lemma walk_ok_forget [simp]: "walk_ok pc d w0 g \<Longrightarrow> walk_ok pc d w0 (h2_forget_stream g)"
  by (simp add: walk_ok_def h2_forget_stream_def)

lemma walk_ok_update: "from_records pc d w0 w \<Longrightarrow> walk_ok pc d w0 g \<Longrightarrow> walk_ok pc d w0 (update_prev_info g w)"
  by (auto simp: walk_ok_def update_prev_info_def from_records_def split: option.split)

text \<open>What a program can rely on when it is called.\<close>

fun ready :: "u8 \<Rightarrow> h2_prog \<Rightarrow> grpc_frames_ctx \<Rightarrow> http_world \<Rightarrow> bool" where
  "ready d GrpcFrames g w \<longleftrightarrow> True"
| "ready d StartFrame g w \<longleftrightarrow> h2_at w (gc_stream g) = None"
| "ready d EndFrame g w \<longleftrightarrow> gc_has_prev_info g"
| "ready d _ g w \<longleftrightarrow> (\<forall>r. hw_h2_info w = Some r \<longrightarrow> \<not> h2_response_direction (h2r_type r) d)"

definition faithful :: "pid_connection_info \<Rightarrow> u8 \<Rightarrow> http_world \<Rightarrow> h2_call \<Rightarrow> bool" where
  "faithful pc d w0 call \<longleftrightarrow> (\<forall>q g w w'. call q g w = Some w' \<longrightarrow> from_records pc d w0 w \<longrightarrow> walk_ok pc d w0 g \<longrightarrow> ready d q g w \<longrightarrow>
     from_records pc d w0 w')"

lemma tail_call_from:
  "faithful pc d w0 call \<Longrightarrow> from_records pc d w0 w \<Longrightarrow> walk_ok pc d w0 g \<Longrightarrow> ready d q g w \<Longrightarrow>
     from_records pc d w0 (h2_tail_call call q g w)"
  by (auto simp: h2_tail_call_def faithful_def h2_poison_unscanned_def Let_def from_records_poison split: option.split)

lemma save_cut_from [simp]: "from_records pc d w0 (h2_save_cut_frame v g w) = from_records pc d w0 w"
  by (simp add: h2_save_cut_frame_def Let_def split: option.split)

lemma resume_from:
  "faithful pc d w0 call \<Longrightarrow> from_records pc d w0 w \<Longrightarrow> walk_ok pc d w0 g \<Longrightarrow> from_records pc d w0 (resume_frame_scan v call g w)"
  by (simp add: resume_frame_scan_def Let_def tail_call_from)

lemma emit_headers_from:
  assumes "ty \<in> {k_event_type_k_http2_request_headers, k_event_type_k_http2_response_headers}" and "from_records pc d w0 w" and "walk_ok pc d w0 g"
  shows "from_records pc d w0 (snd (emit_headers v g frame ty p n w))" "walk_ok pc d w0 (fst (emit_headers v g frame ty p n w))"
  using assms by (simp_all add: emit_headers_def Let_def case_prod_beta from_records_poison)

lemma emit_headers_kept [simp]:
  "gc_has_prev_info (fst (emit_headers v g frame ty p n w)) = gc_has_prev_info g"
  "gc_stream (fst (emit_headers v g frame ty p n w)) = gc_stream g"
  by (simp_all add: emit_headers_def Let_def case_prod_beta poison_prev_def)

lemma poison_none [simp]: "h2_at (http2_poison_hpack s fl w) s' = None \<longleftrightarrow> h2_at w s' = None"
  by (auto simp: http2_poison_hpack_def Let_def split: option.split)

lemma emit_headers_none [simp]: "h2_at (snd (emit_headers v g frame ty p n w)) s = None \<longleftrightarrow> h2_at w s = None"
  by (simp add: emit_headers_def http2_emit_hpack_event_def Let_def case_prod_beta)

text \<open>A program that goes on does so in order.\<close>

fun flow_ok :: "pid_connection_info \<Rightarrow> u8 \<Rightarrow> http_world \<Rightarrow> flow \<Rightarrow> bool" where
  "flow_ok pc d w0 (Ended w) \<longleftrightarrow> from_records pc d w0 w"
| "flow_ok pc d w0 (Going g w) \<longleftrightarrow> from_records pc d w0 w \<and> walk_ok pc d w0 g"

lemma update_has_prev: "gc_has_prev_info (update_prev_info g w) \<longleftrightarrow> h2_at w (gc_stream g) \<noteq> None"
  "gc_stream (update_prev_info g w) = gc_stream g"
  by (simp_all add: update_prev_info_def split: option.split)

lemma headers_from:
  assumes c: "faithful pc d w0 call" and f: "from_records pc d w0 w" and g: "walk_ok pc d w0 g"
  shows "flow_ok pc d w0 (handle_headers_frame v call g frame w)"
proof -
  define h where "h = update_prev_info (g\<lparr>gc_stream := (gc_stream g)\<lparr>hs_stream_id := fh_stream_id frame\<rparr>\<rparr>) w"
  have "walk_ok pc d w0 h" unfolding h_def using f g by (simp add: walk_ok_update)
  moreover have "gc_has_prev_info h \<longleftrightarrow> h2_at w (gc_stream h) \<noteq> None" by (simp add: h_def update_has_prev)
  ultimately show ?thesis
    by (simp add: handle_headers_frame_def h_def[symmetric] Let_def case_prod_beta tail_call_from[OF c] emit_headers_from f)
qed

lemma data_end_from:
  assumes c: "faithful pc d w0 call" and f: "from_records pc d w0 w" and g: "walk_ok pc d w0 g"
  shows "flow_ok pc d w0 (handle_data_stream_end call g frame w)"
proof -
  have "\<lparr>hs_pid_conn = ca_pid_conn (gc_args g), hs_stream_id = fh_stream_id frame\<rparr> = (gc_stream g)\<lparr>hs_stream_id := fh_stream_id frame\<rparr>"
    using g by (simp add: walk_ok_def)
  then show ?thesis
    by (simp add: handle_data_stream_end_def Let_def tail_call_from[OF c] f g walk_ok_update update_has_prev split: option.split)
qed

lemma data_frame_from:
  "faithful pc d w0 call \<Longrightarrow> from_records pc d w0 w \<Longrightarrow> walk_ok pc d w0 g \<Longrightarrow> from_records pc d w0 (handle_data_frame call g w)"
proof -
  assume c: "faithful pc d w0 call" and f: "from_records pc d w0 w" and g: "walk_ok pc d w0 g"
  have "walk_ok pc d w0 (g\<lparr>gc_stream := \<lparr>hs_pid_conn = ca_pid_conn (gc_args g), hs_stream_id = gc_saved_stream_id g\<rparr>\<rparr>)"
    using g by (simp add: walk_ok_def)
  then show ?thesis using c f by (auto simp: handle_data_frame_def faithful_def split: option.split)
qed

fun turn_ok :: "pid_connection_info \<Rightarrow> u8 \<Rightarrow> http_world \<Rightarrow> turn \<Rightarrow> bool" where
  "turn_ok pc d w0 (TurnEnded w) \<longleftrightarrow> from_records pc d w0 w"
| "turn_ok pc d w0 (TurnBreak g w) \<longleftrightarrow> from_records pc d w0 w \<and> walk_ok pc d w0 g"
| "turn_ok pc d w0 (TurnNext g w) \<longleftrightarrow> from_records pc d w0 w \<and> walk_ok pc d w0 g"

lemma data_turn_from:
  assumes "faithful pc d w0 call" and "from_records pc d w0 w" and "walk_ok pc d w0 g"
  shows "turn_ok pc d w0 (data_turn call g frame w)"
  using data_end_from[OF assms, of frame] assms by (auto simp: data_turn_def pass_frame_def Let_def split: flow.split)

lemma turn_from:
  assumes c: "faithful pc d w0 call" and f: "from_records pc d w0 w" and g: "walk_ok pc d w0 g"
  shows "turn_ok pc d w0 (frames_turn v call g w)"
proof -
  have h: "turn_ok pc d w0 (case handle_headers_frame v call g frame w of Ended w \<Rightarrow> TurnEnded w | Going g w \<Rightarrow> data_turn call g frame w)"
    if "from_records pc d w0 w" "walk_ok pc d w0 g" for g frame w
    using headers_from[OF c that, of v frame] data_turn_from[OF c] by (auto split: flow.split)
  have p: "from_records pc d w0 (snd (note_push_promise g frame w))" "walk_ok pc d w0 (fst (note_push_promise g frame w))"
    if "walk_ok pc d w0 g" for g frame
    using f that by (simp_all add: note_push_promise_def Let_def from_records_poison walk_ok_update)
  show ?thesis using f g by (simp add: frames_turn_def Let_def case_prod_beta h p data_turn_from[OF c])
qed

lemma loop_from:
  assumes "faithful pc d w0 call"
  shows "from_records pc d w0 w \<Longrightarrow> walk_ok pc d w0 g \<Longrightarrow> flow_ok pc d w0 (frames_loop n v call g w)"
proof (induction n arbitrary: g w)
  case (Suc n)
  then show ?case using turn_from[OF assms Suc.prems, of v] by (auto split: turn.split)
qed simp

lemma frames_from:
  assumes c: "faithful pc d w0 call" and "from_records pc d w0 w" and "walk_ok pc d w0 g"
  shows "from_records pc d w0 (obi_protocol_http2_grpc_frames v call g w)"
  using loop_from[OF assms, of k_max_loop_iterations v]
  by (auto simp: obi_protocol_http2_grpc_frames_def h2_poison_unscanned_def Let_def case_prod_beta tail_call_from[OF c]
      data_frame_from[OF c] from_records_poison split: flow.split)

lemma request_not_response: "\<not> h2_response_direction (request_type_by_direction d PACKET_TYPE_REQUEST) d"
  by (simp add: h2_response_direction_def request_type_by_direction_def PACKET_TYPE_REQUEST_def PACKET_TYPE_RESPONSE_def
      k_event_type_http_client_def k_event_type_http_request_def)

lemma start_client_from:
  "\<not> h2_response_direction (h2r_type r) d \<Longrightarrow> from_records pc d w0 w \<Longrightarrow> from_records pc d w0 (http2_grpc_start_client v s r tp_p ssl dp w)"
  by (simp add: http2_grpc_start_client_def Let_def case_prod_beta from_records_put split: option.split)

lemma finalize_from:
  "\<not> h2_response_direction (h2r_type r) d \<Longrightarrow> from_records pc d w0 w \<Longrightarrow>
     from_records pc d w0 (http2_grpc_start_finalize_server v s r tp_p f ssl dp w)"
  by (simp add: http2_grpc_start_finalize_server_def Let_def case_prod_beta from_records_put)

lemma scratch_info [simp]: "hw_h2_info (put_scratch x w) = hw_h2_info w" "hw_h2_info (put_traces t w) = hw_h2_info w"
  "hw_h2_info (snd (http_now v w)) = hw_h2_info w"
  "hw_h2_info (http2_poison_hpack s fl w) = hw_h2_info w"
  by (simp_all add: put_scratch_def put_traces_def http_now_def case_prod_beta http2_poison_hpack_def upd_h2_conn_def put_h2_def
      Let_def split: option.split)

lemma start_from:
  assumes c: "faithful pc d w0 call" and f: "from_records pc d w0 w" and g: "walk_ok pc d w0 g" and n: "h2_at w (gc_stream g) = None"
  shows "flow_ok pc d w0 (http2_grpc_start v call g u len w)"
proof -
  have t: "\<not> h2_response_direction (cm_type m) d" if "connection_meta_by_direction v' w' d PACKET_TYPE_REQUEST = Some m" for v' w' m
    using that request_not_response by (auto simp: connection_meta_by_direction_def split: if_splits)
  have i: "h2r_type (init_http2_request v s u len ssl dp m ts r w') = cm_type m" for v s ssl dp m ts r w'
    by (simp add: init_http2_request_def Let_def)
  have e: "flow_ok pc d w0 (case call StartServer g w1 of Some w \<Rightarrow> Ended w | None \<Rightarrow> Going g (http2_poison_hpack s fl w1))"
    if "from_records pc d w0 w1" "\<forall>r. hw_h2_info w1 = Some r \<longrightarrow> \<not> h2_response_direction (h2r_type r) d" for w1 s fl
    using c that g by (auto simp: faithful_def from_records_poison split: option.split)
  have d: "ca_direction (gc_args g) = d" using g by (simp add: walk_ok_def)
  show ?thesis
  proof (cases "empty_http2_info w")
    case None
    then show ?thesis using f g n by (simp add: http2_grpc_start_def)
  next
    case (Some r)
    define w1 where "w1 = w\<lparr>hw_h2_info := Some r\<rparr>"
    show ?thesis
    proof (cases "connection_meta_by_direction v w1 d PACKET_TYPE_REQUEST")
      case None
      then show ?thesis using f g n Some d by (simp add: http2_grpc_start_def w1_def)
    next
      case (Some m)
      have tc: "cm_type m = k_event_type_http_client \<Longrightarrow> \<not> h2_response_direction k_event_type_http_client d" using t[OF Some] by auto
      have "from_records pc d w0 w1" using f by (simp add: w1_def)
      then show ?thesis using g n Some d \<open>empty_http2_info w = Some r\<close>
        by (simp add: http2_grpc_start_def w1_def[symmetric] Let_def case_prod_beta from_records_put start_client_from i t[OF Some] tc e
            split: option.split)
    qed
  qed
qed

lemma end_from:
  assumes "recorded pc d w0 r" and "from_records pc d w0 w"
  shows "from_records pc d w0 (http2_grpc_end v s r u w)"
proof -
  define w1 where "w1 = snd (http_now v w)"
  define p where "p = r\<lparr>h2r_end_monotime_ns := fst (http_now v w), h2r_hpack_flags := (case h2_conn_at w1 (hs_pid_conn s) of
      None \<Rightarrow> h2r_hpack_flags r OR (h2_hpack_req_unreliable OR h2_hpack_resp_unreliable) | Some c \<Rightarrow> hpack_flags_of c)\<rparr>"
  have c: "h2_core (p\<lparr>h2r_ret_data := x\<rparr>) = h2_core r" for x by (simp add: h2_core_def p_def)
  have f: "from_records pc d w0 w1" using assms(2) by (simp add: w1_def)
  define re where "re = tv_ring (hv_tcp v)"
  define rg where "rg = (if fst (events_ringbuf_reserve re (h_ring w1))
      then bpf_ringbuf_submit (Http2Event (p\<lparr>h2r_ret_data := probe_read_z (h2_mem v w1) u k_kprobes_http2_ret_buf_size\<rparr>))
        (get_flags re (snd (events_ringbuf_reserve re (h_ring w1)))) (snd (events_ringbuf_reserve re (h_ring w1)))
      else snd (events_ringbuf_reserve re (h_ring w1)))"
  define w2 where "w2 = put_proto ((tw_proto (hw_tcp w1))\<lparr>pm_ring := rg\<rparr>) w1"
  have w2: "from_records pc d w0 w2"
  proof (cases "fst (events_ringbuf_reserve re (h_ring w1))")
    case True
    then have "h2_reports rg = h2_reports (h_ring w1) @
        h2_report (Http2Event (p\<lparr>h2r_ret_data := probe_read_z (h2_mem v w1) u k_kprobes_http2_ret_buf_size\<rparr>))"
      unfolding rg_def by (simp only: if_True h2_ring_parts)
    then show ?thesis unfolding w2_def by (rule from_records_report[OF assms(1) c f])
  next
    case False
    then show ?thesis using f by (simp add: w2_def rg_def from_records_ring)
  qed
  have e: "http2_grpc_end v s r u w =
      (let w = (if h2r_type p = k_event_type_http_client
               then put_traces (obi_ctx_restore_server (h_env v) (h_cfg v) (hw_rt w2) (Some (h2r_tp p)) (h_traces w2)) w2
               else if h2r_type p = k_event_type_http_request \<and> http_server_index_enabled v
               then put_traces (unindex_http_server_trace (pc_pid (hs_pid_conn s)) (h2r_tp p) (h_traces w2)) w2 else w2);
          w = del_h2 s w; st = h_traces w; conn = pc_conn (hs_pid_conn s);
          e_key = sort_egress_key \<lparr>ek_s_port = s_port conn, ek_d_port = d_port conn, ek_stream_id = hs_stream_id s\<rparr>
      in put_traces (st\<lparr>outgoing_trace_map := map_del e_key (outgoing_trace_map st)\<rparr>) w)"
    unfolding http2_grpc_end_def Let_def case_prod_beta w2_def rg_def p_def re_def w1_def by (rule refl)
  show ?thesis unfolding e Let_def using w2 by (simp add: from_records_del)
qed

lemma program_from:
  assumes c: "faithful pc d w0 call" and f: "from_records pc d w0 w" and g: "walk_ok pc d w0 g" and r: "ready d q g w"
  shows "from_records pc d w0 (h2_program v call q g w)"
proof (cases q)
  case GrpcFrames
  then show ?thesis using frames_from[OF c f g] by simp
next
  case StartFrame
  then have "flow_ok pc d w0 (http2_grpc_start v call g (buf_at (gc_args g) (gc_pos g)) (ca_bytes_len (gc_args g) - gc_pos g) w)"
    using start_from[OF c f g] r by simp
  then show ?thesis using StartFrame
    by (auto simp: obi_protocol_http2_grpc_handle_start_frame_def resume_from[OF c] split: flow.split)
next
  case StartServer
  then show ?thesis using f g r
    by (simp add: obi_protocol_http2_grpc_handle_start_frame_server_def Let_def case_prod_beta tail_call_from[OF c] split: option.split)
next
  case ServerHuffscan
  have "walk_ok pc d w0 (snd (h2_server_huffscan g i))" for i
    using g by (simp add: h2_server_huffscan_def Let_def case_prod_beta split: option.split)
  then show ?thesis using ServerHuffscan f r
    by (simp add: obi_protocol_http2_grpc_handle_start_frame_server_huffscan_def Let_def case_prod_beta tail_call_from[OF c]
        split: option.split)
next
  case ServerHuffman
  then show ?thesis using f g r c[unfolded faithful_def]
    by (auto simp: obi_protocol_http2_grpc_handle_start_frame_server_huffman_def Let_def case_prod_beta tail_call_from[OF c]
        h2_poison_unscanned_def from_records_poison split: option.split)
next
  case ServerFinalize
  then show ?thesis using f g r
    by (simp add: obi_protocol_http2_grpc_handle_start_frame_server_finalize_def h2_server_commit_def Let_def case_prod_beta
        resume_from[OF c] finalize_from split: option.split)
next
  case ServerCommit
  then show ?thesis using f g r
    by (simp add: obi_protocol_http2_grpc_handle_start_frame_server_commit_def h2_server_commit_def resume_from[OF c] finalize_from
        split: option.split)
next
  case EndFrame
  then have "h2_response_direction (h2r_type (gc_prev_info g)) (ca_direction (gc_args g)) \<Longrightarrow> recorded pc d w0 (gc_prev_info g)"
    using g r by (simp add: walk_ok_def)
  then show ?thesis using EndFrame f g
    by (simp add: obi_protocol_http2_grpc_handle_end_frame_def h2_response_direction_def Let_def resume_from[OF c] end_from)
qed

lemma run_from:
  "from_records pc d w0 w \<Longrightarrow> walk_ok pc d w0 g \<Longrightarrow> ready d q g w \<Longrightarrow> from_records pc d w0 (h2_run n v q g w)"
proof (induction n arbitrary: q g w)
  case 0
  then show ?case using program_from[of pc d w0 "\<lambda>_ _ _. None" w g q v] by (simp add: faithful_def)
next
  case (Suc n)
  have "faithful pc d w0 (\<lambda>q g w. Some (h2_run n v q g w))" using Suc.IH by (simp add: faithful_def)
  then show ?case using program_from Suc.prems by simp
qed

lemma resume_cut_from:
  "walk_ok pc d w0 g \<Longrightarrow> walk_ok pc d w0 (fst (h2_resume_cut_frame v g w))"
  "from_records pc d w0 (snd (h2_resume_cut_frame v g w)) = from_records pc d w0 w"
  by (simp_all add: h2_resume_cut_frame_def Let_def case_prod_beta split: option.split)

text \<open>
  C10: Whatever frames a buffer holds and however many tail calls the kernel allows, every HTTP/2
  request reported while it is handled was open on this connection before, and waits for an answer in
  the direction of the buffer; the report has its start time, trace context, process, connection,
  stream and request headers.
\<close>

theorem http2_reports_recorded:
  "\<exists>rs. h2_reports (h_ring (obi_protocol_http2 v args w)) = h2_reports (h_ring w) @ rs \<and>
     list_all (\<lambda>e. \<exists>s r. hs_pid_conn s = ca_pid_conn args \<and> ongoing_http2_grpc (hw_rt w) s = Some r \<and>
        h2_response_direction (h2r_type r) (ca_direction args) \<and> h2_core e = h2_core r) rs"
proof -
  let ?P = "from_records (ca_pid_conn args) (ca_direction args) w"
  have "?P w" by (auto simp: from_records_def recorded_def)
  moreover have "walk_ok (ca_pid_conn args) (ca_direction args) w (start_frames_ctx args)"
    by (simp add: walk_ok_def start_frames_ctx_def)
  ultimately have "?P (obi_protocol_http2 v args w)"
    by (simp add: obi_protocol_http2_def case_prod_beta resume_cut_from run_from split: nat.split)
  then show ?thesis unfolding from_records_def recorded_def h2_at_def list_all_iff by blast
qed

subsection \<open>Frames cut by the end of a read\<close>

lemma frame_of_length:
  assumes "length d = 9"
  shows "unat (fh_length (frame_of d)) = be_nat (take 3 d)" "fh_type (frame_of d) = d ! 3"
proof -
  have t: "take 3 d = [d!0, d!1, d!2]" by (subst list9[OF assms]) simp
  have "fh_length (frame_of d) = h2_frame_payload_len d"
    using frame_len_eq[OF assms] by (simp add: frame_of_def raw_frame_header_def)
  also have "\<dots> = be_word (take 3 d)" unfolding t h2_frame_payload_len_def by (simp add: be_word_def ac_simps push_bit_or)
  finally show "unat (fh_length (frame_of d)) = be_nat (take 3 d)" by (simp add: unat_be_word)
  show "fh_type (frame_of d) = d ! 3" by (simp add: frame_of_def raw_frame_header_def Let_def)
qed

text \<open>The size of the frame whose header is \<open>d\<close>.\<close>

definition frame_total :: "bytes \<Rightarrow> nat" where
  "frame_total d = be_nat (take 3 d) + 9"


lemma frame_size_word:
  assumes "length d = 9"
  shows "fh_length (frame_of d) + k_frame_header_len = of_nat (frame_total d)"
proof -
  have "fh_length (frame_of d) = of_nat (unat (fh_length (frame_of d)))" by simp
  then show ?thesis unfolding frame_of_length(1)[OF assms] by (simp add: frame_total_def k_frame_header_len_def)
qed

lemma small_sint: "n < 2 ^ 31 \<Longrightarrow> sint (of_nat n :: u32) = int n"
  by (simp add: sint_small unat_of_nat)



lemma unat_small [simp]: "n < 2 ^ 32 \<Longrightarrow> unat (of_nat n :: u32) = n"
  by (simp add: unat_of_nat)

















definition sample_h2_env :: "bytes \<Rightarrow> http_env" where
  "sample_h2_env b = sample_http_env\<lparr>hv_tcp := sample_tcp_env\<lparr>tv_mem := (\<lambda>_. mem_of 0 b)\<rparr>, hv_joined_at := 100000\<rparr>"




subsection \<open>The end of a stream is reported\<close>

text \<open>A buffer with the walk at offset \<open>p\<close>.\<close>

definition walking :: "http_env \<Rightarrow> grpc_frames_ctx \<Rightarrow> bytes \<Rightarrow> nat \<Rightarrow> http_world \<Rightarrow> bool" where
  "walking v g buf p w \<longleftrightarrow> unat (ca_bytes_len (gc_args g)) = length buf \<and> length buf < 2 ^ 31 \<and>
     probe_read (h2_mem v w) (ca_u_buf (gc_args g)) (length buf) = Some buf \<and> unat (gc_pos g) = p \<and> \<not> gc_terminate_search g"

text \<open>A whole frame, a frame the walk only steps over, and a frame that ends a stream.\<close>

definition whole_frame :: "bytes \<Rightarrow> bool" where
  "whole_frame d \<longleftrightarrow> length d = frame_total (take 9 d)"

definition idle_frame :: "bytes \<Rightarrow> bool" where
  "idle_frame d \<longleftrightarrow> whole_frame d \<and> (let f = frame_of (take 9 d) in \<not> is_headers_frame f \<and> fh_type f \<noteq> FramePushPromise \<and>
     \<not> is_invalid_frame f \<and> \<not> http_grpc_data_stream_ended f)"

definition ends_stream :: "u32 \<Rightarrow> bytes \<Rightarrow> bool" where
  "ends_stream s d \<longleftrightarrow> whole_frame d \<and> (let f = frame_of (take 9 d) in s \<noteq> 0 \<and> fh_stream_id f = s \<and>
     fh_type f \<in> {0, 1} \<and> fh_flags f AND 1 = 1)"

lemma whole_frame_length: "whole_frame d \<Longrightarrow> 9 \<le> length d"
  unfolding whole_frame_def frame_total_def by linarith

lemma sint_unat: "unat (a :: u32) < 2 ^ 31 \<Longrightarrow> sint a = int (unat a)"
  using small_sint[of "unat a"] by (simp only: of_nat_unat ucast_id)

lemma unat_sub_le: "unat (b :: u32) \<le> unat a \<Longrightarrow> unat (a - b) = unat a - unat b"
  by (rule unat_sub) (simp only: word_le_nat_alt)

lemma unat_add_small: "unat (a :: u32) + unat b < 2 ^ 32 \<Longrightarrow> unat (a + b) = unat a + unat b"
  by (simp add: unat_word_ariths)

text \<open>What the walk sees of a frame at its offset.\<close>

lemma walking_frame:
  assumes k: "walking v g buf p w" and b: "drop p buf = d @ post" and d: "whole_frame d"
  shows "next_frame v g w = frame_of (take 9 d)" "unat (fh_length (next_frame v g w) + k_frame_header_len) = length d"
    "unat (ca_bytes_len (gc_args g) - gc_pos g) = length d + length post" "p + (length d + length post) = length buf"
    "sint (gc_pos g) < sint (ca_bytes_len (gc_args g))"
proof -
  have len: "unat (ca_bytes_len (gc_args g)) = length buf" "length buf < 2 ^ 31" "unat (gc_pos g) = p"
    and rd: "probe_read (h2_mem v w) (ca_u_buf (gc_args g)) (length buf) = Some buf"
    using k unfolding walking_def by blast+
  have l: "9 \<le> length d" by (rule whole_frame_length[OF d])
  have "length buf - p = length d + length post" using arg_cong[OF b, of length] by simp
  then show n: "p + (length d + length post) = length buf" using l by simp
  have "probe_read (h2_mem v w) (ca_u_buf (gc_args g) + p) 9 = Some (take 9 (drop p buf))"
    using probe_read_sub[OF rd, of p 9] n l by simp
  then have "probe_read_z (h2_mem v w) (ca_u_buf (gc_args g) + p) 9 = take 9 d"
    using l unfolding b probe_read_z_def by simp
  moreover have "buf_at (gc_args g) (gc_pos g) = ca_u_buf (gc_args g) + p"
    using sint_unat[of "gc_pos g"] len n by (simp add: buf_at_def nat_add_distrib)
  ultimately show f: "next_frame v g w = frame_of (take 9 d)"
    by (simp add: next_frame_def k_h2_frame_header_len_def)
  have t: "length (take 9 d) = 9" using l by simp
  have "fh_length (frame_of (take 9 d)) + k_frame_header_len = of_nat (length d)"
    using frame_size_word[OF t] d by (simp only: whole_frame_def)
  moreover have "length d < 2 ^ 32" using n len by simp
  ultimately show "unat (fh_length (next_frame v g w) + k_frame_header_len) = length d"
    unfolding f by (simp only: unat_small)
  have "unat (gc_pos g) \<le> unat (ca_bytes_len (gc_args g))" using len n by simp
  from unat_sub_le[OF this] show "unat (ca_bytes_len (gc_args g) - gc_pos g) = length d + length post" using len n by simp
  show "sint (gc_pos g) < sint (ca_bytes_len (gc_args g))" using len n l by (simp add: sint_unat)
qed

lemma frame_not_kept:
  assumes "walking v g buf p w" "drop p buf = d @ post" "whole_frame d"
  shows "\<not> h2_keeps_cut_frame g (next_frame v g w)"
  using walking_frame(2,3)[OF assms] whole_frame_length[OF assms(3)]
  by (simp add: h2_keeps_cut_frame_def Let_def word_less_nat_alt k_frame_header_len_def)

lemma walking_turns [simp]:
  "walking v (g\<lparr>gc_iterations := i\<rparr>) buf p w = walking v g buf p w"
  "next_frame v (g\<lparr>gc_iterations := i\<rparr>) w = next_frame v g w"
  "h2_keeps_cut_frame (g\<lparr>gc_iterations := i\<rparr>) f = h2_keeps_cut_frame g f"
  by (simp_all add: walking_def next_frame_def h2_keeps_cut_frame_def h2_tracks_cut_frames_def)

text \<open>A turn on a frame of no interest only moves the walk.\<close>

lemma turn_idle:
  assumes k: "walking v g buf p w" and b: "drop p buf = d @ post" and d: "idle_frame d" and p: "post \<noteq> []"
  obtains g' where "frames_turn v call g w = TurnNext g' w" "walking v g' buf (p + length d) w"
    "gc_iterations g' = gc_iterations g + 1" "gc_args g' = gc_args g" "gc_stream g' = gc_stream g"
proof -
  have wf: "whole_frame d" and q: "\<not> is_headers_frame (frame_of (take 9 d))" "fh_type (frame_of (take 9 d)) \<noteq> FramePushPromise"
     "\<not> is_invalid_frame (frame_of (take 9 d))" "\<not> http_grpc_data_stream_ended (frame_of (take 9 d))"
    using d unfolding idle_frame_def Let_def by blast+
  note F = walking_frame[OF k b wf] and N = frame_not_kept[OF k b wf]
  define h fs where "h = g\<lparr>gc_iterations := gc_iterations g + 1\<rparr>" and "fs = fh_length (next_frame v g w) + k_frame_header_len"
  have "\<not> fs \<ge> ca_bytes_len (gc_args g) - gc_pos g" using F(2,3) p by (simp add: fs_def word_le_nat_alt)
  then have pass: "pass_frame h (next_frame v g w) w = TurnNext (h\<lparr>gc_pos := gc_pos g + fs\<rparr>) w"
    unfolding pass_frame_def Let_def fs_def[symmetric] by (simp add: h_def)
  have t: "frames_turn v call g w = pass_frame h (next_frame v g w) w"
    using F(5) N[unfolded F(1)] q by (simp add: frames_turn_def Let_def h_def F(1) note_push_promise_def data_turn_def)
  have "unat (gc_pos g) + unat fs < 2 ^ 32" using F(2,4) k unfolding fs_def walking_def by simp
  from unat_add_small[OF this] have "walking v (h\<lparr>gc_pos := gc_pos g + fs\<rparr>) buf (p + length d) w"
    using k F(2) unfolding walking_def fs_def by (simp add: h_def)
  then show thesis using that[of "h\<lparr>gc_pos := gc_pos g + fs\<rparr>"] t pass by (simp add: h_def)
qed

text \<open>What the walk has at hand when it hands over the end of a stream.\<close>

definition end_at_hand :: "call_protocol_args \<Rightarrow> http2_conn_stream \<Rightarrow> http2_grpc_request \<Rightarrow> grpc_frames_ctx \<Rightarrow> bool" where
  "end_at_hand args s r g \<longleftrightarrow> gc_args g = args \<and> gc_stream g = s \<and> gc_has_prev_info g \<and> h2_core (gc_prev_info g) = h2_core r"

lemma emit_headers_reports:
  assumes "ty \<in> {k_event_type_k_http2_request_headers, k_event_type_k_http2_response_headers}"
  shows "h2_reports (h_ring (snd (emit_headers v g frame ty fl n w))) = h2_reports (h_ring w)"
proof -
  have p: "h2_reports (h_ring (http2_poison_hpack s fl w)) = h2_reports (h_ring w)" for s fl w
    by (simp add: http2_poison_hpack_def Let_def split: option.split)
  have "h2_reports (h_ring (snd (http2_emit_hpack_event v g frame ty w))) = h2_reports (h_ring w)"
    using assms by (auto simp: http2_emit_hpack_event_def Let_def case_prod_beta)
  then show ?thesis by (simp add: emit_headers_def Let_def case_prod_beta p)
qed

lemma emit_headers_prev:
  "gc_args (fst (emit_headers v g frame ty fl n w)) = gc_args g"
  "h2_core (gc_prev_info (fst (emit_headers v g frame ty fl n w))) = h2_core (gc_prev_info g)"
  by (simp_all add: emit_headers_def Let_def case_prod_beta poison_prev_def)

lemma turn_end:
  assumes k: "walking v g buf p w" and b: "drop p buf = d @ post" and d: "ends_stream (hs_stream_id s) d"
    and s: "hs_pid_conn s = ca_pid_conn (gc_args g)" "hs_pid_conn (gc_stream g) = ca_pid_conn (gc_args g)"
    and r: "h2_at w s = Some r" "h2_response_direction (h2r_type r) (ca_direction (gc_args g))"
  obtains g' w' where "frames_turn v call g w = TurnEnded (h2_tail_call call EndFrame g' w')" "end_at_hand (gc_args g) s r g'"
    "h2_reports (h_ring w') = h2_reports (h_ring w)"
proof -
  define f where "f = frame_of (take 9 d)"
  have wf: "whole_frame d" and q: "hs_stream_id s \<noteq> 0" "fh_stream_id f = hs_stream_id s" "fh_type f \<in> {0, 1}" "fh_flags f AND 1 = 1"
    using d unfolding ends_stream_def Let_def f_def by blast+
  note F = walking_frame[OF k b wf] and N = frame_not_kept[OF k b wf]
  define h where "h = g\<lparr>gc_iterations := gc_iterations g + 1\<rparr>"
  have t: "frames_turn v call g w = (if is_headers_frame f
      then (case handle_headers_frame v call h f w of Ended w \<Rightarrow> TurnEnded w | Going g w \<Rightarrow> data_turn call g f w)
      else data_turn call h f w)"
    using F(5) N[unfolded F(1)] q(3)
    by (auto simp: frames_turn_def Let_def h_def F(1) f_def[symmetric] note_push_promise_def FramePushPromise_def)
  have st: "(gc_stream h)\<lparr>hs_stream_id := fh_stream_id f\<rparr> = s" using s q(2) by (simp add: h_def)
  show thesis
  proof (cases "fh_type f = 1")
    case True
    define g1 where "g1 = (update_prev_info (h\<lparr>gc_stream := s\<rparr>) w)\<lparr>gc_saved_stream_id := fh_stream_id f, gc_saved_buf_pos := gc_pos g\<rparr>"
    define x where "x = emit_headers v g1 f k_event_type_k_http2_response_headers h2_hpack_resp_unreliable k_kprobes_http2_ret_buf_size w"
    have g1: "end_at_hand (gc_args g) s r g1" using r(1) by (simp add: g1_def end_at_hand_def update_prev_info_def h_def)
    have e: "handle_headers_frame v call h f w = Ended (h2_tail_call call EndFrame (fst x) (snd x))"
      using True q r unfolding handle_headers_frame_def Let_def st
      by (simp add: update_prev_info_def http_grpc_stream_ended_def is_headers_frame_def x_def g1_def h_def case_prod_beta)
    have "is_headers_frame f" using True q by (simp add: is_headers_frame_def)
    then have "frames_turn v call g w = TurnEnded (h2_tail_call call EndFrame (fst x) (snd x))" by (simp add: t e)
    moreover have "end_at_hand (gc_args g) s r (fst x)" using g1 by (simp add: end_at_hand_def x_def emit_headers_prev)
    moreover have "h2_reports (h_ring (snd x)) = h2_reports (h_ring w)" unfolding x_def by (rule emit_headers_reports) simp
    ultimately show thesis by (rule that)
  next
    case False
    then have dt: "\<not> is_headers_frame f" "\<not> is_invalid_frame f" "http_grpc_data_stream_ended f"
      using q by (simp_all add: is_headers_frame_def is_invalid_frame_def http_grpc_data_stream_ended_def)
    have sk: "\<lparr>hs_pid_conn = ca_pid_conn (gc_args h), hs_stream_id = fh_stream_id f\<rparr> = s" using s q(2) by (simp add: h_def)
    define g1 where "g1 = (if gc_saved_stream_id h \<noteq> fh_stream_id f then h\<lparr>gc_saved_buf_pos := gc_pos h, gc_saved_stream_id := fh_stream_id f\<rparr> else h)"
    have st1: "(gc_stream g1)\<lparr>hs_stream_id := fh_stream_id f\<rparr> = s" using st by (simp add: g1_def)
    define g2 where "g2 = update_prev_info (g1\<lparr>gc_stream := s\<rparr>) w"
    have "handle_data_stream_end call h f w = Ended (h2_tail_call call EndFrame g2 w)"
      using r unfolding handle_data_stream_end_def sk Let_def g1_def[symmetric] st1 g2_def by (simp add: h_def)
    then have "frames_turn v call g w = TurnEnded (h2_tail_call call EndFrame g2 w)" using dt by (simp add: t data_turn_def)
    moreover have "end_at_hand (gc_args g) s r g2"
      using r(1) by (simp add: g2_def g1_def end_at_hand_def update_prev_info_def h_def)
    ultimately show thesis by (rule that) simp
  qed
qed

lemma core_flags: "h2_core r = h2_core r' \<Longrightarrow> h2r_flags r = h2r_flags r'"
  by (drule arg_cong[of _ _ h2r_flags]) (simp add: h2_core_def)

lemma grpc_end_reports:
  assumes "h2_core p = h2_core r" and ok: "\<And>n. rb_ok (tv_ring (hv_tcp v)) n"
    and "h2r_flags r \<notin> {k_event_type_k_http2_request_headers, k_event_type_k_http2_response_headers}"
  shows "\<exists>e. h2_reports (h_ring (http2_grpc_end v s p u w)) = h2_reports (h_ring w) @ [e] \<and> h2_core e = h2_core r"
proof -
  have fl: "h2r_flags p = h2r_flags r" by (rule core_flags[OF assms(1)])
  have rs: "fst (events_ringbuf_reserve (tv_ring (hv_tcp v)) rg)" for rg :: "obi_event ring_buf"
    using ok by (simp add: events_ringbuf_reserve_def Let_def)
  have c: "h2_core (p\<lparr>h2r_end_monotime_ns := t, h2r_hpack_flags := x, h2r_ret_data := d\<rparr>) = h2_core r" for t x d
    using assms(1) by (simp add: h2_core_def)
  show ?thesis
    using assms(3) fl rs c by (auto simp: http2_grpc_end_def Let_def case_prod_beta)
qed

lemma run_faithful: "faithful pc d w0 (\<lambda>q g w. Some (h2_run n v q g w))"
  using run_from by (simp add: faithful_def)

text \<open>The program of the end reports the request, whatever follows in the buffer.\<close>

lemma end_frame_reports:
  assumes g: "end_at_hand args s r g" and c: "hs_pid_conn s = ca_pid_conn args"
    and d: "h2_response_direction (h2r_type r) (ca_direction args)"
    and ok: "\<And>n. rb_ok (tv_ring (hv_tcp v)) n"
    and fl: "h2r_flags r \<notin> {k_event_type_k_http2_request_headers, k_event_type_k_http2_response_headers}"
  shows "\<exists>e rs. h2_reports (h_ring (h2_run n v EndFrame g w)) = h2_reports (h_ring w) @ e # rs \<and> h2_core e = h2_core r"
proof -
  have g': "gc_args g = args" "gc_stream g = s" "h2_core (gc_prev_info g) = h2_core r" using g by (simp_all add: end_at_hand_def)
  define call where "call = (case n of 0 \<Rightarrow> (\<lambda>_ _ _. None) | Suc m \<Rightarrow> (\<lambda>q g w. Some (h2_run m v q g w)))"
  define u where "u = ca_u_buf args + unat (bpf_clamp_umax (gc_saved_buf_pos g) k_iovec_max_len)"
  define w1 where "w1 = (http2_grpc_end v s (gc_prev_info g) u w)\<lparr>hw_active_ssl :=
    map_del (ca_pid_conn args) (hw_active_ssl (http2_grpc_end v s (gc_prev_info g) u w))\<rparr>"
  obtain e where e: "h2_reports (h_ring w1) = h2_reports (h_ring w) @ [e]" "h2_core e = h2_core r"
    using grpc_end_reports[OF g'(3) ok fl, of s u w] by (auto simp: w1_def)
  have ty: "request_type_by_direction (ca_direction args) PACKET_TYPE_RESPONSE = h2r_type (gc_prev_info g)"
    using d core_type[OF g'(3)] by (simp add: h2_response_direction_def)
  have "h2_run n v EndFrame g w = obi_protocol_http2_grpc_handle_end_frame v call g w"
    by (cases n) (simp_all add: call_def)
  then have x: "h2_run n v EndFrame g w = resume_frame_scan v call (h2_forget_stream g) w1"
    unfolding obi_protocol_http2_grpc_handle_end_frame_def Let_def g' using ty by (simp add: w1_def u_def)
  have "faithful (ca_pid_conn args) (ca_direction args) w1 call"
    unfolding call_def by (cases n) (simp_all add: run_faithful, simp add: faithful_def)
  moreover have "from_records (ca_pid_conn args) (ca_direction args) w1 w1" by (auto simp: from_records_def recorded_def)
  moreover have "walk_ok (ca_pid_conn args) (ca_direction args) w1 (h2_forget_stream g)"
    using g' c by (simp add: walk_ok_def h2_forget_stream_def)
  ultimately have "from_records (ca_pid_conn args) (ca_direction args) w1 (h2_run n v EndFrame g w)"
    unfolding x by (rule resume_from)
  then obtain rs where "h2_reports (h_ring (h2_run n v EndFrame g w)) = h2_reports (h_ring w1) @ rs" by (auto simp: from_records_def)
  then show ?thesis using e by (intro exI[of _ e] exI[of _ rs]) simp
qed

text \<open>The frames program after \<open>n\<close> more turns of its loop.\<close>

definition after_turns :: "nat \<Rightarrow> http_env \<Rightarrow> h2_call \<Rightarrow> grpc_frames_ctx \<Rightarrow> http_world \<Rightarrow> http_world" where
  "after_turns n v call g w = (case frames_loop n v call g w of
     Ended w \<Rightarrow> w
   | Going g w \<Rightarrow>
       if \<not> gc_terminate_search g \<and> gc_iterations g < k_iterations then h2_tail_call call GrpcFrames g w
       else let (g, w) = (if \<not> gc_terminate_search g \<and> sint (gc_pos g) < sint (ca_bytes_len (gc_args g))
                  then h2_poison_unscanned g w else (g, w))
            in handle_data_frame call g (h2_save_cut_frame v g w))"

lemma frames_after_turns: "h2_run (Suc n) v GrpcFrames g w = after_turns 4 v (\<lambda>q g w. Some (h2_run n v q g w)) g w"
  by (simp add: obi_protocol_http2_grpc_frames_def after_turns_def k_max_loop_iterations_def)

text \<open>
  The walk comes to the frame after the idle ones: \<open>n\<close> turns are left in this run of the program and
  \<open>m\<close> more tail calls, each good for four turns, before the one that handles the end.
\<close>

lemma walk_reports:
  assumes "walking v g buf p w" "drop p buf = concat pre @ d @ post" "list_all idle_frame pre" "ends_stream (hs_stream_id s) d"
    and "gc_args g = args" "hs_pid_conn s = ca_pid_conn args" "hs_pid_conn (gc_stream g) = ca_pid_conn args"
    and "h2_at w s = Some r" "h2_response_direction (h2r_type r) (ca_direction args)"
    and "\<And>n. rb_ok (tv_ring (hv_tcp v)) n"
    and "h2r_flags r \<notin> {k_event_type_k_http2_request_headers, k_event_type_k_http2_response_headers}"
    and "unat (gc_iterations g) + length pre < 24" "length pre < n + 4 * m"
  shows "\<exists>e rs. h2_reports (h_ring (after_turns n v (\<lambda>q g w. Some (h2_run m v q g w)) g w)) = h2_reports (h_ring w) @ e # rs \<and>
    h2_core e = h2_core r"
  using assms
proof (induction "n + 5 * m" arbitrary: n m g p pre rule: less_induct)
  case less
  let ?call = "\<lambda>m q g w. Some (h2_run m v q g w)"
  show ?case
  proof (cases n)
    case 0
    then obtain k where m: "m = Suc k" using less.prems(13) by (cases m) simp_all
    have "gc_iterations g < k_iterations" using less.prems(12) by (simp add: word_less_nat_alt k_iterations_def)
    moreover have "\<not> gc_terminate_search g" using less.prems(1) by (simp add: walking_def)
    ultimately have "after_turns n v (?call m) g w = h2_run m v GrpcFrames g w"
      by (simp add: after_turns_def 0 h2_tail_call_def)
    then have "after_turns n v (?call m) g w = after_turns 4 v (?call k) g w" unfolding m frames_after_turns .
    moreover have "length pre < 4 + 4 * k" "4 + 5 * k < n + 5 * m" using less.prems(13) 0 m by simp_all
    ultimately show ?thesis using less.hyps[OF _ less.prems(1-12)] by simp
  next
    case (Suc n')
    show ?thesis
    proof (cases pre)
      case Nil
      then have b: "drop p buf = d @ post" using less.prems(2) by simp
      have c: "hs_pid_conn s = ca_pid_conn (gc_args g)" "hs_pid_conn (gc_stream g) = ca_pid_conn (gc_args g)"
        "h2_response_direction (h2r_type r) (ca_direction (gc_args g))" using less.prems(5-7,9) by simp_all
      obtain g' w' where t: "frames_turn v (?call m) g w = TurnEnded (h2_tail_call (?call m) EndFrame g' w')"
        "end_at_hand (gc_args g) s r g'" "h2_reports (h_ring w') = h2_reports (h_ring w)"
        using turn_end[OF less.prems(1) b less.prems(4) c(1,2) less.prems(8) c(3), of "?call m"] .
      then show ?thesis
        using end_frame_reports[of args s r g' v m w'] less.prems(5,6,9-11)
        by (simp add: after_turns_def Suc h2_tail_call_def)
    next
      case (Cons f fs)
      then have b: "drop p buf = f @ concat fs @ d @ post" and i: "idle_frame f" "list_all idle_frame fs"
        using less.prems(2,3) by simp_all
      have "d \<noteq> []" using less.prems(4) whole_frame_length[of d] by (auto simp: ends_stream_def)
      then have ne: "concat fs @ d @ post \<noteq> []" by simp
      obtain g' where t: "frames_turn v (?call m) g w = TurnNext g' w" "walking v g' buf (p + length f) w"
        "gc_iterations g' = gc_iterations g + 1" "gc_args g' = gc_args g" "gc_stream g' = gc_stream g"
        using turn_idle[OF less.prems(1) b i(1) ne, of "?call m"] .
      have a: "after_turns n v (?call m) g w = after_turns n' v (?call m) g' w" by (simp add: after_turns_def Suc t(1))
      have "drop (p + length f) buf = drop (length f) (drop p buf)" by (simp add: add.commute)
      then have b': "drop (p + length f) buf = concat fs @ d @ post" by (simp only: b) simp
      have "unat (gc_iterations g) < 24" using less.prems(12) by simp
      then have "unat (gc_iterations g') = unat (gc_iterations g) + 1" by (simp add: t(3) unat_word_ariths)
      then have it: "unat (gc_iterations g') + length fs < 24" using less.prems(12) Cons by simp
      show ?thesis unfolding a
        using less.hyps[OF _ t(2) b' i(2) less.prems(4) _ less.prems(6) _ less.prems(8-11) it, of n' m] less.prems(5,7,13) t(4,5) Suc Cons
        by simp
    qed
  qed
qed

text \<open>
  C9: The end of a stream is reported. A buffer of whole frames starts with fewer than twenty-four frames
  that are of no interest to the tracer, then comes the HEADERS or DATA frame that ends a stream, then
  anything. If the stream's request is open and waits for an answer in the direction of the buffer, no
  cut frame is pending, the scratch memory is there, the ring buffer has room and seven tail calls are
  left, the first request
  reported for the buffer is that one, with its start time, trace context, process, connection,
  stream and request headers.
\<close>

theorem http2_end_reported:
  assumes "probe_read (h2_mem v w) (ca_u_buf args) (length buf) = Some buf" "unat (ca_bytes_len args) = length buf" "length buf < 2 ^ 31"
    and "buf = concat pre @ d @ post" "list_all idle_frame pre" "length pre < 24" "ends_stream (hs_stream_id s) d"
    and "hs_pid_conn s = ca_pid_conn args" "ongoing_http2_grpc (hw_rt w) s = Some r"
    and "h2_response_direction (h2r_type r) (ca_direction args)" "h2r_flags r = k_event_type_k_http2_request"
    and "h2_cut_frames w (ca_pid_conn args) = None" "hw_grpc_mem w" "7 \<le> hv_tail_calls v" "\<And>n. rb_ok (tv_ring (hv_tcp v)) n"
  shows "\<exists>e rs. h2_reports (h_ring (obi_protocol_http2 v args w)) = h2_reports (h_ring w) @ e # rs \<and> h2_core e = h2_core r"
proof -
  define g where "g = start_frames_ctx args"
  have g: "gc_args g = args" "hs_pid_conn (gc_stream g) = ca_pid_conn args" "unat (gc_iterations g) = 0"
    by (simp_all add: g_def start_frames_ctx_def)
  have k: "walking v g buf 0 w" using assms(1-3) by (simp add: walking_def g_def start_frames_ctx_def)
  have c: "h2_resume_cut_frame v g w = (g, w)" using assms(12) g(1) by (simp add: h2_resume_cut_frame_def)
  define m where "m = hv_tail_calls v - 2"
  have m: "hv_tail_calls v = Suc (Suc m)" "5 \<le> m" using assms(14) by (simp_all add: m_def)
  have "obi_protocol_http2 v args w = h2_run (Suc m) v GrpcFrames g w"
    using assms(13) by (simp add: obi_protocol_http2_def g_def[symmetric] c m(1))
  then have e: "obi_protocol_http2 v args w = after_turns 4 v (\<lambda>q g w. Some (h2_run m v q g w)) g w"
    unfolding frames_after_turns .
  have fl: "h2r_flags r \<notin> {k_event_type_k_http2_request_headers, k_event_type_k_http2_response_headers}"
    unfolding assms(11) by (simp add: k_event_type_k_http2_request_def k_event_type_k_http2_request_headers_def
        k_event_type_k_http2_response_headers_def)
  have b: "drop 0 buf = concat pre @ d @ post" using assms(4) by simp
  have at: "h2_at w s = Some r" using assms(9) by (simp add: h2_at_def)
  have n: "length pre < 4 + 4 * m" "unat (gc_iterations g) + length pre < 24" using m(2) assms(6) g(3) by simp_all
  show ?thesis unfolding e
    by (rule walk_reports[OF k b assms(5,7) g(1) assms(8) g(2) at assms(10,15) fl n(2,1)])
qed

text \<open>A window update and the last data frame of a call on stream 1.\<close>

definition sample_end_frames :: bytes where
  "sample_end_frames = [0, 0, 4, 8, 0, 0, 0, 0, 0, 0, 0, 1, 0] @ [0, 0, 0, 0, 1, 0, 0, 0, 1]"

definition sample_h2_call :: http2_grpc_request where
  "sample_h2_call = zero_http2_request\<lparr>h2r_flags := k_event_type_k_http2_request, h2r_type := k_event_type_http_client,
     h2r_start_monotime_ns := 900\<rparr>"

lemma frame_of_fields:
  assumes "length d = 9"
  shows "fh_type (frame_of d) = d ! 3" "fh_flags (frame_of d) = d ! 4" "fh_stream_id (frame_of d) = h2_frame_stream_id d AND NOT (push_bit 24 1)"
proof -
  show "fh_type (frame_of d) = d ! 3" "fh_flags (frame_of d) = d ! 4" by (simp_all add: frame_of_def raw_frame_header_def Let_def)
  show "fh_stream_id (frame_of d) = h2_frame_stream_id d AND NOT (push_bit 24 1)"
    using stream_id_eq[OF assms] by (simp add: frame_of_def raw_frame_header_def)
qed

theorem http2_end_reported_witness:
  "\<exists>e rs. h2_reports (h_ring (obi_protocol_http2 (sample_h2_env sample_end_frames) ((sample_http_args [])\<lparr>ca_bytes_len := 22\<rparr>)
      (put_h2 \<lparr>hs_pid_conn = sample_pc, hs_stream_id = 1\<rparr> sample_h2_call empty_http_world))) = e # rs \<and>
    h2r_start_monotime_ns e = 900"
proof -
  let ?s = "\<lparr>hs_pid_conn = sample_pc, hs_stream_id = 1\<rparr>" and ?args = "(sample_http_args [])\<lparr>ca_bytes_len := 22\<rparr>"
  let ?w = "put_h2 ?s sample_h2_call empty_http_world" and ?v = "sample_h2_env sample_end_frames"
  let ?a = "[0, 0, 4, 8, 0, 0, 0, 0, 0, 0, 0, 1, 0] :: bytes" and ?d = "[0, 0, 0, 0, 1, 0, 0, 0, 1] :: bytes"
  have L: "length sample_end_frames = 22" by (simp add: sample_end_frames_def)
  have rd: "probe_read (h2_mem ?v ?w) (ca_u_buf ?args) (length sample_end_frames) = Some sample_end_frames"
    using probe_read_mem_of[of 0 22 sample_end_frames 0] L
    by (simp add: h2_mem_def sample_h2_env_def sample_http_args_def put_h2_def empty_http_world_def)
  have fa: "frame_of (take 9 ?a) = frame_of [0, 0, 4, 8, 0, 0, 0, 0, 0]" "frame_of (take 9 ?d) = frame_of ?d" by simp_all
  have i: "list_all idle_frame [?a]"
    using frame_of_fields[of "[0, 0, 4, 8, 0, 0, 0, 0, 0]"]
    by (simp add: idle_frame_def whole_frame_def frame_total_def be_nat_def fa is_headers_frame_def FramePushPromise_def
        is_invalid_frame_def http_grpc_data_stream_ended_def)
  have d: "ends_stream (hs_stream_id ?s) ?d"
    using frame_of_fields[of ?d]
    by (simp add: ends_stream_def whole_frame_def frame_total_def be_nat_def fa h2_frame_stream_id_def)
  have r: "ongoing_http2_grpc (hw_rt ?w) ?s = Some sample_h2_call" by (simp add: put_h2_def)
  have dir: "h2_response_direction (h2r_type sample_h2_call) (ca_direction ?args)"
    by (simp add: h2_response_direction_def sample_h2_call_def sample_http_args_def request_type_by_direction_def
        PACKET_TYPE_RESPONSE_def PACKET_TYPE_REQUEST_def TCP_RECV_def)
  have b: "sample_end_frames = concat [?a] @ ?d @ []" by (simp add: sample_end_frames_def)
  have o: "unat (ca_bytes_len ?args) = length sample_end_frames" "length sample_end_frames < 2 ^ 31" "length [?a] < 24"
    "hs_pid_conn ?s = ca_pid_conn ?args" "h2r_flags sample_h2_call = k_event_type_k_http2_request"
    "h2_cut_frames ?w (ca_pid_conn ?args) = None" "hw_grpc_mem ?w" "7 \<le> hv_tail_calls ?v" "rb_ok (tv_ring (hv_tcp ?v)) n" for n
    by (simp_all add: L sample_http_args_def sample_h2_call_def put_h2_def empty_http_world_def sample_h2_env_def
        sample_http_env_def sample_tcp_env_def sample_ring_env_def)
  have R: "h2_reports (h_ring ?w) = []"
    by (simp add: put_h2_def h2_reports_def empty_http_world_def empty_tcp_world_def empty_proto_def empty_ring_def shipped_def)
  have st: "h2r_start_monotime_ns (h2_core x) = h2r_start_monotime_ns x" for x by (simp add: h2_core_def)
  obtain e rs where e: "h2_reports (h_ring (obi_protocol_http2 ?v ?args ?w)) = h2_reports (h_ring ?w) @ e # rs"
    "h2_core e = h2_core sample_h2_call"
    using http2_end_reported[OF rd _ _ b i _ d _ r dir] L o by blast
  have "h2r_start_monotime_ns e = h2r_start_monotime_ns sample_h2_call" using st[of e] unfolding e(2) st by simp
  then have "h2r_start_monotime_ns e = 900" by (simp add: sample_h2_call_def)
  then show ?thesis using e(1) unfolding R by auto
qed

end
