(* ===== verification/Protocol_Handler.thy ===== *)
theory Protocol_Handler
  imports Http2_Requests
begin

section \<open>Dispatch of packets\<close>

text \<open>
  Models \<open>bpf/generictracer/protocol_handler.c\<close> and the arguments prepared for it in
  \<open>bpf/generictracer/k_tracer_defs.h\<close>: each buffer a process sends or receives on a connection is given
  to the HTTP programs, to the HTTP/2 programs or to the TCP handler, or counted as more of a message
  in progress. The lemmas show that requests are reported at most once, that an answered request is
  reported with its status, and that one whose response no parser recognises is reported without.
\<close>

unbundle bit_operations_syntax

definition TP_SIZE :: nat where "TP_SIZE = 70"

definition already_tracked_http2 :: "runtime_maps \<Rightarrow> pid_connection_info \<Rightarrow> bool" where
  "already_tracked_http2 rt p_conn \<longleftrightarrow> ongoing_http2_connections rt p_conn \<noteq> None"

text \<open>The arguments of a packet; \<open>old\<close> is what the last packet left in the per-CPU record.\<close>

definition make_protocol_args ::
  "http_env \<Rightarrow> pid_connection_info \<Rightarrow> u64 \<Rightarrow> protocol_selector \<Rightarrow> nat \<Rightarrow> u32 \<Rightarrow> u8 \<Rightarrow> u8 \<Rightarrow> u16 \<Rightarrow> u64
   \<Rightarrow> call_protocol_args option \<Rightarrow> http_world \<Rightarrow> call_protocol_args option" where
  "make_protocol_args v info lw_thread protocols u_buf bytes_len ssl direction orig_dport sk old w =
     (if sint bytes_len \<le> 0 then None
      else case old of
        None \<Rightarrow> None
      | Some args \<Rightarrow>
          let n = min (unat bytes_len) MIN_HTTP2_SIZE
          in Some (args\<lparr>ca_ssl := ssl, ca_bytes_len := bytes_len, ca_direction := direction, ca_orig_dport := orig_dport,
               ca_sock_ptr := sk, ca_u_buf := u_buf, ca_lw_thread := lw_thread, ca_protocols := protocols,
               ca_protocol_type := protocol_type_for_conn_info (hw_rt w) (tw_proto (hw_tcp w)) info,
               ca_pid_conn := info,
               ca_small_buf := probe_read_z (h_mem v) u_buf n @ replicate (MIN_HTTP2_SIZE - n) 0\<rparr>))"

definition obi_protocol_tcp :: "http_env \<Rightarrow> call_protocol_args \<Rightarrow> http_world \<Rightarrow> http_world" where
  "obi_protocol_tcp v args w =
     w\<lparr>hw_tcp := handle_unknown_tcp_connection ((hv_tcp v)\<lparr>tv_rt := hw_rt w\<rparr>) (ca_pid_conn args) (ca_u_buf args)
         (ca_bytes_len args) (ca_direction args) (ca_ssl args) (ca_orig_dport args) (ca_lw_thread args)
         (ca_protocol_type args) (hw_tcp w)\<rparr>"

text \<open>A new HTTP/2 connection, and the arguments moved past its preface.\<close>

definition start_http2 :: "http_env \<Rightarrow> call_protocol_args \<Rightarrow> http_world \<Rightarrow> call_protocol_args \<times> http_world" where
  "start_http2 v args w =
     (let (i, st) = uniqueHTTP2ConnId (h_env v) (ca_pid_conn args) (h_traces w);
          data = \<lparr>hc_id = i, hc_flags = (if ca_ssl args \<noteq> 0 then http2_conn_flag_new OR http2_conn_flag_ssl else http2_conn_flag_new),
                  hc_req_hpack_poisoned = 0, hc_resp_hpack_poisoned = 0\<rparr>;
          w = put_traces st w;
          w = w\<lparr>hw_rt := (hw_rt w)\<lparr>ongoing_http2_connections := (ongoing_http2_connections (hw_rt w))(ca_pid_conn args \<mapsto> data)\<rparr>,
                h2_cut_frames := map_del (ca_pid_conn args) (h2_cut_frames w)\<rparr>
      in (case skip_http2_preface \<lparr>ha_small_buf = ca_small_buf args, ha_u_buf = ca_u_buf args,
                ha_bytes_len = sint (ca_bytes_len args)\<rparr> of
            None \<Rightarrow> args
          | Some h \<Rightarrow> args\<lparr>ca_u_buf := ha_u_buf h, ca_bytes_len := of_int (ha_bytes_len h)\<rparr>, w))"

text \<open>
  A buffer that starts with a traceparent header: the header the injection split from its request. The
  record takes the context, and so do the thread's server context and the connection.
\<close>

definition take_split_traceparent :: "http_env \<Rightarrow> call_protocol_args \<Rightarrow> http_world \<Rightarrow> http_world" where
  "take_split_traceparent v args w = (case (tp_char_buf w, http_at w (ca_pid_conn args)) of
     (Some scratch, Some info) \<Rightarrow>
       let buf = probe_read_z (h_mem v) (ca_u_buf args) TP_SIZE @ drop TP_SIZE scratch;
           w = w\<lparr>tp_char_buf := Some buf\<rparr>
       in (case decode_traceparent buf 0 of
             None \<Rightarrow> w
           | Some (trace_id, span_id, flags) \<Rightarrow>
               let tp = sample_remote_child (h_env v) (hw_rt w) ((hi_tp info)\<lparr>tp_trace_id := trace_id, tp_flags := flags, tp_parent_id := span_id\<rparr>);
                   w = put_http (ca_pid_conn args) (info\<lparr>hi_tp := tp\<rparr>) w;
                   t_key = trace_key_from_pid_tid (h_env v) (hw_rt w)
               in (case server_traces (h_traces w) t_key of
                     None \<Rightarrow> w
                   | Some existing \<Rightarrow>
                       let existing = existing\<lparr>tpp_tp := tp\<rparr>; st = h_traces w;
                           st = st\<lparr>server_traces := (server_traces st)(t_key \<mapsto> existing)\<rparr>
                       in put_traces (set_trace_info_for_connection (pc_conn (ca_pid_conn args)) TRACE_TYPE_SERVER existing st) w))
   | _ \<Rightarrow> w)"

text \<open>One more buffer of a message of a record that is not reported yet.\<close>

definition continue_http_message :: "http_env \<Rightarrow> call_protocol_args \<Rightarrow> http_info \<Rightarrow> http_world \<Rightarrow> http_world" where
  "continue_http_message v args info w =
     (let reading = still_reading info; responding = still_responding info; unread = response_unread info
      in if \<not> reading \<and> \<not> responding \<and> \<not> unread then w
         else let w = (if reading \<and> is_traceparent (ca_small_buf args) 0 = Some True then take_split_traceparent v args w else w);
                  unparsed = unparsed_response_buffer info (ca_direction args);
                  packet_type = (if responding \<or> unparsed then PACKET_TYPE_RESPONSE else PACKET_TYPE_REQUEST);
                  w = (if unparsed
                       then let (t, w) = http_now v w;
                                w = upd_http (ca_pid_conn args) (\<lambda>i. let i = note_unread_response i t
                                      in i\<lparr>hi_resp_len := hi_resp_len i + ca_bytes_len args\<rparr>) w
                            in if hi_type info = k_event_type_http_request
                               then (case http_at w (ca_pid_conn args) of None \<Rightarrow> w
                                     | Some i \<Rightarrow> put_traces (mark_http_server_thread_trace_response_sent i (h_traces w)) w)
                               else w
                       else if reading
                       then upd_http (ca_pid_conn args) (\<lambda>i. i\<lparr>hi_len := hi_len i + ca_bytes_len args\<rparr>) w
                       else if responding
                       then let (t, w) = http_now v w
                            in upd_http (ca_pid_conn args) (\<lambda>i. i\<lparr>hi_end_monotime_ns := t,
                                 hi_resp_len := hi_resp_len i + ca_bytes_len args\<rparr>) w
                       else w)
              in http_send_large_buffer v (ca_pid_conn args) (ca_u_buf args) (ca_bytes_len args) packet_type
                   (ca_direction args) k_large_buf_action_append w)"

text \<open>What no classifier accepted: more of an HTTP message, or a packet of an unknown protocol.\<close>

definition handle_unclassified :: "http_env \<Rightarrow> call_protocol_args \<Rightarrow> http_world \<Rightarrow> http_world" where
  "handle_unclassified v args w = (case http_at w (ca_pid_conn args) of
     None \<Rightarrow> if sel_tcp (ca_protocols args) then obi_protocol_tcp v args w else w
   | Some info \<Rightarrow>
       if sel_http (ca_protocols args) \<and> hi_submitted info = 0
       then (if hi_ssl info \<noteq> 0 \<and> ca_ssl args = 0 then w else continue_http_message v args info w)
       else w)"

text \<open>A buffer that is neither an HTTP message nor the start of an HTTP/2 connection.\<close>

definition handle_not_http :: "http_env \<Rightarrow> call_protocol_args \<Rightarrow> http_world \<Rightarrow> http_world" where
  "handle_not_http v args w =
     (if (case ongoing_http2_connections (hw_rt w) (ca_pid_conn args) of None \<Rightarrow> False
          | Some h2g \<Rightarrow> http2_flag_ssl (hc_flags h2g) = ca_ssl args)
      then (if sel_http2 (ca_protocols args) then obi_protocol_http2 v args w else w)
      else if sel_tcp (ca_protocols args)
      then let (found, pt, st) = detect_tcp_protocol (pc_conn (ca_pid_conn args)) (h_mem v) (ca_u_buf args)
                 (ca_bytes_len args) (ca_direction args) (ca_protocol_type args) (tw_proto (hw_tcp w));
               args = args\<lparr>ca_protocol_type := pt\<rparr>; w = put_proto st w
           in if found then obi_protocol_tcp v args w else handle_unclassified v args w
      else handle_unclassified v args w)"

definition obi_handle_buf_with_args :: "http_env \<Rightarrow> bool \<Rightarrow> call_protocol_args \<Rightarrow> http_world \<Rightarrow> http_world" where
  "obi_handle_buf_with_args v loop args w =
     (let http = (if sel_http (ca_protocols args) then is_http (ca_small_buf args) MIN_HTTP_SIZE else Some (False, 0))
      in case http of
           Some (True, packet_type) \<Rightarrow> obi_protocol_http v loop (args\<lparr>ca_packet_type := packet_type\<rparr>) w
         | _ \<Rightarrow>
           let http2 = (ca_protocol_type args \<noteq> k_protocol_type_http \<and>
                 (is_http2_or_grpc (ca_small_buf args) MIN_HTTP2_SIZE = Some True \<or>
                  \<not> already_tracked_http2 (hw_rt w) (ca_pid_conn args) \<and>
                  looks_like_http2_frames (h_mem v) (ca_u_buf args) (sint (ca_bytes_len args))))
           in if http2 \<and> \<not> sel_http2 (ca_protocols args) then w
              else if http2 then (case start_http2 v args w of (args, w) \<Rightarrow> handle_not_http v args w)
              else handle_not_http v args w)"

subsection \<open>Other protocols report no HTTP request\<close>

definition tcp_http_reports :: "tcp_world \<Rightarrow> http_info list" where
  "tcp_http_reports t = http_reports (pm_ring (tw_proto t))"

lemma tcp_http_parts [simp]:
  "tcp_http_reports (snd (now v t)) = tcp_http_reports t"
  "tcp_http_reports (snd (on_traces f t)) = tcp_http_reports t"
  "tcp_http_reports (t\<lparr>tw_traces := tr\<rparr>) = tcp_http_reports t"
  "tcp_http_reports (t\<lparr>ongoing_tcp_req := m\<rparr>) = tcp_http_reports t"
  "tcp_http_reports (set_tcp_trace_info v ty conn lw tp pid ssl dp t) = tcp_http_reports t"
  "tcp_http_reports (snd (on_ring (events_ringbuf_reserve re) t)) = tcp_http_reports t"
  "tcp_http_reports (snd (on_ring (\<lambda>rg. ((), bpf_ringbuf_submit (TcpEvent x) (fl rg) rg)) t)) = tcp_http_reports t"
  by (simp_all add: now_def on_traces_def on_ring_def tcp_http_reports_def http_reports_def set_tcp_trace_info_def
      events_ringbuf_reserve_def bpf_ringbuf_submit_def shipped_def Let_def case_prod_beta split: option.split)

lemma tcp_http_trace [simp]:
  "tcp_http_reports (snd (tcp_get_or_set_trace_info v pc lw ssl dp r t)) = tcp_http_reports t"
  by (simp add: tcp_get_or_set_trace_info_def Let_def case_prod_beta)

lemma tcp_http_send [simp]:
  "tcp_http_reports (snd (snd (tcp_send v pc u_buf n d pt a r t))) = tcp_http_reports t"
  using tcp_send_payload[of r "tw_proto t" "tv_ring v" "tv_cap v" "tv_mem v" pc u_buf n d pt a]
  by (simp add: tcp_send_def case_prod_beta tcp_http_reports_def ships_payload_def payload_no_reports)

lemma tcp_handler_http [simp]:
  "tcp_http_reports (handle_unknown_tcp_connection v pc u_buf n d ssl dp lw pt t) = tcp_http_reports t"
  by (simp add: handle_unknown_tcp_connection_def start_tcp_req_def tcp_response_def tcp_more_request_def Let_def
      case_prod_beta split: option.split)

lemma put_tcp_neutral:
  "tcp_http_reports t = tcp_http_reports (hw_tcp w) \<Longrightarrow> neutral a (w\<lparr>hw_tcp := t\<rparr>) = neutral a w"
  by (simp add: neutral_def open_http_def tcp_http_reports_def)

lemma protocol_tcp_neutral [simp]: "neutral a (obi_protocol_tcp v args w) = neutral a w"
  by (simp add: obi_protocol_tcp_def put_tcp_neutral)

lemma start_http2_neutral [simp]: "neutral a (snd (start_http2 v args w)) = neutral a w"
  by (simp add: start_http2_def uniqueHTTP2ConnId_def Let_def neutral_def open_http_def http_at_def put_traces_def)

lemma split_traceparent_neutral: "neutral w (take_split_traceparent v args w)"
  by (simp add: take_split_traceparent_def Let_def case_prod_beta split: option.split)
     (auto intro!: neutralI)

lemma detect_ring [simp]: "pm_ring (snd (snd (detect_tcp_protocol conn m data n d pt st))) = pm_ring st"
proof -
  have k: "pm_ring (snd (snd (is_mysql conn m data n pt st))) = pm_ring st"
    "pm_ring (snd (snd (is_postgres conn m data n pt st))) = pm_ring st"
    "pm_ring (snd (snd (is_mssql conn m data n pt st))) = pm_ring st"
    "pm_ring (snd (snd (is_kafka conn m data n pt d st))) = pm_ring st"
    "pm_ring (snd (snd (is_sunrpc conn m data n pt st))) = pm_ring st"
    "pm_ring (snd (snd (is_aerospike conn m data n pt st))) = pm_ring st" for pt st
    by (simp_all add: is_mysql_def is_postgres_def is_mssql_def is_kafka_def is_sunrpc_def is_aerospike_def Let_def
        case_prod_beta split: option.split)
  have o: "pm_ring (snd (snd (or_else x f))) = pm_ring st"
    if "pm_ring (snd (snd x)) = pm_ring st" "\<And>pt st'. pm_ring st' = pm_ring st \<Longrightarrow> pm_ring (snd (snd (f pt st'))) = pm_ring st" for x f
    using that by (simp add: or_else_def case_prod_beta)
  show ?thesis unfolding detect_tcp_protocol_def by (intro o) (simp_all add: k)
qed

lemma continue_message_balanced: "balanced 0 w (continue_http_message v args info w)"
proof -
  have "balanced 0 w (take_split_traceparent v args w)" by (rule neutral_balanced[OF split_traceparent_neutral])
  then show ?thesis
    by (simp add: continue_http_message_def Let_def case_prod_beta send_balanced balanced_upd split: option.split)
qed

lemma unclassified_balanced: "neutral w w' \<Longrightarrow> balanced 0 w (handle_unclassified v args w')"
  using balanced_step[OF continue_message_balanced neutral_balanced]
  by (auto simp: handle_unclassified_def neutral_balanced split: option.split)

text \<open>The packets that may open a record.\<close>

definition is_http_request_packet :: "call_protocol_args \<Rightarrow> bool" where
  "is_http_request_packet args \<longleftrightarrow> sel_http (ca_protocols args) \<and>
     is_http (ca_small_buf args) MIN_HTTP_SIZE = Some (True, PACKET_TYPE_REQUEST)"

lemma not_http_balanced: "neutral w w' \<Longrightarrow> balanced 0 w (handle_not_http v args w')"
proof -
  assume n: "neutral w w'"
  have p: "neutral w (put_proto (snd (snd (detect_tcp_protocol conn m u len d pt (tw_proto (hw_tcp w'))))) w')" for conn m u len d pt
    by (rule neutral_trans[OF n], rule neutralI) simp_all
  show ?thesis
    by (simp add: handle_not_http_def Let_def case_prod_beta n p unclassified_balanced neutral_balanced protocol_http2_neutral)
qed

lemma handle_buf_balanced:
  "balanced (if is_http_request_packet args then 1 else 0) w (obi_handle_buf_with_args v loop args w)"
proof (cases "\<exists>p. (if sel_http (ca_protocols args) then is_http (ca_small_buf args) MIN_HTTP_SIZE else Some (False, 0)) = Some (True, p)")
  case True
  then obtain p where p: "sel_http (ca_protocols args)" "is_http (ca_small_buf args) MIN_HTTP_SIZE = Some (True, p)"
    by (auto split: if_splits)
  then show ?thesis using protocol_http_balanced[of "args\<lparr>ca_packet_type := p\<rparr>" w v loop]
    by (simp add: obi_handle_buf_with_args_def is_http_request_packet_def)
next
  case False
  define http where "http = (if sel_http (ca_protocols args) then is_http (ca_small_buf args) MIN_HTTP_SIZE else Some (False, 0))"
  have h: "http = None \<or> (\<exists>t. http = Some (False, t))" using False unfolding http_def[symmetric] by (cases http) auto
  define http2 where "http2 \<longleftrightarrow> ca_protocol_type args \<noteq> k_protocol_type_http \<and>
      (is_http2_or_grpc (ca_small_buf args) MIN_HTTP2_SIZE = Some True \<or> \<not> already_tracked_http2 (hw_rt w) (ca_pid_conn args) \<and>
       looks_like_http2_frames (h_mem v) (ca_u_buf args) (sint (ca_bytes_len args)))"
  have "obi_handle_buf_with_args v loop args w = (if http2 \<and> \<not> sel_http2 (ca_protocols args) then w
      else if http2 then handle_not_http v (fst (start_http2 v args w)) (snd (start_http2 v args w)) else handle_not_http v args w)"
    using h unfolding obi_handle_buf_with_args_def http_def[symmetric] http2_def[symmetric] Let_def case_prod_beta
    by (elim disjE exE) simp_all
  then have "balanced 0 w (obi_handle_buf_with_args v loop args w)"
    using not_http_balanced[of w w] not_http_balanced[of w "snd (start_http2 v args w)"] by simp
  then show ?thesis by (rule balanced_mono) simp
qed

subsection \<open>HTTP requests are reported once\<close>

text \<open>
  What happens to the records of HTTP requests: buffers given to the dispatcher, delayed records that
  are finished, connections that are closed or cleaned up, payload sent past the parser, and entries the
  LRU map drops.
\<close>

datatype http_op =
    HttpBuffer http_env bool call_protocol_args
  | HttpDelayed http_env pid_connection_info
  | HttpClosed http_env pid_connection_info "trace_key option" u64
  | HttpTerminated http_env pid_connection_info "trace_key option"
  | HttpSentLen pid_connection_info u32
  | HttpEvicted pid_connection_info

fun http_step :: "http_op \<Rightarrow> http_world \<Rightarrow> http_world" where
  "http_step (HttpBuffer v loop args) w = obi_handle_buf_with_args v loop args w"
| "http_step (HttpDelayed v pc) w = finish_possible_delayed_http_request v pc w"
| "http_step (HttpClosed v pc key sk) w = force_finish_possible_delayed_http_request v pc key sk w"
| "http_step (HttpTerminated v pc key) w = terminate_http_request_if_needed v pc key w"
| "http_step (HttpSentLen pc n) w = update_http_sent_len pc n w"
| "http_step (HttpEvicted pc) w = del_http pc w"

fun starts_http_request :: "http_op \<Rightarrow> bool" where
  "starts_http_request (HttpBuffer v loop args) = is_http_request_packet args"
| "starts_http_request _ = False"

interpretation http_reporting:
  reporting http_step http_account "\<lambda>op w. if starts_http_request op then 1 else 0" http_info_emittable "\<lambda>_. True"
proof unfold_locales
  fix op :: http_op and w
  have "balanced (if starts_http_request op then 1 else 0) w (http_step op w)"
    by (cases op)
      (simp_all add: handle_buf_balanced[simplified] finish_possible_balanced force_finish_possible_balanced terminate_balanced
        sent_len_balanced balanced_del)
  then show "accounts http_info_emittable (if starts_http_request op then 1 else 0) (http_account w) (http_account (http_step op w))"
    by (simp add: balanced_def)
qed

text \<open>
  C3: Over any sequence of dispatched buffers, delayed finishes, closes, clean-ups and evictions of any
  connections, there are never more HTTP requests reported than request packets were seen, and every
  reported request has a start time, a process and either a status or a response that was seen
  without being parsed: neither a pipelined request, nor a response in pieces, nor a close after the
  response makes a request be reported twice.
\<close>

theorem http_reported_once:
  assumes "http_reports (h_ring w) = []" and "\<And>pc. http_at w pc = None"
  shows "length (http_reports (h_ring (fold http_step ops w))) \<le> length (filter starts_http_request ops) \<and>
    (\<forall>i \<in> set (http_reports (h_ring (fold http_step ops w))). http_info_emittable i)"
proof -
  have "http_account w = ([], {})" using assms by (simp add: http_account_def open_http_def)
  then show ?thesis using http_reporting.reported_once[of ops w]
    by (simp add: opened_sum sum_list_count_if list_all_iff) (simp add: http_account_def)
qed

definition sample_status_line :: bytes where
  "sample_status_line = ascii ''HTTP/1.1 200 OK'' @ replicate 9 0"

lemma sample_response: "is_http sample_status_line MIN_HTTP_SIZE = Some (True, PACKET_TYPE_RESPONSE)" "http_status sample_status_line = 200"
  by (simp_all add: is_http_def sample_status_line_def ascii_def rd_def MIN_HTTP_SIZE_def http_status_def Let_def RESPONSE_STATUS_POS_def
      MAX_HTTP_STATUS_def nth_append)

theorem http_reported_once_witness:
  "length (http_reports (h_ring (fold http_step
     [HttpBuffer sample_http_env True (sample_http_args (ascii ''GET / HTTP/1.1'' @ replicate 10 0)),
      HttpBuffer sample_http_env True (sample_http_args sample_status_line),
      HttpClosed sample_http_env sample_pc None 0] empty_http_world))) \<le> 1"
proof -
  have "\<not> is_http_request_packet (sample_http_args sample_status_line)"
    by (simp add: is_http_request_packet_def sample_http_args_def sample_response PACKET_TYPE_RESPONSE_def PACKET_TYPE_REQUEST_def)
  moreover have "http_reports (h_ring empty_http_world) = []" "http_at empty_http_world pc = None" for pc
    by (simp_all add: empty_http_world_def empty_tcp_world_def http_reports_def empty_proto_def empty_ring_def shipped_def http_at_def
        empty_runtime_def)
  ultimately show ?thesis
    using http_reported_once[of empty_http_world
        "[HttpBuffer sample_http_env True (sample_http_args (ascii ''GET / HTTP/1.1'' @ replicate 10 0)),
          HttpBuffer sample_http_env True (sample_http_args sample_status_line), HttpClosed sample_http_env sample_pc None 0]"]
    by (simp split: if_splits)
qed

subsection \<open>An answered request is reported\<close>

text \<open>What a report must say of the request and its response.\<close>

definition same_http :: "http_info \<Rightarrow> http_info \<Rightarrow> bool" where
  "same_http i j \<longleftrightarrow> hi_start_monotime_ns j = hi_start_monotime_ns i \<and> hi_tp j = hi_tp i \<and> hi_type j = hi_type i \<and>
     hi_pid j = hi_pid i \<and> hi_conn_info j = hi_conn_info i \<and> hi_buf j = hi_buf i"

text \<open>
  The request \<open>i\<close> of a connection was answered with status \<open>s\<close>: it is reported after the reports \<open>R\<close>, or
  its record waits to be finished.
\<close>

definition answered :: "http_info list \<Rightarrow> http_info \<Rightarrow> u16 \<Rightarrow> pid_connection_info \<Rightarrow> http_world \<Rightarrow> bool" where
  "answered R i s pc w \<longleftrightarrow> (\<exists>j. same_http i j \<and> hi_status j = s \<and>
     (http_reports (h_ring w) = R @ [j] \<and> (\<forall>k. http_at w pc = Some k \<longrightarrow> hi_submitted k \<noteq> 0) \<or>
      http_reports (h_ring w) = R \<and> http_at w pc = Some j \<and> hi_delayed j \<noteq> 0 \<and> hi_submitted j = 0 \<and> http_info_complete j))"

lemma answered_cong: "http_at w' pc = http_at w pc \<Longrightarrow> h_ring w' = h_ring w \<Longrightarrow> answered R i s pc w' = answered R i s pc w"
  by (simp add: answered_def)

lemma answered_simps [simp]:
  "answered R i s pc (put_traces t w) = answered R i s pc w"
  "answered R i s pc (w\<lparr>hw_active_ssl := a\<rparr>) = answered R i s pc w"
  "answered R i s pc (w\<lparr>emit_state := es\<rparr>) = answered R i s pc w"
  by (rule answered_cong; simp)+

lemma submit_submitted: "http_at w pc = Some i \<Longrightarrow> hi_submitted i \<noteq> 0 \<Longrightarrow> submit_http_event v pc w = w"
  by (simp add: submit_http_event_def)

lemma submit_open:
  assumes "http_at w pc = Some i" "http_info_emittable i" "hi_submitted i = 0" and ok: "\<And>n. rb_ok (tv_ring (hv_tcp v)) n"
  defines "j \<equiv> i\<lparr>hi_submitted := 1, hi_flags := k_event_type_k_http_request\<rparr>"
  shows "http_reports (h_ring (submit_http_event v pc w)) = http_reports (h_ring w) @ [j]"
    "http_at (submit_http_event v pc w) pc = Some j"
proof -
  obtain r rg where o: "events_ringbuf_output (tv_ring (hv_tcp v)) (HttpEvent j) sizeof_http_info (h_ring w) = (r, rg)"
    by (rule prod.exhaust)
  have w': "submit_http_event v pc w = put_proto ((tw_proto (hw_tcp (put_http pc j w)))\<lparr>pm_ring := rg\<rparr>) (put_http pc j w)"
    using assms(1-3) o by (simp add: submit_http_event_def Let_def j_def)
  show "http_reports (h_ring (submit_http_event v pc w)) = http_reports (h_ring w) @ [j]"
    "http_at (submit_http_event v pc w) pc = Some j"
    using output_cases[OF o] ok by (simp_all add: w' http_reports_def)
qed

lemma complete_emittable [simp]: "http_info_complete i \<Longrightarrow> http_info_emittable i"
  by (simp add: http_info_emittable_def)

lemma finish_parts:
  assumes "http_at w pc = Some i" "http_info_emittable i"
  shows "http_reports (h_ring (finish_http v pc key w)) = http_reports (h_ring (submit_http_event v pc w))"
    "http_at (finish_http v pc key w) pc = (if hi_delayed i \<noteq> 0 then None else http_at (submit_http_event v pc w) pc)"
  using assms by (simp_all add: finish_http_def Let_def cleanup_http_server_thread_trace_def)

text \<open>Finishing an open and complete record reports it.\<close>

lemma finish_open:
  assumes "http_at w pc = Some j" "http_info_complete j" "hi_submitted j = 0" and ok: "\<And>n. rb_ok (tv_ring (hv_tcp v)) n"
    and "same_http i j"
  shows "answered (http_reports (h_ring w)) i (hi_status j) pc (finish_http v pc key w)"
  using assms(5) finish_parts[OF assms(1), of v key] submit_open[OF assms(1) _ assms(3) ok] assms(2)
  by (auto simp: answered_def same_http_def)

lemma submit_delayed:
  assumes "http_at w pc = Some j" "http_info_complete j" "hi_submitted j = 0" and ok: "\<And>n. rb_ok (tv_ring (hv_tcp v)) n"
    and "same_http i j"
  shows "answered (http_reports (h_ring w)) i (hi_status j) pc (submit_http_event v pc w)"
  using assms(5) submit_open[OF assms(1) _ assms(3) ok] assms(2) by (auto simp: answered_def same_http_def)

lemma response_answered:
  assumes i: "http_at w pc = Some i" "hi_start_monotime_ns i \<noteq> 0" "pi_host_pid (hi_pid i) \<noteq> 0" "hi_submitted i = 0"
    and s: "http_status buf \<noteq> 0" and ok: "\<And>n. rb_ok (tv_ring (hv_tcp v)) n"
  shows "answered (http_reports (h_ring w)) i (http_status buf) pc (handle_http_response v buf pc lw w)"
proof -
  define t where "t = fst (http_now v w)"
  define j where "j = i\<lparr>hi_resp_len := 0, hi_end_monotime_ns := t, hi_response_observation := http_response_parsed,
      hi_status := http_status buf\<rparr>"
  have j: "http_info_complete (j\<lparr>hi_delayed := d\<rparr>)" "http_info_complete j" "hi_submitted j = 0" "same_http i j"
      "same_http i (j\<lparr>hi_delayed := d\<rparr>)" "hi_status j = http_status buf" "hi_ssl j = hi_ssl i" for d
    using i s by (simp_all add: j_def http_info_complete_def same_http_def)
  have f: "answered (http_reports (h_ring w)) i (http_status buf) pc (finish_http v pc key (put_traces tr (put_http pc j (snd (http_now v w)))))"
    for key tr using finish_open[of "put_traces tr (put_http pc j (snd (http_now v w)))" pc j v i key] j ok by simp
  have g: "answered (http_reports (h_ring w)) i (http_status buf) pc (submit_http_event v pc
       (put_traces tr' (put_http pc (j\<lparr>hi_delayed := 1\<rparr>) (put_traces tr (put_http pc j (snd (http_now v w)))))))" for tr tr'
    using submit_delayed[of "put_traces tr' (put_http pc (j\<lparr>hi_delayed := 1\<rparr>) (put_traces tr (put_http pc j (snd (http_now v w)))))" pc
        "j\<lparr>hi_delayed := 1\<rparr>" v i] j ok by simp
  have h: "answered (http_reports (h_ring w)) i (http_status buf) pc (put_http pc (j\<lparr>hi_delayed := 1\<rparr>) (put_traces tr (put_http pc j (snd (http_now v w)))))"
    for tr using j by (auto simp: answered_def)
  show ?thesis
    by (simp add: handle_http_response_def process_http_response_def i(1) Let_def case_prod_beta
        j_def[unfolded t_def, symmetric] f g h cong: if_cong)
qed

text \<open>Shipping payload does not change that.\<close>

lemma count_kept [simp]:
  "same_http i (count_http_captured ty c j) = same_http i j" "hi_status (count_http_captured ty c j) = hi_status j"
  "hi_delayed (count_http_captured ty c j) = hi_delayed j" "http_info_complete (count_http_captured ty c j) = http_info_complete j"
  by (simp_all add: count_http_captured_def same_http_def http_info_complete_def Let_def)

lemma answered_count:
  assumes "http_at w pc' = Some k" and "payload_only (h_ring w) (pm_ring p)" and "answered R i s pc w"
  shows "answered R i s pc (put_http pc' (count_http_captured ty c k) (put_proto p w))"
proof -
  obtain j where j: "same_http i j" "hi_status j = s" and
    c: "http_reports (h_ring w) = R @ [j] \<and> (\<forall>k. http_at w pc = Some k \<longrightarrow> hi_submitted k \<noteq> 0) \<or>
      http_reports (h_ring w) = R \<and> http_at w pc = Some j \<and> hi_delayed j \<noteq> 0 \<and> hi_submitted j = 0 \<and> http_info_complete j"
    using assms(3) by (auto simp: answered_def)
  have "http_reports (pm_ring p) = http_reports (h_ring w)" by (rule payload_no_reports[OF assms(2)])
  then show ?thesis using j c assms(1) unfolding answered_def
    by (intro exI[of _ "if http_reports (h_ring w) = R \<and> pc = pc' then count_http_captured ty c j else j"]) auto
qed

lemma emit_continue_answered: "answered R i s pc w \<Longrightarrow> answered R i s pc (obi_large_buf_emit_continue n v w)"
proof (induction n arbitrary: w)
  case (Suc n)
  then show ?case
    by (simp add: Let_def case_prod_beta Suc.IH answered_count emit_payload split: option.split)
qed simp

lemma send_answered: "answered R i s pc w \<Longrightarrow> answered R i s pc (http_send_large_buffer v pc' u_buf n ty d a w)"
  by (simp add: http_send_large_buffer_def Let_def emit_continue_answered split: option.split)

text \<open>Closing the connection reports what still waits.\<close>

lemma closed_reported:
  assumes a: "answered R i s pc w" and ok: "\<And>n. rb_ok (tv_ring (hv_tcp v)) n"
  shows "\<exists>j. http_reports (h_ring (force_finish_possible_delayed_http_request v pc key sk w)) = R @ [j] \<and>
    same_http i j \<and> hi_status j = s"
proof (cases "http_at w pc")
  case None
  then show ?thesis using a
    by (auto simp: answered_def force_finish_possible_delayed_http_request_def cleanup_http_info_def)
next
  case (Some k)
  define w1 where "w1 = cleanup_incomplete_http_server_thread_trace v k key w"
  have w1: "http_at w1 pc = Some k" "h_ring w1 = h_ring w"
    using Some by (simp_all add: w1_def cleanup_incomplete_http_server_thread_trace_def cleanup_http_server_thread_trace_def)
  have e: "http_reports (h_ring (force_finish_possible_delayed_http_request v pc key sk w)) =
      http_reports (h_ring (if hi_delayed k \<noteq> 0 then finish_http v pc key w1
        else force_finish_http v pc key (http_response_bytes_from_sock v sk (hi_type k)) w1))"
    by (simp add: force_finish_possible_delayed_http_request_def Some cleanup_http_info_def w1_def Let_def)
  obtain j where j: "same_http i j" "hi_status j = s" and
    c: "http_reports (h_ring w) = R @ [j] \<and> hi_submitted k \<noteq> 0 \<or>
      http_reports (h_ring w) = R \<and> k = j \<and> hi_delayed j \<noteq> 0 \<and> hi_submitted j = 0 \<and> http_info_complete j"
    using a Some by (auto simp: answered_def)
  show ?thesis
  proof (cases "hi_submitted k = 0")
    case True
    then have "answered R i s pc (finish_http v pc key w1)" using finish_open[of w1 pc k v i key] c j w1 ok by auto
    moreover have "http_at (finish_http v pc key w1) pc = None" using finish_parts[OF w1(1)] c True by auto
    ultimately show ?thesis using e c True by (auto simp: answered_def)
  next
    case False
    then have "http_reports (h_ring (finish_http v pc key w1)) = http_reports (h_ring w)"
      using finish_parts(1)[OF w1(1), of v key] submit_submitted[OF w1(1)] w1
      by (cases "http_info_emittable k") (simp_all add: finish_http_def)
    then show ?thesis using e c j False w1 by (auto simp: force_finish_http_def)
  qed
qed

text \<open>
  C4: A request whose record is open is reported exactly once when its response arrives and the
  connection is then closed, provided the response's status line holds a final status up to 599 and
  the ring buffer has room. The report has the status of the response and the request's start time,
  trace context, process, connection and request line.
\<close>

theorem http_exchange_reported:
  assumes "http_at w (ca_pid_conn args) = Some i" and "hi_start_monotime_ns i \<noteq> 0" and "pi_host_pid (hi_pid i) \<noteq> 0"
    and "hi_status i = 0" and "hi_submitted i = 0" and "hw_info_mem w"
    and "sel_http (ca_protocols args)" and "is_http (ca_small_buf args) MIN_HTTP_SIZE = Some (True, PACKET_TYPE_RESPONSE)"
    and "http_status (ca_small_buf args) \<noteq> 0"
    and "\<And>n. rb_ok (tv_ring (hv_tcp v)) n" and "\<And>n. rb_ok (tv_ring (hv_tcp v')) n"
  shows "\<exists>j. http_reports (h_ring (fold http_step [HttpBuffer v loop args, HttpClosed v' (ca_pid_conn args) key sk] w)) =
      http_reports (h_ring w) @ [j] \<and> same_http i j \<and> hi_status j = http_status (ca_small_buf args)"
proof -
  define pc where "pc = ca_pid_conn args"
  define w1 where "w1 = upd_http pc (\<lambda>info. info\<lparr>hi_direction := ca_direction args\<rparr>) w"
  define i1 where "i1 = i\<lparr>hi_direction := ca_direction args\<rparr>"
  have p: "PACKET_TYPE_RESPONSE \<noteq> PACKET_TYPE_REQUEST" by (simp add: PACKET_TYPE_RESPONSE_def PACKET_TYPE_REQUEST_def)
  have w1: "http_at w1 pc = Some i1" "h_ring w1 = h_ring w" using assms(1) by (simp_all add: w1_def i1_def pc_def)
  have "http_step (HttpBuffer v loop args) w = http_send_large_buffer v pc (ca_u_buf args) (ca_bytes_len args) PACKET_TYPE_RESPONSE
      (ca_direction args) k_large_buf_action_init (handle_http_response v (ca_small_buf args) pc (ca_lw_thread args) w1)"
    using assms p w1(1) by (simp add: obi_handle_buf_with_args_def obi_protocol_http_def empty_http_info_def get_or_set_http_info_def
        Let_def w1_def[symmetric] pc_def[symmetric] i1_def)
  moreover have "answered (http_reports (h_ring w)) i1 (http_status (ca_small_buf args)) pc
      (handle_http_response v (ca_small_buf args) pc (ca_lw_thread args) w1)"
    using response_answered[OF w1(1), of "ca_small_buf args" v "ca_lw_thread args"] assms w1(2) by (simp add: i1_def)
  ultimately have "answered (http_reports (h_ring w)) i1 (http_status (ca_small_buf args)) pc (http_step (HttpBuffer v loop args) w)"
    by (simp add: send_answered)
  from closed_reported[OF this assms(11), of key sk] show ?thesis by (simp add: pc_def same_http_def i1_def)
qed

definition sample_open_http :: http_info where
  "sample_open_http = zero_http_info\<lparr>hi_type := k_event_type_http_request, hi_start_monotime_ns := 900,
     hi_pid := \<lparr>pi_host_pid = 70, pi_user_pid = 70, pi_ns = 9\<rparr>\<rparr>"

theorem http_exchange_reported_witness:
  "\<exists>j. http_reports (h_ring (fold http_step [HttpBuffer sample_http_env True (sample_http_args sample_status_line),
       HttpClosed sample_http_env sample_pc None 0] (put_http sample_pc sample_open_http empty_http_world))) = [j] \<and>
     hi_status j = 200 \<and> hi_start_monotime_ns j = 900"
proof -
  have r: "http_reports (h_ring empty_http_world) = []"
    by (simp add: empty_http_world_def empty_tcp_world_def http_reports_def empty_proto_def empty_ring_def shipped_def)
  show ?thesis
    using http_exchange_reported[of "put_http sample_pc sample_open_http empty_http_world" "sample_http_args sample_status_line"
        sample_open_http sample_http_env sample_http_env True None 0]
    by (simp add: r sample_http_args_def sample_response sample_open_http_def zero_http_info_def sample_http_env_def
        sample_tcp_env_def sample_ring_env_def same_http_def)
      (auto simp: put_http_def empty_http_world_def)
qed

subsection \<open>A request whose response is never parsed is reported\<close>

text \<open>
  The record of one call: what its report must say of it, whatever happens to its context while a
  split header may still arrive.
\<close>

definition same_call :: "http_info \<Rightarrow> http_info \<Rightarrow> bool" where
  "same_call i j \<longleftrightarrow> hi_start_monotime_ns j = hi_start_monotime_ns i \<and> hi_type j = hi_type i \<and> hi_pid j = hi_pid i \<and>
     hi_conn_info j = hi_conn_info i \<and> hi_buf j = hi_buf i \<and> hi_ssl j = hi_ssl i \<and>
     hi_response_bytes_at_request j = hi_response_bytes_at_request i"

text \<open>Nothing is reported after \<open>R\<close> yet and the call \<open>i\<close> is open, with what was seen of its response and both lengths.\<close>

definition in_flight ::
  "http_info list \<Rightarrow> http_info \<Rightarrow> http_response_observation \<Rightarrow> u32 \<Rightarrow> u32 \<Rightarrow> pid_connection_info \<Rightarrow> http_world \<Rightarrow> bool" where
  "in_flight R i seen len resp_len pc w \<longleftrightarrow> http_reports (h_ring w) = R \<and> (\<exists>k. http_at w pc = Some k \<and> same_call i k \<and>
     hi_status k = 0 \<and> hi_submitted k = 0 \<and> hi_delayed k = 0 \<and> hi_response_observation k = seen \<and>
     hi_len k = len \<and> hi_resp_len k = resp_len)"

lemma in_flight_simps [simp]:
  "in_flight R i s l r pc (put_traces t w) = in_flight R i s l r pc w"
  "in_flight R i s l r pc (w\<lparr>emit_state := es\<rparr>) = in_flight R i s l r pc w"
  "in_flight R i s l r pc (w\<lparr>tp_char_buf := cb\<rparr>) = in_flight R i s l r pc w"
  "in_flight R i s l r pc (snd (http_now v w)) = in_flight R i s l r pc w"
  by (simp_all add: in_flight_def)

lemma in_flight_tp:
  "in_flight R i s l r pc w \<Longrightarrow> http_at w pc = Some k \<Longrightarrow> in_flight R i s l r pc (put_http pc (k\<lparr>hi_tp := tp\<rparr>) w)"
  by (auto simp: in_flight_def same_call_def)

lemma split_traceparent_in_flight:
  "in_flight R i s l r (ca_pid_conn args) w \<Longrightarrow> in_flight R i s l r (ca_pid_conn args) (take_split_traceparent v args w)"
  by (simp add: take_split_traceparent_def Let_def case_prod_beta in_flight_tp split: option.split)

lemma count_in_flight:
  assumes "in_flight R i s l r pc w" "http_at w pc' = Some k" "payload_only (h_ring w) (pm_ring p)"
  shows "in_flight R i s l r pc (put_http pc' (count_http_captured ty c k) (put_proto p w))"
proof -
  have "http_reports (pm_ring p) = http_reports (h_ring w)" by (rule payload_no_reports[OF assms(3)])
  then show ?thesis using assms(1,2)
    by (auto simp: in_flight_def same_call_def count_http_captured_def Let_def)
qed

lemma emit_continue_in_flight: "in_flight R i s l r pc w \<Longrightarrow> in_flight R i s l r pc (obi_large_buf_emit_continue n v w)"
proof (induction n arbitrary: w)
  case (Suc n)
  then show ?case
    by (simp add: Let_def case_prod_beta Suc.IH count_in_flight emit_payload split: option.split)
qed simp

lemma send_in_flight: "in_flight R i s l r pc w \<Longrightarrow> in_flight R i s l r pc (http_send_large_buffer v pc' u_buf n ty d a w)"
  by (simp add: http_send_large_buffer_def Let_def emit_continue_in_flight split: option.split)

text \<open>A buffer that no parser recognised, for an open call that it may belong to.\<close>

definition belongs_to :: "http_info \<Rightarrow> pid_connection_info \<Rightarrow> call_protocol_args \<Rightarrow> bool" where
  "belongs_to i pc args \<longleftrightarrow> ca_pid_conn args = pc \<and> sel_http (ca_protocols args) \<and> (hi_ssl i \<noteq> 0 \<longrightarrow> ca_ssl args \<noteq> 0)"

text \<open>It travels towards the side that made the call.\<close>

definition answers :: "http_info \<Rightarrow> call_protocol_args \<Rightarrow> bool" where
  "answers i args \<longleftrightarrow> ca_direction args = (if hi_type i = k_event_type_http_client then TCP_RECV else TCP_SEND)"

lemma unrecognised_in_flight:
  assumes f: "in_flight R i s l r pc w" and s: "s \<in> {http_response_parsed, http_response_unread}"
    and i: "hi_start_monotime_ns i \<noteq> 0" and b: "belongs_to i pc args"
  shows "in_flight R i (if answers i args then http_response_unread else s)
    (if \<not> answers i args \<and> s = http_response_parsed then l + ca_bytes_len args else l)
    (if answers i args then r + ca_bytes_len args else r) pc (handle_unclassified v args w)"
proof -
  obtain k where k: "http_at w pc = Some k" "same_call i k" "hi_status k = 0" "hi_submitted k = 0" "hi_delayed k = 0"
    "hi_response_observation k = s" "hi_len k = l" "hi_resp_len k = r" and R: "http_reports (h_ring w) = R"
    using f by (auto simp: in_flight_def)
  have pc: "ca_pid_conn args = pc" using b by (simp add: belongs_to_def)
  have h: "handle_unclassified v args w = continue_http_message v args k w"
    using b k by (auto simp: handle_unclassified_def belongs_to_def same_call_def)
  have flags: "still_responding k \<longleftrightarrow> False" "still_reading k \<longleftrightarrow> s = http_response_parsed"
    "response_unread k \<longleftrightarrow> s = http_response_unread" "unparsed_response_buffer k (ca_direction args) \<longleftrightarrow> answers i args"
    using k s i by (auto simp: still_responding_def still_reading_def response_unread_def unparsed_response_buffer_def
        http_response_direction_def answers_def same_call_def)
  have sp: "in_flight R i s l r pc (take_split_traceparent v args w)"
    using split_traceparent_in_flight[of R i s l r args w v] f by (simp add: pc)
  have u: "in_flight R i http_response_unread l (r + ca_bytes_len args) pc (upd_http pc (\<lambda>i. let i = note_unread_response i t
      in i\<lparr>hi_resp_len := hi_resp_len i + ca_bytes_len args\<rparr>) w)" if "in_flight R i s l r pc w" for t w
    using that by (auto simp: in_flight_def same_call_def note_unread_response_def Let_def)
  have q: "in_flight R i s (l + ca_bytes_len args) r pc (upd_http pc (\<lambda>i. i\<lparr>hi_len := hi_len i + ca_bytes_len args\<rparr>) w)"
    if "in_flight R i s l r pc w" for w using that by (auto simp: in_flight_def same_call_def)
  show ?thesis
  proof (cases "s = http_response_parsed")
    case True
    note facts = f sp u q
    show ?thesis using facts[unfolded True] unfolding h continue_http_message_def flags Let_def True
      by (auto simp: pc case_prod_beta intro!: send_in_flight split: option.split)
  next
    case False
    then have s: "s = http_response_unread" using s by simp
    note facts = f u
    show ?thesis using facts[unfolded s] unfolding h continue_http_message_def flags Let_def s
      by (auto simp: pc case_prod_beta intro!: send_in_flight split: option.split)
  qed
qed

text \<open>
  The bytes of the request still to come, up to the first buffer of the response, and the bytes of the
  response; both sums wrap as the counters of the record do.
\<close>

definition more_request :: "http_info \<Rightarrow> (http_env \<times> call_protocol_args) list \<Rightarrow> u32" where
  "more_request i bufs = sum_list (map (\<lambda>(v, args). ca_bytes_len args) (takeWhile (\<lambda>(v, args). \<not> answers i args) bufs))"

definition all_response :: "http_info \<Rightarrow> (http_env \<times> call_protocol_args) list \<Rightarrow> u32" where
  "all_response i bufs = sum_list (map (\<lambda>(v, args). ca_bytes_len args) (filter (\<lambda>(v, args). answers i args) bufs))"

lemma buffer_sums [simp]:
  "more_request i [] = 0" "all_response i [] = 0"
  "more_request i ((v, args) # bufs) = (if answers i args then 0 else ca_bytes_len args + more_request i bufs)"
  "all_response i ((v, args) # bufs) = (if answers i args then ca_bytes_len args + all_response i bufs else all_response i bufs)"
  by (simp_all add: more_request_def all_response_def)

lemma run_from_unread:
  assumes "in_flight R i http_response_unread l r pc w" "hi_start_monotime_ns i \<noteq> 0"
    and "list_all (\<lambda>(v, args). belongs_to i pc args) bufs"
  shows "in_flight R i http_response_unread l (r + all_response i bufs) pc (fold (\<lambda>(v, args). handle_unclassified v args) bufs w)"
  using assms
proof (induction bufs arbitrary: w r)
  case (Cons b bufs)
  obtain v args where b: "b = (v, args)" by (rule prod.exhaust)
  note step = unrecognised_in_flight[OF Cons.prems(1) _ Cons.prems(2), of args v]
  show ?case
    using Cons.IH[of "if answers i args then r + ca_bytes_len args else r" "handle_unclassified v args w"] step Cons.prems
    by (cases "answers i args") (simp_all add: b add.assoc)
qed simp

lemma run_unrecognised:
  assumes "in_flight R i http_response_parsed l r pc w" "hi_start_monotime_ns i \<noteq> 0"
    and "list_all (\<lambda>(v, args). belongs_to i pc args) bufs"
  shows "in_flight R i (if list_ex (\<lambda>(v, args). answers i args) bufs then http_response_unread else http_response_parsed)
    (l + more_request i bufs) (r + all_response i bufs) pc (fold (\<lambda>(v, args). handle_unclassified v args) bufs w)"
  using assms
proof (induction bufs arbitrary: w l)
  case (Cons b bufs)
  obtain v args where b: "b = (v, args)" by (rule prod.exhaust)
  note step = unrecognised_in_flight[OF Cons.prems(1) _ Cons.prems(2), of args v]
  show ?case
  proof (cases "answers i args")
    case True
    then show ?thesis
      using run_from_unread[of R i l "r + ca_bytes_len args" pc "handle_unclassified v args w" bufs] step Cons.prems
      by (simp add: b add.assoc)
  next
    case False
    then show ?thesis
      using Cons.IH[of "l + ca_bytes_len args" "handle_unclassified v args w"] step Cons.prems
      by (simp add: b add.assoc)
  qed
qed simp

text \<open>The end of the call: the report of an open record that has become emittable.\<close>

lemma finish_reports:
  assumes "http_at w pc = Some k" "http_info_emittable k" "hi_submitted k = 0" and ok: "\<And>n. rb_ok (tv_ring (hv_tcp v)) n"
  shows "http_reports (h_ring (finish_http v pc key w)) =
    http_reports (h_ring w) @ [k\<lparr>hi_submitted := 1, hi_flags := k_event_type_k_http_request\<rparr>]"
  using finish_parts(1)[OF assms(1,2)] submit_open(1)[OF assms(1-3) ok] by simp

lemma close_reports:
  assumes f: "in_flight R i s l r pc w" "s \<in> {http_response_parsed, http_response_unread}"
    and i: "hi_start_monotime_ns i \<noteq> 0" "pi_host_pid (hi_pid i) \<noteq> 0"
    and v: "high_request_volume (h_cfg v) = 0 \<or> s = http_response_unread" and ok: "\<And>n. rb_ok (tv_ring (hv_tcp v)) n"
  shows "\<exists>j. http_reports (h_ring (force_finish_possible_delayed_http_request v pc key sk w)) = R @ [j] \<and> same_call i j \<and>
    hi_status j = 0 \<and> hi_len j = l \<and> hi_resp_len j = (if s = http_response_unread then r else 0) \<and>
    hi_response_observation j = (if s = http_response_unread then s else
      http_response_observation_at_close (hi_response_bytes_at_request i) (http_response_bytes_from_sock v sk (hi_type i)))"
proof -
  obtain k where k: "http_at w pc = Some k" "same_call i k" "hi_status k = 0" "hi_submitted k = 0" "hi_delayed k = 0"
    "hi_response_observation k = s" "hi_len k = l" "hi_resp_len k = r" and R: "http_reports (h_ring w) = R"
    using f by (auto simp: in_flight_def)
  define w1 where "w1 = cleanup_incomplete_http_server_thread_trace v k key w"
  have w1: "http_at w1 pc = Some k" "h_ring w1 = h_ring w"
    using k(1) by (simp_all add: w1_def cleanup_incomplete_http_server_thread_trace_def cleanup_http_server_thread_trace_def)
  define o' where "o' = http_response_observation_at_close (hi_response_bytes_at_request k) (http_response_bytes_from_sock v sk (hi_type k))"
  have o': "o' \<noteq> http_response_parsed" by (simp add: o'_def http_response_observation_at_close_def)
  define t where "t = fst (http_now v w1)"
  define j w2 where "j = (if s = http_response_unread then k else k\<lparr>hi_resp_len := 0, hi_end_monotime_ns := t, hi_response_observation := o'\<rparr>)"
    and "w2 = (if s = http_response_unread then w1 else put_http pc j (snd (http_now v w1)))"
  have w2: "http_at w2 pc = Some j" "h_ring w2 = h_ring w" using w1 by (simp_all add: w2_def j_def)
  have j: "http_info_emittable j" "hi_submitted j = 0"
    using k i o' by (auto simp: j_def http_info_emittable_def same_call_def)
  have "http_reports (h_ring (force_finish_possible_delayed_http_request v pc key sk w)) = http_reports (h_ring (finish_http v pc key w2))"
    using k v f(2) w1(1)
    by (auto simp: force_finish_possible_delayed_http_request_def cleanup_http_info_def Let_def w1_def[symmetric] force_finish_http_def
        http_info_complete_def w2_def j_def t_def o'_def case_prod_beta)
  also have "\<dots> = R @ [j\<lparr>hi_submitted := 1, hi_flags := k_event_type_k_http_request\<rparr>]"
    using finish_reports[OF w2(1) j ok] w2(2) R by simp
  finally show ?thesis using k by (auto simp: j_def o'_def same_call_def)
qed

lemma displaced_reports:
  assumes f: "in_flight R i s l r pc w" "s \<in> {http_response_parsed, http_response_unread}"
    and i: "hi_start_monotime_ns i \<noteq> 0" "pi_host_pid (hi_pid i) \<noteq> 0" and ok: "\<And>n. rb_ok (tv_ring (hv_tcp v)) n"
    and g: "get_or_set_http_info v fresh pc PACKET_TYPE_REQUEST d sk w = (present, w')"
  shows "if present then http_at w' pc = Some fresh \<and>
      (\<exists>j. http_reports (h_ring w') = R @ [j] \<and> same_call i j \<and> hi_status j = 0 \<and> hi_len j = l \<and>
        hi_resp_len j = (if s = http_response_unread then r else 0) \<and>
        hi_response_observation j = (if s = http_response_unread then s else http_response_received))
    else s = http_response_parsed \<and> http_at w' pc = http_at w pc \<and> http_reports (h_ring w') = R"
proof -
  obtain k where k: "http_at w pc = Some k" "same_call i k" "hi_status k = 0" "hi_submitted k = 0" "hi_delayed k = 0"
    "hi_response_observation k = s" "hi_len k = l" "hi_resp_len k = r" and R: "http_reports (h_ring w) = R"
    using f by (auto simp: in_flight_def)
  define w0 where "w0 = w\<lparr>hw_tcp := cleanup_tcp_trace_info_if_needed ((hv_tcp v)\<lparr>tv_rt := hw_rt w\<rparr>) pc (hw_tcp w)\<rparr>"
  have w0: "http_at w0 pc = Some k" "h_ring w0 = h_ring w"
    using k(1) by (simp_all add: w0_def cleanup_tcp_trace_info_if_needed_def case_prod_beta split: option.split)
  define ask where "ask \<longleftrightarrow> hi_type k = request_type_by_direction d PACKET_TYPE_REQUEST \<and>
    http_response_pending k (http_response_bytes_from_sock v sk (hi_type k))"
  define w1 where "w1 = (if ask then snd (is_duplicate_info v k w0) else w0)"
  have w1: "http_at w1 pc = Some k" "h_ring w1 = h_ring w"
    using w0 by (simp_all add: w1_def is_duplicate_info_def Let_def case_prod_beta)
  define w2 where "w2 = cleanup_incomplete_http_server_thread_trace v k None w1"
  have w2: "http_at w2 pc = Some k" "h_ring w2 = h_ring w"
    using w1 by (simp_all add: w2_def cleanup_incomplete_http_server_thread_trace_def cleanup_http_server_thread_trace_def)
  define j where "j = note_displaced_by_next_request k (fst (http_now v w2))"
  have j: "http_info_emittable j" "hi_submitted j = 0" "same_call i j" "hi_status j = 0" "hi_len j = l"
    "hi_resp_len j = (if s = http_response_unread then r else 0)"
    "hi_response_observation j = (if s = http_response_unread then s else http_response_received)"
    using k i f(2) by (auto simp: j_def note_displaced_by_next_request_def http_info_emittable_def same_call_def still_reading_def)
  define w3 where "w3 = put_http pc j (snd (http_now v w2))"
  have w3: "http_at w3 pc = Some j" "h_ring w3 = h_ring w" using w2 by (simp_all add: w3_def)
  have c: "\<not> http_info_complete k" using k(3) by (simp add: http_info_complete_def)
  have e: "(present, w') = (if ask \<and> fst (is_duplicate_info v k w0) then (False, w1)
      else (True, put_http pc fresh (finish_http v pc None w3)))"
    using g k(1,4) w0(1) c
    by (simp add: get_or_set_http_info_def displace_http_info_def w0_def[symmetric] Let_def case_prod_beta ask_def[symmetric]
        w1_def w2_def w3_def j_def split: if_splits)
  show ?thesis
  proof (cases "ask \<and> fst (is_duplicate_info v k w0)")
    case True
    then have "s = http_response_parsed" using k by (simp add: ask_def http_response_pending_def still_reading_def)
    then show ?thesis using e True w1 k R by (auto simp: in_flight_def)
  next
    case False
    then show ?thesis using e finish_reports[OF w3(1) j(1,2) ok, of None] w3(2) R j by (auto simp: same_call_def)
  qed
qed

lemma observation_at_close:
  "http_response_observation_at_close a b = (if unat a + 1 < unat b then http_response_received else http_response_silent)"
proof -
  have "a < b \<and> b - a > 1 \<longleftrightarrow> unat a + 1 < unat b"
    by (cases "a < b") (auto simp: word_less_nat_alt unat_sub word_le_nat_alt)
  then show ?thesis
    by (auto simp: http_response_observation_at_close_def http_response_bytes_advanced_def
        HTTP_RESPONSE_BYTES_FIN_TOLERANCE_def not_le)
qed

text \<open>The report of a call whose status is not known: \<open>seen\<close> says whether its response came by unparsed.\<close>

definition reported_unparsed ::
  "http_info \<Rightarrow> (http_env \<times> call_protocol_args) list \<Rightarrow> bool \<Rightarrow> http_response_observation \<Rightarrow> http_info \<Rightarrow> bool" where
  "reported_unparsed i bufs seen otherwise j \<longleftrightarrow> same_call i j \<and> hi_status j = 0 \<and> hi_len j = hi_len i + more_request i bufs \<and>
     hi_resp_len j = (if seen then hi_resp_len i + all_response i bufs else 0) \<and>
     hi_response_observation j = (if seen then http_response_unread else otherwise)"

text \<open>
  C5: A request in flight whose response no parser recognises is reported once, without a status. Let
  any buffers arrive for it that are no HTTP message and no other protocol's. They are counted, in the
  request's length until the first one that travels in the response's direction and in the response's
  length from then on in that direction, and nothing is reported. If the connection is then closed,
  outside of high request volume or after a buffer of the response, there is exactly one report more:
  the call's own, saying that its response came unread or, when no buffer of it was seen, whether the
  socket counted more than one byte of it. If instead the next request arrives on the connection, it
  is either taken for a second sighting of the waiting one, which never happens after a buffer of the
  response and changes neither record nor reports, or the call is reported exactly once, as unread or
  ended by its successor, and the new request's record takes its place.
\<close>

theorem http_unanswered_reported:
  assumes "http_at w pc = Some i" "still_reading i" "pi_host_pid (hi_pid i) \<noteq> 0" "hi_submitted i = 0" "hi_delayed i = 0"
    and "list_all (\<lambda>(v, args). belongs_to i pc args) bufs" and "\<And>n. rb_ok (tv_ring (hv_tcp v)) n"
    and "seen = list_ex (\<lambda>(v, args). answers i args) bufs"
    and "w1 = fold (\<lambda>(v, args). handle_unclassified v args) bufs w"
    and "get_or_set_http_info v fresh pc PACKET_TYPE_REQUEST d sk w1 = (present, w2)"
  shows "http_reports (h_ring w1) = http_reports (h_ring w) \<and>
    (high_request_volume (h_cfg v) = 0 \<or> seen \<longrightarrow>
      (\<exists>j. http_reports (h_ring (force_finish_possible_delayed_http_request v pc key sk w1)) = http_reports (h_ring w) @ [j] \<and>
        reported_unparsed i bufs seen
          (if unat (hi_response_bytes_at_request i) + 1 < unat (http_response_bytes_from_sock v sk (hi_type i))
           then http_response_received else http_response_silent) j)) \<and>
    (if present
     then http_at w2 pc = Some fresh \<and>
       (\<exists>j. http_reports (h_ring w2) = http_reports (h_ring w) @ [j] \<and> reported_unparsed i bufs seen http_response_received j)
     else \<not> seen \<and> http_at w2 pc = http_at w1 pc \<and> http_reports (h_ring w2) = http_reports (h_ring w))"
proof -
  let ?s = "if seen then http_response_unread else http_response_parsed"
  have i: "hi_start_monotime_ns i \<noteq> 0" "hi_status i = 0" "hi_response_observation i = http_response_parsed"
    using assms(2) by (simp_all add: still_reading_def)
  have "in_flight (http_reports (h_ring w)) i http_response_parsed (hi_len i) (hi_resp_len i) pc w"
    using assms(1,4,5) i by (simp add: in_flight_def same_call_def)
  from run_unrecognised[OF this i(1) assms(6)]
  have f: "in_flight (http_reports (h_ring w)) i ?s (hi_len i + more_request i bufs) (hi_resp_len i + all_response i bufs) pc w1"
    by (simp add: assms(8,9))
  have s: "?s \<in> {http_response_parsed, http_response_unread}" by simp
  have r: "http_reports (h_ring w1) = http_reports (h_ring w)" using f by (simp add: in_flight_def)
  note d = displaced_reports[OF f s i(1) assms(3,7,10)]
  note c = close_reports[OF f s i(1) assms(3) _ assms(7), of key sk]
  show ?thesis
    using r c d by (cases seen; cases present) (simp_all add: reported_unparsed_def observation_at_close)
qed

text \<open>A request that was served and whose response was sent in a form no parser knows.\<close>

definition sample_raw_buffer :: call_protocol_args where
  "sample_raw_buffer = (sample_http_args (replicate 24 1))\<lparr>ca_pid_conn := sample_pc, ca_direction := TCP_SEND, ca_bytes_len := 10\<rparr>"

theorem http_unanswered_reported_witness:
  "\<exists>j. http_reports (h_ring (force_finish_possible_delayed_http_request sample_http_env sample_pc None 0
       (handle_unclassified sample_http_env sample_raw_buffer (put_http sample_pc sample_open_http empty_http_world)))) = [j] \<and>
     hi_status j = 0 \<and> hi_start_monotime_ns j = 900 \<and> hi_resp_len j = 10 \<and> hi_response_observation j = http_response_unread"
proof -
  let ?w = "put_http sample_pc sample_open_http empty_http_world"
  have r: "http_reports (h_ring ?w) = []"
    by (simp add: empty_http_world_def empty_tcp_world_def http_reports_def empty_proto_def empty_ring_def shipped_def)
  obtain present w2 where g: "get_or_set_http_info sample_http_env zero_http_info sample_pc PACKET_TYPE_REQUEST TCP_RECV 0
      (handle_unclassified sample_http_env sample_raw_buffer ?w) = (present, w2)" by (rule prod.exhaust)
  have i: "still_reading sample_open_http" "pi_host_pid (hi_pid sample_open_http) \<noteq> 0" "hi_submitted sample_open_http = 0"
    "hi_delayed sample_open_http = 0" "hi_len sample_open_http = 0" "hi_resp_len sample_open_http = 0"
    "hi_start_monotime_ns sample_open_http = 900"
    by (simp_all add: sample_open_http_def zero_http_info_def still_reading_def)
  have b: "belongs_to sample_open_http sample_pc sample_raw_buffer" "answers sample_open_http sample_raw_buffer"
    "ca_bytes_len sample_raw_buffer = 10"
    by (simp_all add: belongs_to_def answers_def sample_open_http_def zero_http_info_def sample_raw_buffer_def sample_http_args_def
        event_types)
  have ok: "rb_ok (tv_ring (hv_tcp sample_http_env)) n" for n
    by (simp add: sample_http_env_def sample_tcp_env_def sample_ring_env_def)
  show ?thesis
    using http_unanswered_reported[of ?w sample_pc sample_open_http "[(sample_http_env, sample_raw_buffer)]" sample_http_env,
        OF _ i(1-4) _ ok refl refl, of zero_http_info TCP_RECV 0 present w2 None] g b r i(5-7)
    by (auto simp: reported_unparsed_def same_call_def)
qed

end
