(* ===== verification/Tls_Correlation.thy ===== *)
theory Tls_Correlation
  imports Sock_Addr "HOL-Library.Monad_Syntax"
begin

section \<open>Correlating TLS sessions with sockets\<close>

text \<open>
  Models \<open>bpf/common/tls_record.h\<close>, \<open>bpf/common/ssl_args.h\<close>, \<open>bpf/common/ssl_helpers.h\<close> and
  \<open>bpf/generictracer/tls_prefix.h\<close>. A session writing through memory BIOs is bound to its socket by
  the leading bytes of a record: they are registered when the record reaches the write BIO and
  looked up when the socket sends. The five maps involved are fields of one state record; they are
  least-recently-used maps, so the history relation \<open>tls_run\<close> lets any of them lose entries between
  two operations. The per-CPU scratch is rebuilt before each use; only whether its lookup succeeds
  is part of the environment.
\<close>

unbundle bit_operations_syntax

subsection \<open>Data\<close>

definition k_tls_hdr_len :: nat where "k_tls_hdr_len = 5"
definition k_tls_ct_change_cipher_spec :: u8 where "k_tls_ct_change_cipher_spec = 0x14"
definition k_tls_ct_alert :: u8 where "k_tls_ct_alert = 0x15"
definition k_tls_ct_handshake :: u8 where "k_tls_ct_handshake = 0x16"
definition k_tls_ct_app_data :: u8 where "k_tls_ct_app_data = 0x17"
definition k_tls_version_major :: u8 where "k_tls_version_major = 3"
definition k_tls_prefix_max :: nat where "k_tls_prefix_max = 32"
definition k_tls_key_min_len :: nat where "k_tls_key_min_len = k_tls_hdr_len + 16"
definition k_tls_prefix_max_age_ns :: u64 where "k_tls_prefix_max_age_ns = 1000000000"
definition FLAG_CONNECTED :: u64 where "FLAG_CONNECTED = 1"

lemmas tls_consts = k_tls_hdr_len_def k_tls_prefix_max_def k_tls_key_min_len_def

record tls_prefix_key =
  tk_bytes :: bytes
  tk_len :: u8

record pid_ptr_key =
  pp_ptr :: u64
  pp_pid :: u32

definition pid_ptr_key :: "u32 \<Rightarrow> u64 \<Rightarrow> pid_ptr_key" where
  "pid_ptr_key pid ptr = \<lparr>pp_ptr = ptr, pp_pid = pid\<rparr>"

record bio_ssl_info =
  bi_ssl :: u64
  bi_is_wbio :: u8

record ssl_bios =
  sb_rbio :: u64
  sb_wbio :: u64

record tls_prefix_val =
  tv_ssl :: u64
  tv_ts_ns :: u64
  tv_pid :: u32

record ssl_args =
  sg_ssl :: u64
  sg_buf :: u64
  sg_len_ptr :: u64
  sg_flags :: u64

record tls_maps =
  bio_to_ssl :: "pid_ptr_key \<rightharpoonup> bio_ssl_info"
  ssl_to_bios :: "pid_ptr_key \<rightharpoonup> ssl_bios"
  tls_prefix_to_ssl :: "tls_prefix_key \<rightharpoonup> tls_prefix_val"
  ssl_to_conn :: "pid_ptr_key \<rightharpoonup> ssl_pid_connection_info"
  active_ssl_connections :: "pid_connection_info \<rightharpoonup> u64"
  active_ssl_read_args :: "u64 \<rightharpoonup> ssl_args"
  active_ssl_write_args :: "u64 \<rightharpoonup> ssl_args"

text \<open>What the helpers give one invocation: the caller's identity, the clock, user memory, scratch.\<close>

record tls_env =
  te_pid_tgid :: u64
  te_now :: u64
  te_mem :: mem
  te_scratch :: bool

subsection \<open>Record keys\<close>

definition tls_record_plausible_start :: "bytes \<Rightarrow> u32 \<Rightarrow> bool option" where
  "tls_record_plausible_start hdr avail =
     (if unat avail < k_tls_hdr_len then Some False
      else do {
        content_type \<leftarrow> rd hdr 0;
        if content_type \<noteq> k_tls_ct_change_cipher_spec \<and> content_type \<noteq> k_tls_ct_alert \<and>
           content_type \<noteq> k_tls_ct_handshake \<and> content_type \<noteq> k_tls_ct_app_data
        then Some False
        else do { v \<leftarrow> rd hdr 1; Some (v = k_tls_version_major) }
      })"

definition tls_record_key_len :: "bytes \<Rightarrow> u32 \<Rightarrow> u32 option" where
  "tls_record_key_len hdr avail = do {
     ok \<leftarrow> tls_record_plausible_start hdr avail;
     if \<not> ok then Some 0
     else do {
       hi \<leftarrow> rd hdr 3;
       lo \<leftarrow> rd hdr 4;
       let fragment_len = (push_bit 8 (ucast hi :: u32)) OR ucast lo;
       if fragment_len = 0 then Some 0
       else do {
         let record_len = of_nat k_tls_hdr_len + fragment_len;
         let key_len = (if record_len < avail then record_len else avail);
         if unat key_len < k_tls_key_min_len then Some 0
         else if unat key_len > k_tls_prefix_max then Some (of_nat k_tls_prefix_max)
         else Some key_len
       }
     }
   }"

definition empty_prefix_key :: tls_prefix_key where
  "empty_prefix_key = \<lparr>tk_bytes = replicate k_tls_prefix_max 0, tk_len = 0\<rparr>"

text \<open>Every byte of the unrolled copy loads at the clamped index, needed or not.\<close>

definition tls_prefix_key_from_buf :: "bytes \<Rightarrow> u32 \<Rightarrow> u32 \<Rightarrow> (u32 \<times> tls_prefix_key) option" where
  "tls_prefix_key_from_buf src copied avail =
     (if unat copied < k_tls_hdr_len then Some (0, empty_prefix_key)
      else do {
        key_len \<leftarrow> tls_record_key_len src avail;
        if key_len = 0 \<or> key_len > copied then Some (0, empty_prefix_key)
        else do {
          let n = unat key_len;
          bs \<leftarrow> those (map (\<lambda>i. do {
                  v \<leftarrow> rd src (if i < n then i else n - 1);
                  Some (if i < n then v else 0) }) [0..<k_tls_prefix_max]);
          Some (key_len, \<lparr>tk_bytes = bs, tk_len = ucast key_len\<rparr>)
        }
      })"

subsection \<open>BIO ownership\<close>

definition ssl_bios_forget :: "u32 \<Rightarrow> u64 \<Rightarrow> tls_maps \<Rightarrow> tls_maps" where
  "ssl_bios_forget pid ssl m =
     (case ssl_to_bios m (pid_ptr_key pid ssl) of None \<Rightarrow> m
      | Some bios \<Rightarrow>
          let m = (if sb_rbio bios \<noteq> 0
                   then m\<lparr>bio_to_ssl := map_del (pid_ptr_key pid (sb_rbio bios)) (bio_to_ssl m)\<rparr> else m);
              m = (if sb_wbio bios \<noteq> 0
                   then m\<lparr>bio_to_ssl := map_del (pid_ptr_key pid (sb_wbio bios)) (bio_to_ssl m)\<rparr> else m)
          in m\<lparr>ssl_to_bios := map_del (pid_ptr_key pid ssl) (ssl_to_bios m)\<rparr>)"

definition ssl_bios_track :: "u32 \<Rightarrow> u64 \<Rightarrow> u64 \<Rightarrow> u64 \<Rightarrow> tls_maps \<Rightarrow> tls_maps" where
  "ssl_bios_track pid ssl rbio wbio m =
     (let m = ssl_bios_forget pid ssl m;
          m = (if rbio \<noteq> 0
               then m\<lparr>bio_to_ssl := (bio_to_ssl m)(pid_ptr_key pid rbio \<mapsto> \<lparr>bi_ssl = ssl, bi_is_wbio = 0\<rparr>)\<rparr>
               else m);
          m = (if wbio \<noteq> 0
               then m\<lparr>bio_to_ssl := (bio_to_ssl m)(pid_ptr_key pid wbio \<mapsto> \<lparr>bi_ssl = ssl, bi_is_wbio = 1\<rparr>)\<rparr>
               else m)
      in m\<lparr>ssl_to_bios := (ssl_to_bios m)(pid_ptr_key pid ssl \<mapsto> \<lparr>sb_rbio = rbio, sb_wbio = wbio\<rparr>)\<rparr>)"

definition bio_owner_is_current :: "u32 \<Rightarrow> u64 \<Rightarrow> bio_ssl_info \<Rightarrow> tls_maps \<Rightarrow> bool" where
  "bio_owner_is_current pid bio info m =
     (case ssl_to_bios m (pid_ptr_key pid (bi_ssl info)) of None \<Rightarrow> False
      | Some bios \<Rightarrow> if bi_is_wbio info \<noteq> 0 then sb_wbio bios = bio else sb_rbio bios = bio)"

definition tls_prefix_needs_binding :: "u32 \<Rightarrow> u64 \<Rightarrow> tls_maps \<Rightarrow> bool" where
  "tls_prefix_needs_binding pid ssl m =
     (case ssl_to_conn m (pid_ptr_key pid ssl) of None \<Rightarrow> True | Some c \<Rightarrow> sp_orig_dport c = 0)"

subsection \<open>Binding\<close>

definition set_active_ssl_connection :: "ssl_pid_connection_info \<Rightarrow> u64 \<Rightarrow> tls_maps \<Rightarrow> tls_maps" where
  "set_active_ssl_connection c ssl m =
     m\<lparr>active_ssl_connections := (active_ssl_connections m)(sp_conn c \<mapsto> ssl),
       ssl_to_conn := (ssl_to_conn m)(pid_ptr_key (pc_pid (sp_conn c)) ssl \<mapsto> c)\<rparr>"

definition lookup_ssl_conn :: "u32 \<Rightarrow> u64 \<Rightarrow> tls_maps \<Rightarrow> ssl_pid_connection_info option" where
  "lookup_ssl_conn pid ssl m = ssl_to_conn m (pid_ptr_key pid ssl)"

definition tls_prefix_register_egress ::
  "tls_env \<Rightarrow> u64 \<Rightarrow> u64 \<Rightarrow> u32 \<Rightarrow> tls_maps \<Rightarrow> tls_maps option" where
  "tls_prefix_register_egress e bio buf len m =
     (if sint len < int k_tls_hdr_len then Some m
      else let pid = pid_from_pid_tgid (te_pid_tgid e); bio_key = pid_ptr_key pid bio in
      case bio_to_ssl m bio_key of None \<Rightarrow> Some m
      | Some info \<Rightarrow>
        if \<not> bio_owner_is_current pid bio info m then Some (m\<lparr>bio_to_ssl := map_del bio_key (bio_to_ssl m)\<rparr>)
        else if bi_is_wbio info = 0 then Some m
        else if \<not> tls_prefix_needs_binding pid (bi_ssl info) m then Some m
        else case probe_read (te_mem e) (unat buf) k_tls_hdr_len of None \<Rightarrow> Some m
        | Some hdr \<Rightarrow> do {
            key_len \<leftarrow> tls_record_key_len hdr len;
            if key_len = 0 then Some m
            else let n = min (unat key_len) k_tls_prefix_max in
            if \<not> te_scratch e then Some m
            else case probe_read (te_mem e) (unat buf) n of None \<Rightarrow> Some m
            | Some bs \<Rightarrow> do {
                (l, key) \<leftarrow> tls_prefix_key_from_buf (bs @ replicate (k_tls_prefix_max - n) 0) (of_nat n) len;
                if l = 0 then Some m
                else Some (m\<lparr>tls_prefix_to_ssl := (tls_prefix_to_ssl m)(key \<mapsto>
                       \<lparr>tv_ssl = bi_ssl info, tv_ts_ns = te_now e, tv_pid = pid\<rparr>)\<rparr>)
              }
          })"

definition tls_prefix_try_bind ::
  "tls_env \<Rightarrow> u64 \<Rightarrow> bytes \<Rightarrow> u32 \<Rightarrow> u32 \<Rightarrow> pid_connection_info \<Rightarrow> u16 \<Rightarrow> tls_maps \<Rightarrow>
     (bool \<times> tls_maps) option" where
  "tls_prefix_try_bind e i buf copied avail p_conn orig_dport m = do {
     ok \<leftarrow> tls_record_plausible_start buf copied;
     if \<not> ok then Some (False, m)
     else if \<not> te_scratch e then Some (False, m)
     else do {
       (l, key) \<leftarrow> tls_prefix_key_from_buf buf copied avail;
       if l = 0 then Some (False, m)
       else case tls_prefix_to_ssl m key of None \<Rightarrow> Some (False, m)
       | Some val \<Rightarrow>
           if tv_pid val \<noteq> pid_from_pid_tgid i then Some (False, m)
           else if te_now e - tv_ts_ns val > k_tls_prefix_max_age_ns
           then Some (False, m\<lparr>tls_prefix_to_ssl := map_del key (tls_prefix_to_ssl m)\<rparr>)
           else let m = set_active_ssl_connection \<lparr>sp_conn = p_conn, sp_orig_dport = orig_dport\<rparr> (tv_ssl val) m
                in Some (True, m\<lparr>tls_prefix_to_ssl := map_del key (tls_prefix_to_ssl m)\<rparr>)
     }
   }"

subsection \<open>Binding from the arguments of a running SSL call\<close>

definition ssl_args_connected :: "ssl_args \<Rightarrow> bool" where
  "ssl_args_connected a = (ucast (sg_flags a AND FLAG_CONNECTED) \<noteq> (0 :: u8))"

definition set_ssl_args_connected :: "ssl_args \<Rightarrow> ssl_args" where
  "set_ssl_args_connected a = a\<lparr>sg_flags := sg_flags a OR FLAG_CONNECTED\<rparr>"

text \<open>A null pointer is 0: the caller cannot tell a null \<open>ssl\<close> from no entry.\<close>

definition unconnected_ssl_from_args :: "u64 \<Rightarrow> u8 \<Rightarrow> tls_maps \<Rightarrow> u64 \<times> tls_maps" where
  "unconnected_ssl_from_args i direction m =
     (if direction = TCP_RECV then
        (case active_ssl_read_args m i of None \<Rightarrow> (0, m)
         | Some a \<Rightarrow> if ssl_args_connected a then (0, m)
             else (sg_ssl a, m\<lparr>active_ssl_read_args := (active_ssl_read_args m)(i \<mapsto> set_ssl_args_connected a)\<rparr>))
      else if direction = TCP_SEND then
        (case active_ssl_write_args m i of None \<Rightarrow> (0, m)
         | Some a \<Rightarrow> if ssl_args_connected a then (0, m)
             else (sg_ssl a, m\<lparr>active_ssl_write_args := (active_ssl_write_args m)(i \<mapsto> set_ssl_args_connected a)\<rparr>))
      else (0, m))"

definition zero_conn :: connection_info where
  "zero_conn = \<lparr>s_addr = replicate IP_V6_ADDR_LEN 0, d_addr = replicate IP_V6_ADDR_LEN 0, s_port = 0, d_port = 0\<rparr>"

definition connect_ssl_to_sock :: "u64 \<Rightarrow> sock option \<Rightarrow> u8 \<Rightarrow> tls_maps \<Rightarrow> tls_maps" where
  "connect_ssl_to_sock i sk direction m =
     (case unconnected_ssl_from_args i direction m of (ssl, m) \<Rightarrow>
        if ssl = 0 then m
        else case parse_sock_info sk zero_conn of
            (False, _) \<Rightarrow> m
          | (True, c) \<Rightarrow> set_active_ssl_connection
              \<lparr>sp_conn = \<lparr>pc_conn = sort_connection_info c, pc_pid = pid_from_pid_tgid i\<rparr>,
               sp_orig_dport = d_port c\<rparr> ssl m)"

definition connect_ssl_to_connection ::
  "u64 \<Rightarrow> pid_connection_info \<Rightarrow> u8 \<Rightarrow> u16 \<Rightarrow> tls_maps \<Rightarrow> tls_maps" where
  "connect_ssl_to_connection i p_conn direction orig_dport m =
     (case unconnected_ssl_from_args i direction m of (ssl, m) \<Rightarrow>
        if ssl = 0 then m
        else set_active_ssl_connection \<lparr>sp_conn = p_conn, sp_orig_dport = orig_dport\<rparr> ssl m)"

subsection \<open>Keys as numbers\<close>

definition tls_head :: "bytes \<Rightarrow> bool" where
  "tls_head b \<longleftrightarrow> b ! 0 \<in> {0x14, 0x15, 0x16, 0x17} \<and> b ! 1 = 3"

definition tls_frag :: "bytes \<Rightarrow> nat" where
  "tls_frag b = unat (b ! 3) * 256 + unat (b ! 4)"

definition key_width :: "bytes \<Rightarrow> nat \<Rightarrow> nat" where
  "key_width b n = (if tls_head b \<and> 0 < tls_frag b \<and> 21 \<le> min (5 + tls_frag b) n
     then min 32 (min (5 + tls_frag b) n) else 0)"

lemma tls_frag_less: "tls_frag b < 65536"
  using unat_u8_less[of "b ! 3"] unat_u8_less[of "b ! 4"] unfolding tls_frag_def by linarith

lemma plausible_start:
  assumes "5 \<le> length b"
  shows "tls_record_plausible_start b avail = Some (5 \<le> unat avail \<and> tls_head b)"
proof -
  have "rd b 0 = Some (b ! 0)" "rd b 1 = Some (b ! 1)" using assms by (auto simp: rd_Some)
  then show ?thesis
    by (auto simp: tls_record_plausible_start_def tls_consts tls_head_def
        k_tls_ct_change_cipher_spec_def k_tls_ct_alert_def k_tls_ct_handshake_def
        k_tls_ct_app_data_def k_tls_version_major_def)
qed

lemma key_width_le: "key_width b n \<le> 32" "key_width b n \<le> n"
  by (auto simp: key_width_def)

lemma key_len:
  assumes "5 \<le> length b"
  shows "tls_record_key_len b avail = Some (word_of_nat (key_width b (unat avail)))"
proof -
  define w :: u32 where "w = push_bit 8 (ucast (b ! 3)) OR ucast (b ! 4)"
  have w: "unat w = tls_frag b"
    unfolding w_def tls_frag_def using unat_u8_less[of "b ! 3"]
    by (subst unat_push8_or) (simp_all del: unat_u8_less)
  have w0: "w = 0 \<longleftrightarrow> tls_frag b = 0"
    using w by (metis unat_eq_0)
  have r: "unat (5 + w) = 5 + tls_frag b"
    using tls_frag_less[of b] by (subst unat_word_ariths) (simp add: w)
  have less: "5 + w < avail \<longleftrightarrow> 5 + tls_frag b < unat avail"
    by (simp add: word_less_nat_alt r)
  define kl where "kl = (if 5 + w < avail then 5 + w else avail)"
  have kl: "unat kl = min (5 + tls_frag b) (unat avail)"
    by (simp add: kl_def less r min_def)
  have "tls_record_key_len b avail =
    (if \<not> (5 \<le> unat avail \<and> tls_head b) then Some 0
     else if w = 0 then Some 0
     else if unat kl < 21 then Some 0 else if 32 < unat kl then Some 32 else Some kl)"
    using assms
    by (simp add: tls_record_key_len_def plausible_start tls_consts Let_def flip: w_def kl_def)
  also have "\<dots> = Some (word_of_nat (key_width b (unat avail)))"
  proof (cases "21 \<le> unat kl \<and> unat kl \<le> 32")
    case True
    then have "key_width b (unat avail) = (if tls_head b \<and> 0 < tls_frag b then unat kl else 0)"
      unfolding key_width_def kl[symmetric] by simp
    moreover have "5 \<le> unat avail" using True kl by simp
    ultimately show ?thesis using True w0 by simp
  next
    case False
    then show ?thesis unfolding key_width_def w0 kl by (auto simp: min_def)
  qed
  finally show ?thesis .
qed

lemma key_width_unat: "unat (word_of_nat (key_width b n) :: u32) = key_width b n"
  using key_width_le(1)[of b n] by (simp add: unat_of_nat)

text \<open>The key a record prefix of the given width makes.\<close>

definition prefix_key :: "bytes \<Rightarrow> nat \<Rightarrow> tls_prefix_key" where
  "prefix_key b n = \<lparr>tk_bytes = take n b @ replicate (32 - n) 0, tk_len = word_of_nat n\<rparr>"

lemma those_Some: "(\<And>x. x \<in> set xs \<Longrightarrow> f x = Some (g x)) \<Longrightarrow> those (map f xs) = Some (map g xs)"
  by (induction xs) auto

lemma key_from_buf:
  assumes "5 \<le> length src" "unat copied \<le> length src"
  shows "tls_prefix_key_from_buf src copied avail =
    (let n = key_width src (unat avail)
     in if 5 \<le> unat copied \<and> n \<noteq> 0 \<and> n \<le> unat copied then Some (word_of_nat n, prefix_key src n)
        else Some (0, empty_prefix_key))"
proof -
  define n where "n = key_width src (unat avail)"
  have u: "unat (word_of_nat n :: u32) = n" unfolding n_def by (rule key_width_unat)
  have z: "(word_of_nat n :: u32) = 0 \<longleftrightarrow> n = 0" using u by (metis unat_eq_0)
  have c: "ucast (word_of_nat n :: u32) = (word_of_nat n :: u8)"
    using of_nat_unat[of "word_of_nat n :: u32"] u by metis
  have g: "word_of_nat n > copied \<longleftrightarrow> n > unat copied" by (simp add: word_less_nat_alt u)
  have "those (map (\<lambda>i. do { v \<leftarrow> rd src (if i < n then i else n - 1);
                  Some (if i < n then v else 0) }) [0..<k_tls_prefix_max])
     = Some (map (\<lambda>i. if i < n then src ! i else 0) [0..<32])" if "n \<noteq> 0" "n \<le> unat copied"
    using that assms
    by (subst those_Some[where g = "\<lambda>i. if i < n then src ! i else 0"]) (auto simp: tls_consts)
  moreover have "map (\<lambda>i. if i < n then src ! i else 0) [0..<32] = take n src @ replicate (32 - n) 0"
    if "n \<le> unat copied"
    using that assms key_width_le(1)[of src "unat avail"]
    by (auto intro!: nth_equalityI simp: nth_append n_def)
  ultimately show ?thesis
    using assms u z g c
    by (auto simp: tls_prefix_key_from_buf_def key_len Let_def tls_consts prefix_key_def
        simp flip: n_def)
qed

subsection \<open>From the record to the binding\<close>

lemma key_width_cong: "take 5 b = take 5 c \<Longrightarrow> key_width b n = key_width c n"
proof -
  assume t: "take 5 b = take 5 c"
  then have n: "b ! i = c ! i" if "i < 5" for i
    using that by (metis nth_take)
  have "b ! 0 = c ! 0" "b ! 1 = c ! 1" "b ! 3 = c ! 3" "b ! 4 = c ! 4"
    by (rule n; simp)+
  then have "tls_head b = tls_head c" "tls_frag b = tls_frag c"
    by (simp_all add: tls_head_def tls_frag_def)
  then show ?thesis
    by (simp add: key_width_def)
qed

lemma prefix_key_cong: "take n b = take n c \<Longrightarrow> prefix_key b n = prefix_key c n"
  by (simp add: prefix_key_def)

lemma probe_read_take:
  "probe_read m a n = Some bs \<Longrightarrow> k \<le> n \<Longrightarrow> probe_read m a k = Some (take k bs)"
proof (induction n arbitrary: a k bs)
  case (Suc n)
  then show ?case by (cases k) (auto split: option.splits bind_splits)
qed simp

lemma track_lookup:
  assumes "wbio \<noteq> 0"
  shows "bio_to_ssl (ssl_bios_track pid ssl rbio wbio m) (pid_ptr_key pid wbio) = Some \<lparr>bi_ssl = ssl, bi_is_wbio = 1\<rparr>"
    and "ssl_to_bios (ssl_bios_track pid ssl rbio wbio m) (pid_ptr_key pid ssl) = Some \<lparr>sb_rbio = rbio, sb_wbio = wbio\<rparr>"
  using assms by (simp_all add: ssl_bios_track_def Let_def)

lemma forget_other [simp]:
  "tls_prefix_to_ssl (ssl_bios_forget pid ssl m) = tls_prefix_to_ssl m"
  "ssl_to_conn (ssl_bios_forget pid ssl m) = ssl_to_conn m"
  "active_ssl_connections (ssl_bios_forget pid ssl m) = active_ssl_connections m"
  by (simp_all add: ssl_bios_forget_def Let_def split: option.split)

lemma track_other [simp]:
  "tls_prefix_to_ssl (ssl_bios_track pid ssl rbio wbio m) = tls_prefix_to_ssl m"
  "ssl_to_conn (ssl_bios_track pid ssl rbio wbio m) = ssl_to_conn m"
  "active_ssl_connections (ssl_bios_track pid ssl rbio wbio m) = active_ssl_connections m"
  by (simp_all add: ssl_bios_track_def Let_def)

text \<open>One whole record, as OpenSSL hands it to a BIO, wide enough to be a key.\<close>

definition tls_record :: "bytes \<Rightarrow> bool" where
  "tls_record b \<longleftrightarrow> tls_head b \<and> length b = 5 + tls_frag b \<and> 16 \<le> tls_frag b"

lemma record_width: "tls_record b \<Longrightarrow> length b \<le> n \<Longrightarrow> key_width b n = min 32 (length b)"
  by (auto simp: key_width_def tls_record_def)

lemma register_record:
  assumes "tls_record b" "probe_read (te_mem e) (unat buf) (length b) = Some b" "te_scratch e"
    and pid: "pid = pid_from_pid_tgid (te_pid_tgid e)"
    and "bio_to_ssl m (pid_ptr_key pid bio) = Some \<lparr>bi_ssl = ssl, bi_is_wbio = 1\<rparr>"
    and "ssl_to_bios m (pid_ptr_key pid ssl) = Some \<lparr>sb_rbio = r, sb_wbio = bio\<rparr>"
    and "tls_prefix_needs_binding pid ssl m"
  shows "tls_prefix_register_egress e bio buf (word_of_nat (length b)) m =
    Some (m\<lparr>tls_prefix_to_ssl := (tls_prefix_to_ssl m)(prefix_key b (min 32 (length b)) \<mapsto>
       \<lparr>tv_ssl = ssl, tv_ts_ns = te_now e, tv_pid = pid\<rparr>)\<rparr>)"
proof -
  let ?len = "word_of_nat (length b) :: u32" and ?n = "min 32 (length b)"
  let ?rec = "take ?n b @ replicate (32 - ?n) 0"
  have lb: "length b = 5 + tls_frag b" "16 \<le> tls_frag b" "tls_frag b < 65536"
    using assms(1) tls_frag_less by (auto simp: tls_record_def)
  have u: "unat ?len = length b"
    unfolding unat_of_nat using lb by (intro mod_less) simp
  have s: "sint ?len = int (length b)"
    unfolding signed_of_nat of_int_eq_id id_apply using lb by (intro signed_take_bit_int_eq_self) simp_all
  have n: "21 \<le> ?n" "unat (word_of_nat ?n :: u32) = ?n"
    using lb by (simp_all add: unat_of_nat)
  have hdr: "probe_read (te_mem e) (unat buf) 5 = Some (take 5 b)"
    using probe_read_take[OF assms(2)] lb by simp
  have body: "probe_read (te_mem e) (unat buf) ?n = Some (take ?n b)"
    using probe_read_take[OF assms(2)] by simp
  have t5: "take 5 ?rec = take 5 b" using n lb by simp
  have w: "key_width (take 5 b) (length b) = ?n" "key_width ?rec (length b) = ?n"
    using record_width[OF assms(1) order_refl] key_width_cong[of "take 5 b" b] key_width_cong[OF t5]
    by simp_all
  have kl: "tls_record_key_len (take 5 b) ?len = Some (word_of_nat ?n)"
    using key_len[of "take 5 b" ?len] w u lb by simp
  have rec: "5 \<le> length ?rec" "unat (word_of_nat ?n :: u32) \<le> length ?rec" using n lb by simp_all
  have "tls_prefix_key_from_buf ?rec (word_of_nat ?n) ?len = Some (word_of_nat ?n, prefix_key ?rec ?n)"
    unfolding key_from_buf[OF rec] u w(2) n(2) Let_def using n by auto
  moreover have "prefix_key ?rec ?n = prefix_key b ?n"
    by (rule prefix_key_cong) simp
  moreover have "(word_of_nat ?n :: u32) \<noteq> 0"
    using n by (metis unat_0 not_numeral_le_zero)
  ultimately show ?thesis
    using assms(3,5-) s n lb hdr body kl
    by (simp add: tls_prefix_register_egress_def bio_owner_is_current_def tls_consts Let_def flip: pid)
qed

lemma bind_record:
  assumes "tls_record b" "te_scratch e"
    and sent: "take (unat copied) buf = take (unat copied) (b @ rest)"
      "min 32 (length b) \<le> unat copied" "unat copied \<le> length buf" "length b \<le> unat avail"
    and val: "tls_prefix_to_ssl m (prefix_key b (min 32 (length b))) = Some v"
      "tv_pid v = pid_from_pid_tgid i" "te_now e - tv_ts_ns v \<le> k_tls_prefix_max_age_ns"
  shows "tls_prefix_try_bind e i buf copied avail p_conn dport m =
    Some (True, (set_active_ssl_connection \<lparr>sp_conn = p_conn, sp_orig_dport = dport\<rparr> (tv_ssl v) m)
      \<lparr>tls_prefix_to_ssl := map_del (prefix_key b (min 32 (length b))) (tls_prefix_to_ssl m)\<rparr>)"
proof -
  let ?n = "min 32 (length b)"
  have lb: "21 \<le> length b" "tls_head b" using assms(1) by (auto simp: tls_record_def)
  have n: "21 \<le> ?n" "5 \<le> length buf" "5 \<le> unat copied" using lb sent by simp_all
  have tn: "take k buf = take k b" if "k \<le> ?n" for k
  proof -
    have "take k (take (unat copied) buf) = take k (take (unat copied) (b @ rest))"
      by (simp only: sent(1))
    moreover have "k \<le> unat copied" "k \<le> length b" using that sent(2) by linarith+
    ultimately show ?thesis by (simp add: min_absorb1)
  qed
  have "buf ! i = b ! i" if "i < 5" for i
    using nth_take[of i 5 buf] nth_take[of i 5 b] tn[of 5] n that by simp
  then have "buf ! 0 = b ! 0" "buf ! 1 = b ! 1" by simp_all
  then have h: "tls_head buf" using lb by (simp add: tls_head_def)
  have w: "key_width buf (unat avail) = ?n"
    using key_width_cong[of buf b] tn[of 5] n record_width[OF assms(1) sent(4)] by simp
  have "tls_prefix_key_from_buf buf copied avail = Some (word_of_nat ?n, prefix_key buf ?n)"
    unfolding key_from_buf[OF n(2) sent(3)] w Let_def using n sent(2) by auto
  moreover have "prefix_key buf ?n = prefix_key b ?n"
    by (rule prefix_key_cong) (rule tn, simp)
  moreover have u: "unat (word_of_nat ?n :: u32) = ?n" by (simp add: unat_of_nat)
  moreover have "(word_of_nat ?n :: u32) \<noteq> 0"
    using n(1) u by (metis unat_0 not_numeral_le_zero)
  moreover have "tls_record_plausible_start buf copied = Some True"
    using plausible_start[OF n(2)] n h by simp
  ultimately show ?thesis
    using assms(2) val
    by (simp add: tls_prefix_try_bind_def set_active_ssl_connection_def Let_def)
qed

text \<open>
  C15: A session is bound to its socket by its ciphertext. A session attaches its write BIO, and its
  peer is not known yet. OpenSSL writes one whole record of at least 16 fragment bytes to that BIO;
  the process then sends, within a second, any data that begins with that record, copied and
  coalesced as it may be as long as the copy holds the record or its first 32 bytes. Then the send
  binds the session: both maps name the connection for the session and the session for the
  connection, and the registered prefix is consumed.
\<close>

theorem tls_bind_after_register:
  assumes "tls_record b" "te_scratch e" "te_scratch e'"
    and "probe_read (te_mem e) (unat buf) (length b) = Some b"
    and "pid_from_pid_tgid (te_pid_tgid e) = pid" "pid_from_pid_tgid i = pid"
    and "te_now e' - te_now e \<le> k_tls_prefix_max_age_ns"
    and "bio \<noteq> 0" "tls_prefix_needs_binding pid ssl m"
    and "take (unat copied) out = take (unat copied) (b @ rest)"
    and "min 32 (length b) \<le> unat copied" "unat copied \<le> length out" "length b \<le> unat avail"
  shows "\<exists>m1 m2. tls_prefix_register_egress e bio buf (word_of_nat (length b))
        (ssl_bios_track pid ssl rbio bio m) = Some m1 \<and>
      tls_prefix_try_bind e' i out copied avail p_conn dport m1 = Some (True, m2) \<and>
      lookup_ssl_conn (pc_pid p_conn) ssl m2 = Some \<lparr>sp_conn = p_conn, sp_orig_dport = dport\<rparr> \<and>
      active_ssl_connections m2 p_conn = Some ssl \<and>
      tls_prefix_to_ssl m2 = map_del (prefix_key b (min 32 (length b))) (tls_prefix_to_ssl m)"
proof -
  let ?m = "ssl_bios_track pid ssl rbio bio m" and ?k = "prefix_key b (min 32 (length b))"
  let ?v = "\<lparr>tv_ssl = ssl, tv_ts_ns = te_now e, tv_pid = pid\<rparr>"
  let ?m1 = "?m\<lparr>tls_prefix_to_ssl := (tls_prefix_to_ssl ?m)(?k \<mapsto> ?v)\<rparr>"
  have "tls_prefix_needs_binding pid ssl ?m" using assms(9) by (simp add: tls_prefix_needs_binding_def)
  then have r: "tls_prefix_register_egress e bio buf (word_of_nat (length b)) ?m = Some ?m1"
    using register_record[OF assms(1,4,2) assms(5)[symmetric] track_lookup[OF assms(8)]] by simp
  have "tls_prefix_try_bind e' i out copied avail p_conn dport ?m1 =
    Some (True, (set_active_ssl_connection \<lparr>sp_conn = p_conn, sp_orig_dport = dport\<rparr> (tv_ssl ?v) ?m1)
      \<lparr>tls_prefix_to_ssl := map_del ?k (tls_prefix_to_ssl ?m1)\<rparr>)"
    by (rule bind_record[OF assms(1,3,10-13)]) (use assms(6,7) in simp_all)
  moreover have "map_del ?k ((tls_prefix_to_ssl m)(?k \<mapsto> ?v)) = map_del ?k (tls_prefix_to_ssl m)"
    by (simp add: map_del_def fun_eq_iff)
  ultimately show ?thesis
    unfolding r by (simp add: set_active_ssl_connection_def lookup_ssl_conn_def)
qed

definition empty_tls_maps :: tls_maps where
  "empty_tls_maps = \<lparr>bio_to_ssl = Map.empty, ssl_to_bios = Map.empty, tls_prefix_to_ssl = Map.empty,
     ssl_to_conn = Map.empty, active_ssl_connections = Map.empty,
     active_ssl_read_args = Map.empty, active_ssl_write_args = Map.empty\<rparr>"

definition sample_record :: bytes where
  "sample_record = [0x16, 3, 1, 0, 16] @ replicate 16 7"

theorem tls_bind_after_register_witness:
  "\<exists>m1 m2. tls_prefix_register_egress
        \<lparr>te_pid_tgid = to_pid_tgid 9 9, te_now = 5, te_mem = mem_of 4096 sample_record, te_scratch = True\<rparr>
        77 4096 (word_of_nat (length sample_record)) (ssl_bios_track 9 66 0 77 empty_tls_maps) = Some m1 \<and>
      tls_prefix_try_bind
        \<lparr>te_pid_tgid = to_pid_tgid 9 9, te_now = 8, te_mem = Map.empty, te_scratch = True\<rparr>
        (to_pid_tgid 9 9) (sample_record @ [1, 2]) 23 23 \<lparr>pc_conn = sample_conn, pc_pid = 9\<rparr> 443 m1
        = Some (True, m2) \<and>
      lookup_ssl_conn 9 66 m2 = Some \<lparr>sp_conn = \<lparr>pc_conn = sample_conn, pc_pid = 9\<rparr>, sp_orig_dport = 443\<rparr>"
proof -
  let ?e = "\<lparr>te_pid_tgid = to_pid_tgid 9 9, te_now = 5, te_mem = mem_of 4096 sample_record, te_scratch = True\<rparr>"
  let ?e' = "\<lparr>te_pid_tgid = to_pid_tgid 9 9, te_now = 8, te_mem = Map.empty, te_scratch = True\<rparr>"
  have r: "tls_record sample_record" "length sample_record = 21"
    by (simp_all add: tls_record_def tls_head_def tls_frag_def sample_record_def nth_append)
  have "probe_read (te_mem ?e) (unat (4096 :: u64)) (length sample_record) = Some sample_record"
    using probe_read_mem_of[of 0 21 sample_record 4096] r by simp
  moreover have "pid_from_pid_tgid (to_pid_tgid 9 9) = 9" by (simp add: to_pid_tgid_roundtrip)
  moreover have "tls_prefix_needs_binding 9 66 empty_tls_maps"
    by (simp add: tls_prefix_needs_binding_def empty_tls_maps_def)
  ultimately show ?thesis
    using tls_bind_after_register[of sample_record ?e ?e' 4096 9 "to_pid_tgid 9 9" 77 66 empty_tls_maps 23
        "sample_record @ [1, 2]" "[1, 2]" 23 0 "\<lparr>pc_conn = sample_conn, pc_pid = 9\<rparr>" 443] r
    by (auto simp: k_tls_prefix_max_age_ns_def)
qed

subsection \<open>Histories with eviction\<close>

text \<open>What the uprobes on OpenSSL report, most recent first.\<close>

datatype bio_event = SetBio u32 u64 u64 u64 | FreeSsl u32 u64

inductive tls_run :: "bio_event list \<Rightarrow> tls_maps \<Rightarrow> bool" where
  start: "tls_run [] empty_tls_maps"
| set_bio: "tls_run h m \<Longrightarrow> tls_run (SetBio pid ssl r w # h) (ssl_bios_track pid ssl r w m)"
| free: "tls_run h m \<Longrightarrow> tls_run (FreeSsl pid ssl # h) (ssl_bios_forget pid ssl m)"
| bio_write: "tls_run h m \<Longrightarrow> tls_prefix_register_egress e bio buf len m = Some m' \<Longrightarrow> tls_run h m'"
| send: "tls_run h m \<Longrightarrow> tls_prefix_try_bind e i out copied avail p_conn dport m = Some (ok, m') \<Longrightarrow> tls_run h m'"
| ssl_call: "tls_run h m \<Longrightarrow>
    tls_run h (m\<lparr>active_ssl_read_args := (active_ssl_read_args m)(i := ra),
                active_ssl_write_args := (active_ssl_write_args m)(i := wa)\<rparr>)"
| connect_sock: "tls_run h m \<Longrightarrow> tls_run h (connect_ssl_to_sock i sk dir m)"
| connect_conn: "tls_run h m \<Longrightarrow> tls_run h (connect_ssl_to_connection i p_conn dir dport m)"
| evict: "tls_run h m \<Longrightarrow> evicts (bio_to_ssl m) b \<Longrightarrow> evicts (ssl_to_bios m) s \<Longrightarrow>
    evicts (tls_prefix_to_ssl m) p \<Longrightarrow> evicts (ssl_to_conn m) c \<Longrightarrow>
    tls_run h (m\<lparr>bio_to_ssl := b, ssl_to_bios := s, tls_prefix_to_ssl := p, ssl_to_conn := c\<rparr>)"

text \<open>Which session a BIO was last given to, and on which side (true for the write side).\<close>

fun last_named :: "bio_event list \<Rightarrow> u32 \<Rightarrow> u64 \<Rightarrow> (u64 \<times> bool) option" where
  "last_named [] pid bio = None"
| "last_named (SetBio p s r w # h) pid bio =
     (if p = pid \<and> bio \<noteq> 0 \<and> w = bio then Some (s, True)
      else if p = pid \<and> bio \<noteq> 0 \<and> r = bio then Some (s, False)
      else last_named h pid bio)"
| "last_named (FreeSsl p s # h) pid bio = last_named h pid bio"

text \<open>The BIOs of a session that has not been freed since.\<close>

fun last_bios :: "bio_event list \<Rightarrow> u32 \<Rightarrow> u64 \<Rightarrow> (u64 \<times> u64) option" where
  "last_bios [] pid ssl = None"
| "last_bios (SetBio p s r w # h) pid ssl = (if p = pid \<and> s = ssl then Some (r, w) else last_bios h pid ssl)"
| "last_bios (FreeSsl p s # h) pid ssl = (if p = pid \<and> s = ssl then None else last_bios h pid ssl)"

definition owns :: "bio_event list \<Rightarrow> u32 \<Rightarrow> u64 \<Rightarrow> u64 \<Rightarrow> bool \<Rightarrow> bool" where
  "owns h pid bio ssl side \<longleftrightarrow> last_named h pid bio = Some (ssl, side) \<and>
     (case last_bios h pid ssl of None \<Rightarrow> False | Some (r, w) \<Rightarrow> bio = (if side then w else r))"

text \<open>At some time its session had a write BIO: the state of the history then is a suffix of it.\<close>

definition owned_once :: "bio_event list \<Rightarrow> tls_prefix_val \<Rightarrow> bool" where
  "owned_once h v \<longleftrightarrow> (\<exists>h1 h2 bio. h = h1 @ h2 \<and> owns h2 (tv_pid v) bio (tv_ssl v) True)"

lemma owned_once_now: "owns h (tv_pid v) bio (tv_ssl v) True \<Longrightarrow> owned_once h v"
  unfolding owned_once_def by (intro exI[of _ "[]"] exI[of _ h] exI[of _ bio]) simp

lemma owned_once_later [simp]: "owned_once h v \<Longrightarrow> owned_once (ev # h) v"
  unfolding owned_once_def by (metis append_Cons)

definition canonical_key :: "tls_prefix_key \<Rightarrow> bool" where
  "canonical_key k \<longleftrightarrow> (\<exists>b n. 21 \<le> n \<and> n \<le> 32 \<and> n \<le> length b \<and> tls_head b \<and> k = prefix_key b n)"

definition tls_inv :: "bio_event list \<Rightarrow> tls_maps \<Rightarrow> bool" where
  "tls_inv h m \<longleftrightarrow>
     (\<forall>pid bio i. bio_to_ssl m (pid_ptr_key pid bio) = Some i \<longrightarrow>
        last_named h pid bio = Some (bi_ssl i, bi_is_wbio i \<noteq> 0)) \<and>
     (\<forall>pid ssl b. ssl_to_bios m (pid_ptr_key pid ssl) = Some b \<longrightarrow>
        last_bios h pid ssl = Some (sb_rbio b, sb_wbio b)) \<and>
     (\<forall>k v. tls_prefix_to_ssl m k = Some v \<longrightarrow> canonical_key k \<and> owned_once h v)"

lemma map_le_lookup: "m \<subseteq>\<^sub>m m' \<Longrightarrow> m k = Some v \<Longrightarrow> m' k = Some v"
  by (auto simp: map_le_def dom_def)

lemma pid_ptr_key_eq [simp]: "pid_ptr_key p a = pid_ptr_key q b \<longleftrightarrow> p = q \<and> a = b"
  by (auto simp: pid_ptr_key_def)

lemma current_owner:
  "tls_inv h m \<Longrightarrow> bio_to_ssl m (pid_ptr_key pid bio) = Some i \<Longrightarrow> bio_owner_is_current pid bio i m \<Longrightarrow>
     owns h pid bio (bi_ssl i) (bi_is_wbio i \<noteq> 0)"
  by (cases "ssl_to_bios m (pid_ptr_key pid (bi_ssl i))")
    (auto simp: tls_inv_def owns_def bio_owner_is_current_def)

lemma set_active_other [simp]:
  "bio_to_ssl (set_active_ssl_connection c s m) = bio_to_ssl m"
  "ssl_to_bios (set_active_ssl_connection c s m) = ssl_to_bios m"
  "tls_prefix_to_ssl (set_active_ssl_connection c s m) = tls_prefix_to_ssl m"
  by (simp_all add: set_active_ssl_connection_def)

lemma from_args_other [simp]:
  "bio_to_ssl (snd (unconnected_ssl_from_args i d m)) = bio_to_ssl m"
  "ssl_to_bios (snd (unconnected_ssl_from_args i d m)) = ssl_to_bios m"
  "tls_prefix_to_ssl (snd (unconnected_ssl_from_args i d m)) = tls_prefix_to_ssl m"
  by (simp_all add: unconnected_ssl_from_args_def split: option.split)

text \<open>The invariant reads three of the maps and survives losing entries from them.\<close>

lemma tls_inv_sub:
  assumes "tls_inv h m" "bio_to_ssl m' \<subseteq>\<^sub>m bio_to_ssl m" "ssl_to_bios m' \<subseteq>\<^sub>m ssl_to_bios m"
    "tls_prefix_to_ssl m' \<subseteq>\<^sub>m tls_prefix_to_ssl m"
  shows "tls_inv h m'"
  using assms map_le_lookup[OF assms(2)] map_le_lookup[OF assms(3)] map_le_lookup[OF assms(4)]
  unfolding tls_inv_def by blast

lemma tls_inv_prefix:
  assumes "tls_inv h m" "canonical_key k" "owned_once h v"
  shows "tls_inv h (m\<lparr>tls_prefix_to_ssl := (tls_prefix_to_ssl m)(k \<mapsto> v)\<rparr>)"
  using assms unfolding tls_inv_def by simp

lemma forget_sub:
  "bio_to_ssl (ssl_bios_forget pid ssl m) \<subseteq>\<^sub>m bio_to_ssl m"
  "ssl_to_bios (ssl_bios_forget pid ssl m) = map_del (pid_ptr_key pid ssl) (ssl_to_bios m)"
  by (auto simp: ssl_bios_forget_def Let_def map_le_def map_del_def split: option.split if_splits)

lemma forget_inv [keeps_inv]:
  assumes "tls_inv h m"
  shows "tls_inv (FreeSsl pid ssl # h) (ssl_bios_forget pid ssl m)"
  unfolding tls_inv_def forget_sub(2) forget_other
proof (intro conjI allI impI)
  fix p bio i
  assume "bio_to_ssl (ssl_bios_forget pid ssl m) (pid_ptr_key p bio) = Some i"
  then have "bio_to_ssl m (pid_ptr_key p bio) = Some i" by (rule map_le_lookup[OF forget_sub(1)])
  then show "last_named (FreeSsl pid ssl # h) p bio = Some (bi_ssl i, bi_is_wbio i \<noteq> 0)"
    using assms by (simp add: tls_inv_def)
qed (use assms in \<open>auto simp: tls_inv_def split: if_splits\<close>)

lemma track_inv [keeps_inv]:
  assumes "tls_inv h m"
  shows "tls_inv (SetBio pid ssl r w # h) (ssl_bios_track pid ssl r w m)"
proof -
  define m0 where "m0 = ssl_bios_forget pid ssl m"
  have m0: "tls_inv (FreeSsl pid ssl # h) m0" "tls_prefix_to_ssl m0 = tls_prefix_to_ssl m"
    unfolding m0_def using forget_inv[OF assms] by simp_all
  have b: "bio_to_ssl (ssl_bios_track pid ssl r w m) =
      (let f = (if r \<noteq> 0 then (bio_to_ssl m0)(pid_ptr_key pid r \<mapsto> \<lparr>bi_ssl = ssl, bi_is_wbio = 0\<rparr>) else bio_to_ssl m0)
       in if w \<noteq> 0 then f(pid_ptr_key pid w \<mapsto> \<lparr>bi_ssl = ssl, bi_is_wbio = 1\<rparr>) else f)"
    and s: "ssl_to_bios (ssl_bios_track pid ssl r w m) =
      (ssl_to_bios m0)(pid_ptr_key pid ssl \<mapsto> \<lparr>sb_rbio = r, sb_wbio = w\<rparr>)"
    by (simp_all add: ssl_bios_track_def Let_def m0_def)
  show ?thesis
    unfolding tls_inv_def b s track_other
  proof (intro conjI allI impI)
    fix p bio i
    assume a: "(let f = (if r \<noteq> 0 then (bio_to_ssl m0)(pid_ptr_key pid r \<mapsto> \<lparr>bi_ssl = ssl, bi_is_wbio = 0\<rparr>) else bio_to_ssl m0)
       in if w \<noteq> 0 then f(pid_ptr_key pid w \<mapsto> \<lparr>bi_ssl = ssl, bi_is_wbio = 1\<rparr>) else f) (pid_ptr_key p bio) = Some i"
    have "last_named h p bio = Some (bi_ssl i, bi_is_wbio i \<noteq> 0)" if "bio_to_ssl m0 (pid_ptr_key p bio) = Some i"
      using m0(1) that by (simp add: tls_inv_def)
    then show "last_named (SetBio pid ssl r w # h) p bio = Some (bi_ssl i, bi_is_wbio i \<noteq> 0)"
      using a by (auto simp: Let_def split: if_splits)
  qed (use m0 assms in \<open>auto simp: tls_inv_def split: if_splits\<close>)
qed

lemma key_from_buf_canonical:
  assumes "tls_prefix_key_from_buf src copied avail = Some (l, k)" "l \<noteq> 0"
    and "5 \<le> length src" "unat copied \<le> length src"
  shows "canonical_key k"
proof -
  let ?n = "key_width src (unat avail)"
  have "?n \<noteq> 0" "?n \<le> unat copied" "k = prefix_key src ?n"
    using assms by (auto simp: key_from_buf Let_def split: if_splits)
  moreover from this have "21 \<le> ?n" "tls_head src" by (auto simp: key_width_def split: if_splits)
  ultimately show ?thesis
    unfolding canonical_key_def using key_width_le(1)[of src "unat avail"] assms(4)
    by (intro exI[of _ src] exI[of _ ?n]) simp
qed

lemma register_cases:
  assumes "tls_prefix_register_egress e bio buf len m = Some m'"
  shows "m' = m \<or> m' = m\<lparr>bio_to_ssl := map_del (pid_ptr_key (pid_from_pid_tgid (te_pid_tgid e)) bio) (bio_to_ssl m)\<rparr> \<or>
    (\<exists>info k. bio_to_ssl m (pid_ptr_key (pid_from_pid_tgid (te_pid_tgid e)) bio) = Some info \<and>
       bio_owner_is_current (pid_from_pid_tgid (te_pid_tgid e)) bio info m \<and> bi_is_wbio info \<noteq> 0 \<and>
       tls_prefix_needs_binding (pid_from_pid_tgid (te_pid_tgid e)) (bi_ssl info) m \<and> canonical_key k \<and>
       m' = m\<lparr>tls_prefix_to_ssl := (tls_prefix_to_ssl m)(k \<mapsto> \<lparr>tv_ssl = bi_ssl info, tv_ts_ns = te_now e,
         tv_pid = pid_from_pid_tgid (te_pid_tgid e)\<rparr>)\<rparr>)"
proof (cases "bio_to_ssl m (pid_ptr_key (pid_from_pid_tgid (te_pid_tgid e)) bio)")
  case None
  then show ?thesis using assms by (auto simp: tls_prefix_register_egress_def Let_def split: if_splits)
next
  case (Some info)
  let ?p = "pid_from_pid_tgid (te_pid_tgid e)"
  show ?thesis
  proof (cases "sint len < int k_tls_hdr_len \<or> \<not> bio_owner_is_current ?p bio info m \<or> bi_is_wbio info = 0 \<or>
      \<not> tls_prefix_needs_binding ?p (bi_ssl info) m")
    case True
    then show ?thesis
      using assms Some by (auto simp: tls_prefix_register_egress_def Let_def split: if_splits)
  next
    case False
    then have "m' = m \<or> (\<exists>bs n l k. n \<le> 32 \<and> length bs = n \<and>
        tls_prefix_key_from_buf (bs @ replicate (32 - n) 0) (word_of_nat n) len = Some (l, k) \<and> l \<noteq> 0 \<and>
        m' = m\<lparr>tls_prefix_to_ssl := (tls_prefix_to_ssl m)(k \<mapsto>
        \<lparr>tv_ssl = bi_ssl info, tv_ts_ns = te_now e, tv_pid = ?p\<rparr>)\<rparr>)" (is "_ \<or> (\<exists>bs n l k. ?R bs n l k)")
    proof (cases "m' = m")
      assume "m' \<noteq> m"
      then obtain kl :: u32 and bs l k where
        "probe_read (te_mem e) (unat buf) (min (unat kl) 32) = Some bs"
        "tls_prefix_key_from_buf (bs @ replicate (32 - min (unat kl) 32) 0) (word_of_nat (min (unat kl) 32)) len = Some (l, k)"
        "l \<noteq> 0" "m' = m\<lparr>tls_prefix_to_ssl := (tls_prefix_to_ssl m)(k \<mapsto>
          \<lparr>tv_ssl = bi_ssl info, tv_ts_ns = te_now e, tv_pid = ?p\<rparr>)\<rparr>"
        using assms Some False
        by (clarsimp simp: tls_prefix_register_egress_def Let_def tls_consts split: if_splits option.splits bind_splits)
      then have "?R bs (min (unat kl) 32) l k" by (simp add: probe_read_length)
      then show ?thesis by blast
    qed simp
    moreover have "canonical_key k" if "?R bs n l k" for bs n l k
      using that by (intro key_from_buf_canonical[of "bs @ replicate (32 - n) 0" "word_of_nat n" len l])
        (auto simp: unat_of_nat)
    ultimately show ?thesis using False Some by blast
  qed
qed

lemma map_del_le: "map_del k m \<subseteq>\<^sub>m m"
  by (auto simp: map_le_def split: if_splits)

lemma register_inv [keeps_inv]:
  assumes "tls_inv h m" "tls_prefix_register_egress e bio buf len m = Some m'"
  shows "tls_inv h m'"
  using register_cases[OF assms(2)]
proof (elim disjE exE conjE)
  assume "m' = m\<lparr>bio_to_ssl := map_del (pid_ptr_key (pid_from_pid_tgid (te_pid_tgid e)) bio) (bio_to_ssl m)\<rparr>"
  then show ?thesis by (auto intro!: tls_inv_sub[OF assms(1)] simp: map_le_def)
next
  fix info k
  assume o: "bio_to_ssl m (pid_ptr_key (pid_from_pid_tgid (te_pid_tgid e)) bio) = Some info"
    "bio_owner_is_current (pid_from_pid_tgid (te_pid_tgid e)) bio info m" "bi_is_wbio info \<noteq> 0"
    and k: "canonical_key k"
    and m': "m' = m\<lparr>tls_prefix_to_ssl := (tls_prefix_to_ssl m)(k \<mapsto> \<lparr>tv_ssl = bi_ssl info, tv_ts_ns = te_now e,
         tv_pid = pid_from_pid_tgid (te_pid_tgid e)\<rparr>)\<rparr>"
  show ?thesis
    unfolding m' using current_owner[OF assms(1) o(1,2)] o(3)
    by (intro tls_inv_prefix[OF assms(1) k] owned_once_now[where bio = bio]) simp
qed (simp add: assms(1))

lemma bind_inv [keeps_inv]:
  assumes "tls_inv h m" "tls_prefix_try_bind e i out copied avail p_conn dport m = Some (ok, m')"
  shows "tls_inv h m'"
proof -
  have "bio_to_ssl m' = bio_to_ssl m \<and> ssl_to_bios m' = ssl_to_bios m \<and>
      tls_prefix_to_ssl m' \<subseteq>\<^sub>m tls_prefix_to_ssl m"
    using assms(2)
    by (auto simp: tls_prefix_try_bind_def Let_def map_del_le split: if_splits option.splits bind_splits)
  then show ?thesis by (auto intro!: tls_inv_sub[OF assms(1)])
qed

lemma connect_other [simp]:
  "bio_to_ssl (connect_ssl_to_sock i sk d m) = bio_to_ssl m"
  "ssl_to_bios (connect_ssl_to_sock i sk d m) = ssl_to_bios m"
  "tls_prefix_to_ssl (connect_ssl_to_sock i sk d m) = tls_prefix_to_ssl m"
  "bio_to_ssl (connect_ssl_to_connection i p_conn d dport m) = bio_to_ssl m"
  "ssl_to_bios (connect_ssl_to_connection i p_conn d dport m) = ssl_to_bios m"
  "tls_prefix_to_ssl (connect_ssl_to_connection i p_conn d dport m) = tls_prefix_to_ssl m"
  using from_args_other[of i d m]
  by (cases "unconnected_ssl_from_args i d m";
      simp add: connect_ssl_to_sock_def connect_ssl_to_connection_def split: prod.split bool.split)+

lemma tls_run_keeps: "tls_run h m \<Longrightarrow> tls_inv h m"
proof (induction rule: tls_run.induct)
  case start
  then show ?case by (simp add: tls_inv_def empty_tls_maps_def)
next
  case (evict h m b s p c)
  then show ?case by (auto intro: tls_inv_sub simp: evicts_def)
qed (auto intro: keeps_inv tls_inv_sub)

text \<open>
  C12: Stale BIO ownership is never believed. Take any history of sessions attaching BIOs and being
  freed, of record writes, sends and connects, with any map losing any entries at any time. A BIO
  entry confirmed by the check against the session's own entry names the session the BIO was last
  given to, on that side, and that session has not been freed or given other BIOs since. Every
  registered prefix is the canonical key of a TLS record of 21 to 32 bytes, and was registered for a
  session of that process that owned a write BIO at that time.
\<close>

theorem tls_run_ownership:
  assumes "tls_run h m"
  shows "(\<forall>pid bio i. bio_to_ssl m (pid_ptr_key pid bio) = Some i \<and> bio_owner_is_current pid bio i m \<longrightarrow>
        owns h pid bio (bi_ssl i) (bi_is_wbio i \<noteq> 0)) \<and>
    (\<forall>k v. tls_prefix_to_ssl m k = Some v \<longrightarrow> canonical_key k \<and> owned_once h v)"
  using tls_run_keeps[OF assms] current_owner[of h m] by (auto simp: tls_inv_def)

theorem tls_run_ownership_witness:
  "owns [SetBio 9 66 0 77, SetBio 9 65 0 77] 9 77 66 True"
proof -
  let ?m = "ssl_bios_track 9 66 0 77 (ssl_bios_track 9 65 0 77 empty_tls_maps)"
  have "tls_run [SetBio 9 66 0 77, SetBio 9 65 0 77] ?m"
    by (intro tls_run.intros)
  moreover have "bio_to_ssl ?m (pid_ptr_key 9 77) = Some \<lparr>bi_ssl = 66, bi_is_wbio = 1\<rparr>"
    and "bio_owner_is_current 9 77 \<lparr>bi_ssl = 66, bi_is_wbio = 1\<rparr> ?m"
    using track_lookup[of 77 9 66 0] by (simp_all add: bio_owner_is_current_def)
  ultimately show ?thesis
    using tls_run_ownership[of "[SetBio 9 66 0 77, SetBio 9 65 0 77]" ?m] by fastforce
qed

text \<open>A running SSL call is connected at most once: the flag makes the second attempt a null.\<close>

lemma from_args_once:
  "fst (unconnected_ssl_from_args i d (snd (unconnected_ssl_from_args i d m))) = 0"
proof -
  have "ssl_args_connected (set_ssl_args_connected a)" for a
  proof -
    have "(sg_flags a OR 1) AND 1 = 1"
      by (rule bit_word_eqI) (auto simp: bit_simps)
    then show ?thesis
      by (simp add: ssl_args_connected_def set_ssl_args_connected_def FLAG_CONNECTED_def)
  qed
  then show ?thesis
    by (simp add: unconnected_ssl_from_args_def TCP_RECV_def TCP_SEND_def split: option.split)
qed

end
