(* ===== verification/Spec2Isabelle.thy ===== *)
theory Spec2Isabelle
  imports Protocol_Handler Tls_Correlation
begin

text \<open>
  This library verifies the BPF programs of the OpenTelemetry eBPF instrumentation, under
  \<open>src/bpf/\<close>. The programs run in the kernel, attached to socket functions and to functions of
  traced processes. They recognise the requests a process serves and sends, keep one record for each
  while it is in flight, work out which trace a request belongs to and which span is its parent, and
  hand finished records and captured payload to user space over a ring buffer. User space, written in
  Go, reads the records; it is not part of this library.

  \<^bold>\<open>Parts and their theories.\<close>

  \<^item> \<open>OBI_Prelude\<close>: the types the theories share (machine integers as words, bytes as word lists,
    memory as a partial function read with \<open>probe_read\<close>, BPF maps as partial functions) and the
    generic lemmas about them, with the collections of simplification rules.
  \<^item> \<open>Pid_Filter\<close> (\<open>pid/\<close>): process identity across pid namespaces and the filter that decides
    which processes are traced. \<open>Conn_Info\<close> (\<open>common/connection_info.h\<close>, \<open>common/egress_key.h\<close>,
    \<open>common/fd_info.h\<close>, \<open>maps/fd_map.h\<close>): connection tuples, their canonical order, descriptors.
    \<open>Sock_Addr\<close> (\<open>common/sockaddr.h\<close>): tuples read from kernel sockets and user addresses.
    \<open>C_Strings\<close> (\<open>common/strings.h\<close>): bounded string comparisons.
  \<^item> \<open>Trace_Text\<close> (\<open>common/tp_info.h\<close>, \<open>common/trace_util.h\<close>): trace contexts, hexadecimal text
    and the search for a traceparent header in a request. \<open>H2_Frames\<close> (\<open>common/h2_defs.h\<close>,
    \<open>generictracer/http2_grpc.h\<close>): recognition of HTTP/2 traffic. \<open>H2_Huffman\<close>
    (\<open>common/h2_tp_huffman.h\<close>) and \<open>Hpack_Traceparent\<close> (\<open>common/h2_tp_scan.h\<close>,
    \<open>generictracer/hpack_traceparent_parse.h\<close>): traceparent fields in HPACK header blocks.
  \<^item> \<open>Http_Info\<close> (\<open>common/http_info.h\<close>, \<open>common/http_types.h\<close>): records of HTTP requests.
    \<open>Trace_State\<close> (\<open>common/tracing.h\<close>, \<open>common/trace_helpers.h\<close>, \<open>common/sampling.h\<close>,
    \<open>common/runtime.h\<close>, \<open>shared/obi_ctx.h\<close>): the maps that hold contexts, sampling, fresh contexts.
    \<open>Trace_Parent\<close> (\<open>common/trace_parent.h\<close>, \<open>common/http_trace_parent.h\<close>,
    \<open>common/python_task.h\<close>): the search for the parent of a client request. \<open>Trace_Lifecycle\<close>
    (\<open>common/trace_lifecycle.h\<close>, \<open>gotracer/go_common.h\<close>): how contexts are stored, adopted, removed.
  \<^item> \<open>Tls_Correlation\<close> (\<open>common/tls_record.h\<close>, \<open>common/ssl_args.h\<close>, \<open>common/ssl_helpers.h\<close>,
    \<open>generictracer/tls_prefix.h\<close>): which connection a TLS session writes to.
  \<^item> \<open>Large_Buf\<close> (\<open>common/ringbuf.h\<close>, \<open>common/large_buf_emit.h\<close>): the ring buffer and payload
    chunks. \<open>Sql_Protocols\<close> and \<open>Rpc_Protocols\<close> (\<open>generictracer/protocol_mysql.h\<close>,
    \<open>protocol_postgres.h\<close>, \<open>protocol_mssql.h\<close>, \<open>protocol_kafka.h\<close>, \<open>protocol_aerospike.h\<close>,
    \<open>protocol_sunrpc.h\<close>): the classifiers and payload senders of the database and RPC protocols.
    \<open>Tcp_Requests\<close> (\<open>generictracer/protocol_tcp.h\<close>, \<open>tcp_trace_cleanup.h\<close>, \<open>failed_connect.h\<close>):
    the handler of a packet of a connection that is not HTTP.
  \<^item> \<open>Http_Requests\<close> (\<open>generictracer/protocol_http.h\<close>, \<open>http_event.h\<close>, \<open>http_server_trace.h\<close>,
    \<open>maps/java_http1_requests.h\<close>): how the record of an HTTP request is created, given its context,
    completed by its response and reported. \<open>Http2_Requests\<close> (\<open>generictracer/protocol_http2.h\<close>,
    \<open>types/grpc_frames_ctx.h\<close>, \<open>maps/h2_cut_frames.h\<close>): the programs that walk the frames of a
    buffer, start and end the requests of its streams, and carry a cut frame over to the next buffer.
    \<open>Protocol_Handler\<close> (\<open>generictracer/protocol_handler.c\<close>, \<open>k_tracer_defs.h\<close>): the dispatch of a
    buffer to the HTTP, HTTP/2 or TCP programs.

  A buffer that a process sends or receives enters at \<open>obi_handle_buf_with_args\<close>. The handler it is
  given to looks up the record of the connection (\<open>ongoing_http\<close>, \<open>ongoing_http2_grpc\<close> or
  \<open>ongoing_tcp_req\<close>), asks \<open>Trace_Lifecycle\<close> and \<open>Trace_Parent\<close> for the context of a new request and
  ships payload and finished records over the ring buffer of \<open>Large_Buf\<close>. The state of these handlers is
  \<open>http_world\<close>, which contains the state of the TCP handler, \<open>tcp_world\<close>, which contains the maps of
  the contexts, \<open>trace_maps\<close>, and of the protocols, \<open>proto_maps\<close>.

  \<^bold>\<open>How the code is modelled.\<close> Each C struct is a record with a prefix per struct, each enum with a
  closed set of values a datatype, each function one definition with the same name that takes the
  maps it touches and returns them updated; a handler too long to read is split where its branches
  are. A tail call runs the program it names and does not return; in the HTTP/2 programs, which call
  each other many times over, it may also fail when the kernel's limit is reached, and then the
  program goes on behind it. Integers keep their width. A helper that reads a local buffer out of bounds returns \<open>None\<close>,
  so that a property that shows a result also shows that no read leaves the buffer. Reads of user or kernel
  memory can fail, as \<open>bpf_probe_read\<close> can; where the code ignores the failure the destination is
  zeroed, as the helper does. The clock, the random words, the task and whether the ring buffer
  accepts a record are parameters (\<open>trace_env\<close>, \<open>ring_env\<close>): streams indexed by a position kept in
  the state. Configuration constants set when a program is loaded are records (\<open>trace_cfg\<close>,
  \<open>capture_cfg\<close>). Pointers to contexts that live in a map or in per-CPU scratch are references
  (\<open>tp_ref\<close>) that are looked up again, so that an update through one is seen through another. Maps with
  a size limit may drop entries: a property that depends on an entry staying says so.

  \<^bold>\<open>Interfaces.\<close> \<open>capture_budget\<close> states what a payload sender promises about the bytes it ships; it
  is proved for each sender and used for the handler of all protocols. \<open>protocol_detector\<close> states
  what a classifier may do to the type of a connection; it is proved for the six classifiers, and
  \<open>protocol_chain\<close>, which it gives, for the six asked one after another. \<open>reporting\<close> states what each
  step of a handler may do to the requests in flight and the reports made; it is proved for the TCP
  handler and for the dispatch of HTTP, and gives for both that no more requests are reported than began.

  \<^bold>\<open>What is shown.\<close> Recognisers are compared with grammars written independently of the code: HTTP
  requests, HTTP/2 frame sequences, TDS, PostgreSQL and Sun RPC messages, traceparent headers and their
  Huffman form, which is compared with the code of RFC 7541. Encoders and decoders are inverse.
  Scans stay inside their buffers. Keys that stand for the same connection seen from both ends or
  over different paths are equal. The parent searches return the nearest eligible context, never one
  of another trace when the request names its trace, and report ambiguity instead of guessing. A
  context is adopted once. A TLS buffer is bound to the session that owns it at that time and to no other.
  A recycled Python task lends no request, and the end of a client span leaves the thread and the maps as
  the request had them. Chunks put together are the captured bytes, and a TCP request that is handled
  as one protocol throughout ships no more than the limit of that protocol. The type of a connection,
  once accepted, is stable.

  Over every sequence of operations there are never more TCP requests reported than records were
  started or connections failed, and never more HTTP requests than request packets were seen. An HTTP request is
  reported once when its response arrives, and also, without a status, when only bytes arrive that no
  parser recognises and the connection closes or its next request begins. The frame that ends an HTTP/2
  stream makes the stream's request be reported, only requests that were open and awaited an answer in
  the direction of the buffer are reported, and a frame that the end of a receive cuts is neither lost
  nor misread when the next receive arrives.

  \<^bold>\<open>Bounds.\<close> Loops with a constant bound in the code recurse on that bound (ten messages in a
  segment, four generations of Python tasks, the scan limits of the header searches), so the model
  ends exactly where the code does and no fuel is added. \<open>bpf_loop\<close> runs its callback at most the
  requested number of times. The chunk loop runs as often as the buffer has started chunks, which the
  reassembly property shows to be enough for the 64 KiB a call may ship. The HTTP/2 programs run under
  the number of tail calls the kernel allows, \<open>hv_tail_calls\<close>, on which \<open>h2_run\<close> recurses; the kernel's
  limit is 33 or 32 by version. That only open requests are reported holds for every limit; seven tail calls are
  enough to reach an end of stream behind twenty-three other frames, four frames for each call.

  \<^bold>\<open>Not modelled.\<close> Programs whose work is reading kernel or runtime structures at
  offsets found at load time: the socket probes (\<open>generictracer/k_tracer.c\<close>, \<open>k_send_receive.h\<close>,
  \<open>k_unix_sock.h\<close>), the OpenSSL, Node.js, Python, Ruby, Java and nginx probes, the Go probes apart
  from the context functions, GPU events; the maps they fill are inputs here. Packet rewriting (\<open>tpinjector/\<close>), DNS
  (\<open>dns.h\<close>, \<open>rdns/\<close>), network flows and TCP statistics (\<open>netolly/\<close>, \<open>statsolly/\<close>), log enrichment
  and the debug logger. The kernel's own helpers are parameters with their documented behaviour.
  Interleavings of programs on several CPUs are modelled only as sequences of whole operations.
\<close>

end
